(* ===== verification/Prelude.thy ===== *)
theory Prelude
  imports Main "HOL-Library.Word"
begin

text \<open>
  Shared vocabulary of the development: the machine integer types of the C
  sources, little-endian byte encodings, C strings, writing a run of bytes
  into a buffer, array maps, and the collections of rewrite rules the
  component theories use.
\<close>

unbundle bit_operations_syntax

named_theorems bpf_simps \<open>definitions unfolded together in component proofs\<close>
named_theorems layout_simps \<open>equations that evaluate structure layouts\<close>

type_synonym u8 = "8 word"
type_synonym u16 = "16 word"
type_synonym u32 = "32 word"
type_synonym u64 = "64 word"
type_synonym bytes = "u8 list"

section \<open>Bytes and little-endian integers\<close>

text \<open>A C character constant as the byte it denotes.\<close>

definition chr :: "char \<Rightarrow> u8" where
  "chr c = word_of_nat (of_char c)"

definition str :: "string \<Rightarrow> bytes" where
  "str s = map chr s"

fun le_nat :: "bytes \<Rightarrow> nat" where
  "le_nat [] = 0"
| "le_nat (b # bs) = unat b + 256 * le_nat bs"

fun le_bytes :: "nat \<Rightarrow> nat \<Rightarrow> bytes" where
  "le_bytes 0 n = []"
| "le_bytes (Suc w) n = word_of_nat (n mod 256) # le_bytes w (n div 256)"

definition le_word :: "bytes \<Rightarrow> 'w::len word" where
  "le_word bs = word_of_nat (le_nat bs)"

lemma unat_bound: "unat (x :: 'w::len word) < 2 ^ LENGTH('w)"
  by (rule unsigned_less)

lemma length_le_bytes [simp]: "length (le_bytes w n) = w"
  by (induction w arbitrary: n) auto

lemma le_nat_bound: "le_nat bs < 256 ^ length bs"
proof (induction bs)
  case (Cons b bs)
  have "unat b \<le> 255" using unat_bound [of b] by simp
  with Cons show ?case by simp
qed simp

lemma le_nat_le_bytes: "le_nat (le_bytes w n) = n mod 256 ^ w"
proof (induction w arbitrary: n)
  case (Suc w)
  have "unat (word_of_nat (n mod 256) :: u8) = n mod 256"
    by (simp add: unat_of_nat)
  moreover have "n mod 256 + 256 * (n div 256 mod 256 ^ w) = n mod 256 ^ Suc w"
    by (simp add: mod_mult2_eq)
  ultimately show ?case using Suc by simp
qed simp

lemma le_bytes_le_nat: "le_bytes (length bs) (le_nat bs) = bs"
proof (induction bs)
  case (Cons b bs)
  have "unat b < 256" using unat_bound [of b] by simp
  then show ?case using Cons by simp
qed simp

lemma le_word_64 [simp]: "le_word (le_bytes 8 (unat x)) = (x :: u64)"
proof -
  have "unat x < 2 ^ 64" using unat_bound [of x] by simp
  then show ?thesis by (simp add: le_word_def le_nat_le_bytes)
qed

lemma le_word_32 [simp]: "le_word (le_bytes 4 (unat x)) = (x :: u32)"
proof -
  have "unat x < 2 ^ 32" using unat_bound [of x] by simp
  then show ?thesis by (simp add: le_word_def le_nat_le_bytes)
qed

lemma le_word_bytes: "n < 256 ^ w \<Longrightarrow> le_word (le_bytes w n) = word_of_nat n"
  by (simp add: le_word_def le_nat_le_bytes)

lemma bit_le_nat:
  "bit (le_nat bs) i \<longleftrightarrow> i div 8 < length bs \<and> bit (bs ! (i div 8)) (i mod 8)"
proof (induction bs arbitrary: i)
  case (Cons b bs)
  have eq: "le_nat (b # bs) = unat b OR push_bit 8 (le_nat bs)"
  proof -
    have "unat b = take_bit 8 (unat b)"
      using unat_bound [of b] by (simp add: take_bit_nat_eq_self)
    then have "unat b AND push_bit 8 (le_nat bs) = 0"
      by (metis (no_types, lifting) bit_eqI bit_and_iff bit_push_bit_iff bit_take_bit_iff
          bit_0_eq bot_apply bot_bool_def leD)
    then have "unat b + push_bit 8 (le_nat bs) = unat b OR push_bit 8 (le_nat bs)"
      by (rule disjunctive_add_eq_or)
    then show ?thesis by (simp add: push_bit_eq_mult mult.commute)
  qed
  show ?case
  proof (cases "i < 8")
    case True
    then show ?thesis by (simp add: eq bit_simps del: le_nat.simps)
  next
    case False
    then have "i div 8 = Suc ((i - 8) div 8)" "i mod 8 = (i - 8) mod 8"
      by (auto simp: le_div_geq le_mod_geq)
    moreover have "\<not> bit b i" using False bit_imp_le_length [of b i] by auto
    ultimately show ?thesis using False Cons [of "i - 8"] by (simp add: eq bit_simps del: le_nat.simps)
  qed
qed simp

lemma bit_le_bytes_nth:
  "k < w \<Longrightarrow> bit (le_bytes w n ! k) j \<longleftrightarrow> j < 8 \<and> bit n (8 * k + j)"
proof (induction w arbitrary: n k)
  case (Suc w)
  show ?case
  proof (cases k)
    case 0
    have "word_of_nat (n mod 256) = (word_of_nat n :: u8)"
      by (simp add: word_of_nat_eq_iff take_bit_eq_mod)
    then show ?thesis using 0 by (auto simp: bit_simps)
  next
    case (Suc k')
    have "n div 256 = drop_bit 8 n" by (simp add: drop_bit_eq_div)
    then show ?thesis
      using Suc Suc.IH [of k' "n div 256"] \<open>k < Suc w\<close> by (simp add: bit_simps ac_simps)
  qed
qed simp

lemma bit_le_word:
  "bit (le_word bs :: 'w::len word) i \<longleftrightarrow>
     i < LENGTH('w) \<and> i div 8 < length bs \<and> bit (bs ! (i div 8)) (i mod 8)"
  by (simp add: le_word_def bit_simps bit_le_nat)

section \<open>C strings\<close>

text \<open>The string a buffer holds: the bytes before its first NUL.\<close>

definition cstr :: "bytes \<Rightarrow> bytes" where
  "cstr bs = takeWhile (\<lambda>b. b \<noteq> 0) bs"

lemma cstr_no_nul [simp]: "0 \<notin> set (cstr bs)"
  by (auto simp: cstr_def dest: set_takeWhileD)

lemma cstr_append_nul [simp]: "0 \<notin> set s \<Longrightarrow> cstr (s @ 0 # r) = s"
  by (induction s) (auto simp: cstr_def)

lemma cstr_id: "0 \<notin> set s \<Longrightarrow> cstr s = s"
  by (induction s) (auto simp: cstr_def)

lemma cstr_length: "length (cstr bs) \<le> length bs"
  by (simp add: cstr_def length_takeWhile_le)

lemma cstr_length_less: "0 \<in> set bs \<Longrightarrow> length (cstr bs) < length bs"
  unfolding cstr_def
  by (metis (mono_tags, lifting) length_takeWhile_le nat_less_le takeWhile_eq_all_conv
      takeWhile_eq_take take_all_iff order_refl)

section \<open>Writing into a buffer\<close>

text \<open>
  \<open>blit p d s\<close> stores the bytes \<open>s\<close> into buffer \<open>d\<close> from index \<open>p\<close> on;
  every use has \<open>p + length s \<le> length d\<close>.
\<close>

definition blit :: "nat \<Rightarrow> 'a list \<Rightarrow> 'a list \<Rightarrow> 'a list" where
  "blit p d s = take p d @ s @ drop (p + length s) d"

lemma length_blit [simp]:
  "p + length s \<le> length d \<Longrightarrow> length (blit p d s) = length d"
  by (simp add: blit_def)

lemma blit_0: "blit 0 d s = s @ drop (length s) d"
  by (simp add: blit_def)

lemma drop_blit_ge:
  "p + length s \<le> q \<Longrightarrow> q \<le> length d \<Longrightarrow> drop q (blit p d s) = drop q d"
  by (simp add: blit_def)

lemma drop_blit_at:
  "p + length s \<le> length d \<Longrightarrow> drop p (blit p d s) = s @ drop (p + length s) d"
  by (simp add: blit_def)

lemma take_blit: "p \<le> length d \<Longrightarrow> take p (blit p d s) = take p d"
  by (simp add: blit_def)

lemma drop_list_update_less [simp]: "i < q \<Longrightarrow> drop q (xs[i := v]) = drop q xs"
  by (simp add: drop_update_cancel)

lemma drop_update_pred:
  assumes "1 \<le> p" and "p \<le> length xs"
  shows "drop (p - 1) (xs[p - 1 := v]) = v # drop p xs"
  using assms by (simp add: upd_conv_take_nth_drop)

section \<open>Array maps\<close>

text \<open>
  An element of a \<open>BPF_MAP_TYPE_ARRAY\<close>: a lookup returns a pointer into the
  array, or NULL when the index is out of range.
\<close>

definition arr_lookup :: "'v list \<Rightarrow> u32 \<Rightarrow> 'v option" where
  "arr_lookup xs i = (if unat i < length xs then Some (xs ! unat i) else None)"

definition arr_store :: "'v list \<Rightarrow> u32 \<Rightarrow> 'v \<Rightarrow> 'v list" where
  "arr_store xs i v = xs[unat i := v]"

lemma arr_lookup_store:
  "unat i < length xs \<Longrightarrow>
     arr_lookup (arr_store xs i v) j = (if j = i then Some v else arr_lookup xs j)"
  by (auto simp: arr_lookup_def arr_store_def nth_list_update word_unat_eq_iff)

lemma length_arr_store [simp]: "length (arr_store xs i v) = length xs"
  by (simp add: arr_store_def)

section \<open>Words\<close>

lemma and_mask_small:
  assumes "unat (x :: u32) < 2048"
  shows "x AND 2047 = x"
proof -
  have "x AND 2047 = take_bit 11 x"
    by (simp add: take_bit_eq_mask mask_numeral)
  moreover have "take_bit 11 x = x"
    using assms by (simp add: word_unat_eq_iff unsigned_take_bit_eq take_bit_nat_eq_self)
  ultimately show ?thesis by simp
qed

lemma unat_and_127:
  assumes "unat (x :: u32) \<le> 127"
  shows "unat (x AND 127) = unat x"
proof -
  have "x AND 127 = take_bit 7 x"
    by (simp add: take_bit_eq_mask mask_numeral)
  moreover have "take_bit 7 x = x"
    using assms by (simp add: word_unat_eq_iff unsigned_take_bit_eq take_bit_nat_eq_self)
  ultimately show ?thesis by simp
qed

lemma unat_sub_word:
  "unat (y :: 'w::len word) \<le> unat x \<Longrightarrow> unat (x - y) = unat x - unat y"
  by (simp add: unat_sub word_le_nat_alt)

end
