(* ===== verification/Bpf_Env.thy ===== *)
theory Bpf_Env
  imports Prelude
begin

text \<open>
  The world an eBPF program runs in: the helper functions the kernel gives it
  and the maps it keeps its state in. The helpers are kernel code, so they are
  parameters of the model: a record of functions that every program definition
  takes. The contracts documented in \<open>bpf_helper_defs.h\<close> are the locales
  \<open>bpf_helpers\<close> and \<open>bpf_map\<close>; both are interpreted on executable
  implementations over a byte memory and over bounded association lists.
\<close>

section \<open>Helper functions as parameters\<close>

text \<open>
  A reading helper gets the source address and the present contents of the
  destination buffer and returns its \<open>long\<close> result with the new contents.
  \<^item> \<open>own_str\<close> is \<open>bpf_probe_read_kernel_str\<close> applied to a pointer into the
    program's own map memory; its source is that memory from the pointer on.
  \<^item> \<open>uninit n\<close> is what \<open>n\<close> bytes of an uninitialised local hold.
  \<^item> \<open>core_off s f\<close> is the offset CO-RE relocation finds for field path \<open>f\<close>
    of \<open>struct s\<close> in the running kernel.
  \<^item> \<open>cpu\<close> is the processor the program runs on (per-CPU maps).
\<close>

record bpf_env =
  probe_read_user :: "u64 \<Rightarrow> bytes \<Rightarrow> int \<times> bytes"
  probe_read_kernel :: "u64 \<Rightarrow> bytes \<Rightarrow> int \<times> bytes"
  probe_read_user_str :: "u64 \<Rightarrow> bytes \<Rightarrow> int \<times> bytes"
  probe_read_kernel_str :: "u64 \<Rightarrow> bytes \<Rightarrow> int \<times> bytes"
  own_str :: "bytes \<Rightarrow> bytes \<Rightarrow> int \<times> bytes"
  current_comm :: "bytes \<Rightarrow> int \<times> bytes"
  current_pid_tgid :: u64
  current_uid_gid :: u64
  ktime_ns :: u64
  current_task :: u64
  uninit :: "nat \<Rightarrow> bytes"
  core_off :: "string \<Rightarrow> string \<Rightarrow> u64"
  cpu :: nat

text \<open>What copying the NUL-terminated string \<open>s\<close> into buffer \<open>d\<close> is documented to do.\<close>

definition str_copy :: "bytes \<Rightarrow> bytes \<Rightarrow> int \<times> bytes" where
  "str_copy s d =
     (let t = take (length d - 1) s in (int (length t) + 1, blit 0 d (t @ [0])))"

lemma str_copy_length [simp]: "0 < length d \<Longrightarrow> length (snd (str_copy s d)) = length d"
  by (cases d) (simp_all add: str_copy_def Let_def)

lemma str_copy_cstr [simp]:
  assumes "0 \<notin> set s"
  shows "cstr (snd (str_copy s d)) = take (length d - 1) s"
proof -
  have "0 \<notin> set (take (length d - 1) s)" using assms by (meson in_set_takeD)
  then show ?thesis by (simp add: str_copy_def Let_def blit_0)
qed

lemma str_copy_ret: "0 < length d \<Longrightarrow> 0 < fst (str_copy s d) \<and> fst (str_copy s d) \<le> int (length d)"
  by (cases d) (auto simp: str_copy_def Let_def)

text \<open>
  A memory range that holds known bytes, or a known string, in the only sense
  a program can observe: through the helpers.
\<close>

definition holds_kernel :: "'a bpf_env_scheme \<Rightarrow> u64 \<Rightarrow> bytes \<Rightarrow> bool" where
  "holds_kernel env a bs \<longleftrightarrow>
     (\<forall>d. length d \<le> length bs \<longrightarrow> probe_read_kernel env a d = (0, take (length d) bs))"

definition holds_user_str :: "'a bpf_env_scheme \<Rightarrow> u64 \<Rightarrow> bytes \<Rightarrow> bool" where
  "holds_user_str env a s \<longleftrightarrow>
     0 \<notin> set s \<and> (\<forall>d. 0 < length d \<longrightarrow> probe_read_user_str env a d = str_copy s d)"

text \<open>
  The documented contract. The length laws say that a helper writes inside the
  buffer it is given; the string laws are the "Returns" paragraphs of
  \<open>bpf_probe_read_user_str\<close> and \<open>bpf_probe_read_kernel_str\<close>.
\<close>

definition str_result :: "bytes \<Rightarrow> int \<times> bytes \<Rightarrow> bool" where
  "str_result d r \<longleftrightarrow>
     length (snd r) = length d \<and>
     (fst r < 0 \<or> (\<exists>s. 0 \<notin> set s \<and> length s < length d \<and>
        fst r = int (length s) + 1 \<and> snd r = blit 0 d (s @ [0])))"

lemma str_resultE:
  assumes "str_result d r"
  obtains (error) "fst r < 0" "length (snd r) = length d"
  | (copied) s where "0 \<notin> set s" "length s < length d" "fst r = int (length s) + 1"
      "snd r = blit 0 d (s @ [0])"
  using assms by (auto simp: str_result_def)

lemma str_result_str_copy: "0 < length d \<Longrightarrow> 0 \<notin> set s \<Longrightarrow> str_result d (str_copy s d)"
proof -
  assume d: "0 < length d" and s: "0 \<notin> set s"
  let ?t = "take (length d - 1) s"
  have "0 \<notin> set ?t" using s by (meson in_set_takeD)
  moreover have "length ?t < length d" using d by (cases d) auto
  ultimately show ?thesis
    using d unfolding str_result_def
    by (auto simp: str_copy_def Let_def intro!: exI [of _ ?t])
qed

locale bpf_helpers =
  fixes env :: "'a bpf_env_scheme"
  assumes read_user_length: "length (snd (probe_read_user env a d)) = length d"
    and read_kernel_length: "length (snd (probe_read_kernel env a d)) = length d"
    and user_str_result: "0 < length d \<Longrightarrow> str_result d (probe_read_user_str env a d)"
    and kernel_str_result: "0 < length d \<Longrightarrow> str_result d (probe_read_kernel_str env a d)"
    and own_str_copy: "0 < length d \<Longrightarrow> 0 \<in> set src \<Longrightarrow> own_str env src d = str_copy (cstr src) d"
    and own_str_length: "0 < length d \<Longrightarrow> length (snd (own_str env src d)) = length d"
    and comm_length: "0 < length d \<Longrightarrow> length (snd (current_comm env d)) = length d"
    and comm_nul: "0 < length d \<Longrightarrow> 0 \<in> set (snd (current_comm env d))"
    and uninit_length: "length (uninit env n) = n"
begin

lemma user_str_length: "0 < length d \<Longrightarrow> length (snd (probe_read_user_str env a d)) = length d"
  using user_str_result by (auto simp: str_result_def)

lemma user_str_ret: "0 < length d \<Longrightarrow> fst (probe_read_user_str env a d) \<le> int (length d)"
  using user_str_result [of d a] by (auto simp: str_result_def)

lemma user_str_not_zero: "0 < length d \<Longrightarrow> fst (probe_read_user_str env a d) \<noteq> 0"
  using user_str_result [of d a] by (auto simp: str_result_def)

end

section \<open>Maps as parameters\<close>

text \<open>
  A hash map is known by its three helpers. A successful update stores the
  value; it may evict other entries (\<open>BPF_MAP_TYPE_LRU_HASH\<close>) but never
  changes the value of one; a failing update changes nothing.
\<close>

record ('k, 'v, 'm) map_ops =
  map_lookup_elem :: "'m \<Rightarrow> 'k \<Rightarrow> 'v option"
  map_update_elem :: "'m \<Rightarrow> 'k \<Rightarrow> 'v \<Rightarrow> u64 \<Rightarrow> int \<times> 'm"
  map_delete_elem :: "'m \<Rightarrow> 'k \<Rightarrow> int \<times> 'm"

definition BPF_ANY :: u64 where "BPF_ANY = 0"

locale bpf_map =
  fixes M :: "('k, 'v, 'm) map_ops"
  assumes update_key: "map_update_elem M m k v BPF_ANY = (0, m') \<Longrightarrow> map_lookup_elem M m' k = Some v"
    and update_other: "map_update_elem M m k v BPF_ANY = (0, m') \<Longrightarrow> k' \<noteq> k \<Longrightarrow>
      map_lookup_elem M m' k' = None \<or> map_lookup_elem M m' k' = map_lookup_elem M m k'"
    and update_error: "map_update_elem M m k v BPF_ANY = (r, m') \<Longrightarrow> r \<noteq> 0 \<Longrightarrow>
      map_lookup_elem M m' = map_lookup_elem M m"
    and delete_key: "map_lookup_elem M (snd (map_delete_elem M m k)) k = None"
    and delete_other: "k' \<noteq> k \<Longrightarrow>
      map_lookup_elem M (snd (map_delete_elem M m k)) k' = map_lookup_elem M m k'"
begin

text \<open>What can be in the map after an update was there before or is the new value.\<close>

lemma update_sub:
  assumes "map_lookup_elem M (snd (map_update_elem M m k v BPF_ANY)) k' = Some w"
  shows "(k' = k \<and> w = v) \<or> map_lookup_elem M m k' = Some w"
proof -
  obtain r m' where u: "map_update_elem M m k v BPF_ANY = (r, m')" by fastforce
  then show ?thesis
    using assms update_key [of m k v m'] update_other [of m k v m' k'] update_error [of m k v r m']
    by (cases "r = 0"; cases "k' = k") auto
qed

lemma delete_sub:
  "map_lookup_elem M (snd (map_delete_elem M m k)) k' = Some w \<Longrightarrow>
     k' \<noteq> k \<and> map_lookup_elem M m k' = Some w"
  by (cases "k' = k") (auto simp: delete_key delete_other)

end

section \<open>Executable implementations of the contracts\<close>

text \<open>
  Byte memories: \<open>None\<close> is an unmapped byte. A faulting read returns
  \<open>-EFAULT\<close> and zeroes the destination.
\<close>

definition mem_read :: "(u64 \<Rightarrow> u8 option) \<Rightarrow> u64 \<Rightarrow> bytes \<Rightarrow> int \<times> bytes" where
  "mem_read m a d =
     (let xs = map (\<lambda>i. m (a + word_of_nat i)) [0..<length d]
      in if None \<in> set xs then (-14, replicate (length d) 0) else (0, map the xs))"

fun mem_scan :: "(u64 \<Rightarrow> u8 option) \<Rightarrow> u64 \<Rightarrow> nat \<Rightarrow> bytes option" where
  "mem_scan m a 0 = Some []"
| "mem_scan m a (Suc n) =
     (case m a of None \<Rightarrow> None
      | Some b \<Rightarrow> if b = 0 then Some [] else map_option ((#) b) (mem_scan m (a + 1) n))"

definition mem_read_str :: "(u64 \<Rightarrow> u8 option) \<Rightarrow> u64 \<Rightarrow> bytes \<Rightarrow> int \<times> bytes" where
  "mem_read_str m a d =
     (case mem_scan m a (length d - 1) of
        None \<Rightarrow> (-14, replicate (length d) 0)
      | Some s \<Rightarrow> (int (length s) + 1, blit 0 d (s @ [0])))"

definition mem_env ::
  "(u64 \<Rightarrow> u8 option) \<Rightarrow> (u64 \<Rightarrow> u8 option) \<Rightarrow> bytes \<Rightarrow> u64 \<Rightarrow> u64 \<Rightarrow> u64 \<Rightarrow> u64 \<Rightarrow>
   (string \<Rightarrow> string \<Rightarrow> u64) \<Rightarrow> bpf_env" where
  "mem_env um km cm pt ug t tk off =
     \<lparr>probe_read_user = mem_read um, probe_read_kernel = mem_read km,
      probe_read_user_str = mem_read_str um, probe_read_kernel_str = mem_read_str km,
      own_str = (\<lambda>src d. str_copy (cstr src) d),
      current_comm = (\<lambda>d. (0, snd (str_copy cm d))),
      current_pid_tgid = pt, current_uid_gid = ug, ktime_ns = t, current_task = tk,
      uninit = (\<lambda>n. replicate n 170), core_off = off, cpu = 0\<rparr>"

lemma mem_scan_Some:
  "mem_scan m a n = Some s \<Longrightarrow> 0 \<notin> set s \<and> length s \<le> n"
  by (induction m a n arbitrary: s rule: mem_scan.induct) (auto split: option.splits if_splits)

lemma mem_read_str_result:
  assumes "0 < length d"
  shows "str_result d (mem_read_str m a d)"
proof (cases "mem_scan m a (length d - 1)")
  case None
  then show ?thesis by (simp add: mem_read_str_def str_result_def)
next
  case (Some s)
  then have "0 \<notin> set s" "length s \<le> length d - 1"
    using mem_scan_Some [OF Some] by auto
  moreover from this assms have "length s < length d" by linarith
  ultimately show ?thesis
    using Some by (auto simp: mem_read_str_def str_result_def)
qed

lemma str_copy_nul: "0 < length d \<Longrightarrow> 0 \<in> set (snd (str_copy s d))"
  by (simp add: str_copy_def Let_def blit_0)

lemma mem_read_length: "length (snd (mem_read m a d)) = length d"
  by (simp add: mem_read_def Let_def)

interpretation mem_env: bpf_helpers "mem_env um km cm pt ug t tk off"
  by unfold_locales
    (simp_all add: mem_env_def mem_read_length mem_read_str_result str_copy_nul)

text \<open>A memory that stores given bytes from an address on, and how it is read back.\<close>

definition mem_of :: "(u64 \<times> bytes) list \<Rightarrow> u64 \<Rightarrow> u8 option" where
  "mem_of segs a =
     (case find (\<lambda>(b, bs). unat (a - b) < length bs) segs of
        None \<Rightarrow> None | Some (b, bs) \<Rightarrow> Some (bs ! unat (a - b)))"

text \<open>
  A coarser machine for concrete runs: readable objects by their address. A
  read must start at an object and stay inside it.
\<close>

definition cell_read :: "(u64 \<times> bytes) list \<Rightarrow> u64 \<Rightarrow> bytes \<Rightarrow> int \<times> bytes" where
  "cell_read cells a d =
     (case map_of cells a of
        Some bs \<Rightarrow> if length d \<le> length bs then (0, take (length d) bs) else (-14, replicate (length d) 0)
      | None \<Rightarrow> (-14, replicate (length d) 0))"

definition cell_read_str :: "(u64 \<times> bytes) list \<Rightarrow> u64 \<Rightarrow> bytes \<Rightarrow> int \<times> bytes" where
  "cell_read_str cells a d =
     (case map_of cells a of
        Some bs \<Rightarrow> if 0 \<in> set bs then str_copy (cstr bs) d else (-14, replicate (length d) 0)
      | None \<Rightarrow> (-14, replicate (length d) 0))"

definition cell_env ::
  "(u64 \<times> bytes) list \<Rightarrow> (u64 \<times> bytes) list \<Rightarrow> bytes \<Rightarrow> u64 \<Rightarrow> u64 \<Rightarrow> u64 \<Rightarrow> u64 \<Rightarrow>
   (string \<Rightarrow> string \<Rightarrow> u64) \<Rightarrow> bpf_env" where
  "cell_env um km cm pt ug t tk off =
     \<lparr>probe_read_user = cell_read um, probe_read_kernel = cell_read km,
      probe_read_user_str = cell_read_str um, probe_read_kernel_str = cell_read_str km,
      own_str = (\<lambda>src d. str_copy (cstr src) d),
      current_comm = (\<lambda>d. (0, snd (str_copy cm d))),
      current_pid_tgid = pt, current_uid_gid = ug, ktime_ns = t, current_task = tk,
      uninit = (\<lambda>n. replicate n 170), core_off = off, cpu = 0\<rparr>"

lemma cell_read_str_result: "0 < length d \<Longrightarrow> str_result d (cell_read_str m a d)"
  by (auto simp: cell_read_str_def str_result_str_copy split: option.split)
    (auto simp: str_result_def)

interpretation cell_env: bpf_helpers "cell_env um km cm pt ug t tk off"
  by unfold_locales
    (simp_all add: cell_env_def cell_read_def cell_read_str_result str_copy_nul split: option.split)

text \<open>
  Least-recently-used and plain hash maps over association lists with a
  capacity. The LRU map makes room by dropping its oldest entry; the plain
  one refuses a new key with \<open>-E2BIG\<close>.
\<close>

definition lru_ops :: "nat \<Rightarrow> ('k, 'v, ('k \<times> 'v) list) map_ops" where
  "lru_ops cap =
     \<lparr>map_lookup_elem = map_of,
      map_update_elem = (\<lambda>m k v f. (0, (k, v) # take (cap - 1) (filter (\<lambda>p. fst p \<noteq> k) m))),
      map_delete_elem = (\<lambda>m k. (if map_of m k = None then -2 else 0, filter (\<lambda>p. fst p \<noteq> k) m))\<rparr>"

definition hash_ops :: "nat \<Rightarrow> ('k, 'v, ('k \<times> 'v) list) map_ops" where
  "hash_ops cap =
     \<lparr>map_lookup_elem = map_of,
      map_update_elem = (\<lambda>m k v f.
        if map_of m k \<noteq> None \<or> length m < cap
        then (0, (k, v) # filter (\<lambda>p. fst p \<noteq> k) m) else (-7, m)),
      map_delete_elem = (\<lambda>m k. (if map_of m k = None then -2 else 0, filter (\<lambda>p. fst p \<noteq> k) m))\<rparr>"

lemma map_of_filter_neq:
  "map_of (filter (\<lambda>p. fst p \<noteq> k) m) k' = (if k' = k then None else map_of m k')"
  by (induction m) auto

lemma map_of_take: "map_of (take n m) k = None \<or> map_of (take n m) k = map_of m k"
proof (induction m arbitrary: n)
  case (Cons p m)
  then show ?case by (cases n) auto
qed simp

interpretation lru: bpf_map "lru_ops cap"
proof
  fix m m' :: "('a \<times> 'b) list" and k k' v
  assume "map_update_elem (lru_ops cap) m k v BPF_ANY = (0, m')" and "k' \<noteq> k"
  then show "map_lookup_elem (lru_ops cap) m' k' = None \<or>
      map_lookup_elem (lru_ops cap) m' k' = map_lookup_elem (lru_ops cap) m k'"
    using map_of_take [of "cap - 1" "filter (\<lambda>p. fst p \<noteq> k) m" k']
    by (auto simp: lru_ops_def map_of_filter_neq)
qed (auto simp: lru_ops_def map_of_filter_neq)

interpretation hash: bpf_map "hash_ops cap"
  by unfold_locales (auto simp: hash_ops_def map_of_filter_neq split: if_splits)

end
