(* ===== verification/Bpf_Endian.thy ===== *)
theory Bpf_Endian
  imports Prelude
begin

text \<open>
  \<open>bpf_endian.h\<close>: byte-order conversion. The constant-folded variants are
  built from \<open>___bpf_mvb\<close> (move byte), the run-time variants from the
  compiler's byte swap; the header picks one with \<open>__builtin_constant_p\<close>.
  The theorems show that both variants agree, that they reverse the byte
  order, and that host-to-network and network-to-host are inverse.
\<close>

datatype byte_order = LITTLE_ENDIAN | BIG_ENDIAN

section \<open>The macros\<close>

text \<open>
  \<open>(__u##b)(x) << (b-(n+1)*8) >> (b-8) << (m*8)\<close>: for 32 and 64 bits every
  shift is in the operand's own type. A \<open>__u16\<close> operand is promoted to
  \<open>int\<close>, so the 16-bit variant shifts 32-bit values and the cast of
  \<open>___bpf_swab16\<close> cuts the result.
\<close>

definition bpf_mvb16 :: "u16 \<Rightarrow> nat \<Rightarrow> nat \<Rightarrow> u32" where
  "bpf_mvb16 x n m =
     push_bit (m * 8) (drop_bit (16 - 8) (push_bit (16 - (n + 1) * 8) (ucast x)))"

definition bpf_mvb32 :: "u32 \<Rightarrow> nat \<Rightarrow> nat \<Rightarrow> u32" where
  "bpf_mvb32 x n m = push_bit (m * 8) (drop_bit (32 - 8) (push_bit (32 - (n + 1) * 8) x))"

definition bpf_mvb64 :: "u64 \<Rightarrow> nat \<Rightarrow> nat \<Rightarrow> u64" where
  "bpf_mvb64 x n m = push_bit (m * 8) (drop_bit (64 - 8) (push_bit (64 - (n + 1) * 8) x))"

definition bpf_swab16 :: "u16 \<Rightarrow> u16" where
  "bpf_swab16 x = ucast (bpf_mvb16 x 0 1 OR bpf_mvb16 x 1 0)"

definition bpf_swab32 :: "u32 \<Rightarrow> u32" where
  "bpf_swab32 x = bpf_mvb32 x 0 3 OR bpf_mvb32 x 1 2 OR bpf_mvb32 x 2 1 OR bpf_mvb32 x 3 0"

definition bpf_swab64 :: "u64 \<Rightarrow> u64" where
  "bpf_swab64 x =
     bpf_mvb64 x 0 7 OR bpf_mvb64 x 1 6 OR bpf_mvb64 x 2 5 OR bpf_mvb64 x 3 4 OR
     bpf_mvb64 x 4 3 OR bpf_mvb64 x 5 2 OR bpf_mvb64 x 6 1 OR bpf_mvb64 x 7 0"

text \<open>The compiler's \<open>__builtin_bswapN\<close>: the bytes of the value in reverse order.\<close>

definition builtin_bswap16 :: "u16 \<Rightarrow> u16" where
  "builtin_bswap16 x = le_word (rev (le_bytes 2 (unat x)))"

definition builtin_bswap32 :: "u32 \<Rightarrow> u32" where
  "builtin_bswap32 x = le_word (rev (le_bytes 4 (unat x)))"

definition builtin_bswap64 :: "u64 \<Rightarrow> u64" where
  "builtin_bswap64 x = le_word (rev (le_bytes 8 (unat x)))"

definition bpf_ntohs :: "byte_order \<Rightarrow> bool \<Rightarrow> u16 \<Rightarrow> u16" where
  "bpf_ntohs bo const x =
     (case bo of LITTLE_ENDIAN \<Rightarrow> if const then bpf_swab16 x else builtin_bswap16 x
      | BIG_ENDIAN \<Rightarrow> x)"

definition bpf_htons :: "byte_order \<Rightarrow> bool \<Rightarrow> u16 \<Rightarrow> u16" where
  "bpf_htons bo const x =
     (case bo of LITTLE_ENDIAN \<Rightarrow> if const then bpf_swab16 x else builtin_bswap16 x
      | BIG_ENDIAN \<Rightarrow> x)"

definition bpf_ntohl :: "byte_order \<Rightarrow> bool \<Rightarrow> u32 \<Rightarrow> u32" where
  "bpf_ntohl bo const x =
     (case bo of LITTLE_ENDIAN \<Rightarrow> if const then bpf_swab32 x else builtin_bswap32 x
      | BIG_ENDIAN \<Rightarrow> x)"

definition bpf_htonl :: "byte_order \<Rightarrow> bool \<Rightarrow> u32 \<Rightarrow> u32" where
  "bpf_htonl bo const x =
     (case bo of LITTLE_ENDIAN \<Rightarrow> if const then bpf_swab32 x else builtin_bswap32 x
      | BIG_ENDIAN \<Rightarrow> x)"

definition bpf_be64_to_cpu :: "byte_order \<Rightarrow> bool \<Rightarrow> u64 \<Rightarrow> u64" where
  "bpf_be64_to_cpu bo const x =
     (case bo of LITTLE_ENDIAN \<Rightarrow> if const then bpf_swab64 x else builtin_bswap64 x
      | BIG_ENDIAN \<Rightarrow> x)"

definition bpf_cpu_to_be64 :: "byte_order \<Rightarrow> bool \<Rightarrow> u64 \<Rightarrow> u64" where
  "bpf_cpu_to_be64 bo const x =
     (case bo of LITTLE_ENDIAN \<Rightarrow> if const then bpf_swab64 x else builtin_bswap64 x
      | BIG_ENDIAN \<Rightarrow> x)"

section \<open>Byte \<open>n\<close> of a word\<close>

lemma bit_bpf_mvb32:
  "n < 4 \<Longrightarrow> m < 4 \<Longrightarrow>
     bit (bpf_mvb32 x n m) i \<longleftrightarrow> 8 * m \<le> i \<and> i < 8 * m + 8 \<and> bit x (i - 8 * m + 8 * n)"
  by (auto simp: bpf_mvb32_def bit_simps ac_simps)

lemma bit_bpf_mvb64:
  "n < 8 \<Longrightarrow> m < 8 \<Longrightarrow>
     bit (bpf_mvb64 x n m) i \<longleftrightarrow> 8 * m \<le> i \<and> i < 8 * m + 8 \<and> bit x (i - 8 * m + 8 * n)"
  by (auto simp: bpf_mvb64_def bit_simps ac_simps)

text \<open>The low 16 bits of the promoted \<open>int\<close>, all that the cast keeps.\<close>

lemma bit_bpf_swab16:
  "i < 16 \<Longrightarrow> bit (bpf_swab16 x) i \<longleftrightarrow> (if i < 8 then bit x (i + 8) else bit x (i - 8))"
  by (auto simp: bpf_swab16_def bpf_mvb16_def bit_simps ac_simps dest: bit_imp_le_length)

lemma bit_rev_bytes:
  assumes "LENGTH('w::len) = 8 * w" and "i < LENGTH('w)"
  shows "bit (le_word (rev (le_bytes w n)) :: 'w word) i \<longleftrightarrow> bit n (8 * (w - 1 - i div 8) + i mod 8)"
proof -
  have k: "i div 8 < w" using assms by auto
  then have "rev (le_bytes w n) ! (i div 8) = le_bytes w n ! (w - 1 - i div 8)"
    by (simp add: rev_nth)
  then show ?thesis
    using assms k by (simp add: bit_le_word bit_le_bytes_nth)
qed

lemma bit_bpf_swab32:
  assumes "i < 32"
  shows "bit (bpf_swab32 x) i \<longleftrightarrow> bit x (8 * (3 - i div 8) + i mod 8)"
proof -
  consider "i < 8" | "8 \<le> i" "i < 16" | "16 \<le> i" "i < 24" | "24 \<le> i" using assms by linarith
  then show ?thesis
    using assms by cases (simp_all add: bpf_swab32_def bit_or_iff bit_bpf_mvb32 le_div_geq le_mod_geq ac_simps)
qed

lemma bit_bpf_swab64:
  assumes "i < 64"
  shows "bit (bpf_swab64 x) i \<longleftrightarrow> bit x (8 * (7 - i div 8) + i mod 8)"
proof -
  consider "i < 8" | "8 \<le> i" "i < 16" | "16 \<le> i" "i < 24" | "24 \<le> i" "i < 32"
    | "32 \<le> i" "i < 40" | "40 \<le> i" "i < 48" | "48 \<le> i" "i < 56" | "56 \<le> i" using assms by linarith
  then show ?thesis
    using assms by cases (simp_all add: bpf_swab64_def bit_or_iff bit_bpf_mvb64 le_div_geq le_mod_geq ac_simps)
qed

section \<open>Both variants reverse the bytes\<close>

lemma bpf_swab16_bswap: "bpf_swab16 x = builtin_bswap16 x"
proof (rule bit_word_eqI)
  fix i assume "i < LENGTH(16)"
  then show "bit (bpf_swab16 x) i = bit (builtin_bswap16 x) i"
    using bit_rev_bytes [where 'w = 16 and w = 2 and i = i and n = "unat x"]
    by (auto simp: bit_bpf_swab16 builtin_bswap16_def bit_simps le_div_geq le_mod_geq ac_simps)
qed

lemma bpf_swab32_bswap: "bpf_swab32 x = builtin_bswap32 x"
proof (rule bit_word_eqI)
  fix i assume "i < LENGTH(32)"
  then show "bit (bpf_swab32 x) i = bit (builtin_bswap32 x) i"
    using bit_rev_bytes [where 'w = 32 and w = 4 and i = i and n = "unat x"]
    by (simp add: bit_bpf_swab32 builtin_bswap32_def bit_simps)
qed

lemma bpf_swab64_bswap: "bpf_swab64 x = builtin_bswap64 x"
proof (rule bit_word_eqI)
  fix i assume "i < LENGTH(64)"
  then show "bit (bpf_swab64 x) i = bit (builtin_bswap64 x) i"
    using bit_rev_bytes [where 'w = 64 and w = 8 and i = i and n = "unat x"]
    by (simp add: bit_bpf_swab64 builtin_bswap64_def bit_simps)
qed

lemma rev_bytes_involution:
  assumes "LENGTH('w::len) = 8 * w"
  shows "le_word (rev (le_bytes w (unat (le_word (rev (le_bytes w (unat x))) :: 'w word)))) = (x :: 'w word)"
proof -
  let ?bs = "rev (le_bytes w (unat x))"
  have p: "(256 :: nat) ^ w = 2 ^ LENGTH('w)" by (simp add: assms power_mult)
  have "le_nat ?bs < 2 ^ LENGTH('w)" using le_nat_bound [of ?bs] by (simp add: p)
  then have "unat (le_word ?bs :: 'w word) = le_nat ?bs"
    by (simp add: le_word_def unat_of_nat)
  then have "le_bytes w (unat (le_word ?bs :: 'w word)) = ?bs"
    using le_bytes_le_nat [of ?bs] by simp
  moreover have "le_word (le_bytes w (unat x)) = x"
    using unat_bound [of x] by (simp add: le_word_def le_nat_le_bytes p)
  ultimately show ?thesis by simp
qed

lemma bswap16_involution: "builtin_bswap16 (builtin_bswap16 x) = x"
  unfolding builtin_bswap16_def by (rule rev_bytes_involution) simp

lemma bswap32_involution: "builtin_bswap32 (builtin_bswap32 x) = x"
  unfolding builtin_bswap32_def by (rule rev_bytes_involution) simp

lemma bswap64_involution: "builtin_bswap64 (builtin_bswap64 x) = x"
  unfolding builtin_bswap64_def by (rule rev_bytes_involution) simp

lemmas swab_simps =
  bpf_swab16_bswap bpf_swab32_bswap bpf_swab64_bswap
  bswap16_involution bswap32_involution bswap64_involution

text \<open>
  For every byte order, and whichever of the constant-folded and the
  run-time variant the compiler picks on either side, network-to-host undoes
  host-to-network for 16, 32 and 64 bits.
\<close>

lemma byte_order_round_trip:
  "bpf_ntohs bo c (bpf_htons bo c' x) = x \<and> bpf_ntohl bo c (bpf_htonl bo c' y) = y \<and>
   bpf_be64_to_cpu bo c (bpf_cpu_to_be64 bo c' z) = z"
  by (simp add: bpf_ntohs_def bpf_htons_def bpf_ntohl_def bpf_htonl_def bpf_be64_to_cpu_def
      bpf_cpu_to_be64_def swab_simps split: byte_order.split)

text \<open>
  A port as it lies in memory, high byte first, becomes its number: what
  \<open>bpf_ntohs\<close> is used for on a \<open>sin_port\<close>.
\<close>

lemma bpf_ntohs_network_bytes:
  "bpf_ntohs LITTLE_ENDIAN c (le_word [hi, lo]) = word_of_nat (256 * unat hi + unat lo)"
proof -
  have "le_nat [hi, lo] < 2 ^ 16" using le_nat_bound [of "[hi, lo]"] by simp
  then have "unat (le_word [hi, lo] :: u16) = le_nat [hi, lo]"
    by (simp add: le_word_def unat_of_nat del: le_nat.simps)
  moreover have "le_bytes 2 (le_nat [hi, lo]) = [hi, lo]"
    using le_bytes_le_nat [of "[hi, lo]"] by (simp add: numeral_2_eq_2 del: le_nat.simps le_bytes.simps)
  ultimately have "builtin_bswap16 (le_word [hi, lo]) = le_word [lo, hi]"
    by (simp add: builtin_bswap16_def del: le_nat.simps le_bytes.simps)
  then show ?thesis by (simp add: bpf_ntohs_def swab_simps le_word_def add.commute)
qed

end
