(* ===== verification/Bpf_Core_Read.thy ===== *)
theory Bpf_Core_Read
  imports Bpf_Env Bpf_Endian
begin

text \<open>
  \<open>bpf_core_read.h\<close>: relocatable reads of kernel memory. \<open>BPF_CORE_READ\<close>
  chases a chain of pointers, one \<open>bpf_probe_read_kernel\<close> per accessor; the
  bitfield macros load the storage unit of a bitfield and shift its value in
  or out. The theorems show that a chain is the composition of its reads, that
  \<open>container_of\<close> inverts taking a member's address, and that the shifts
  extract and replace exactly the bits of the field.
\<close>

section \<open>Pointer chasing\<close>

text \<open>An accessor names a structure and a field path in it.\<close>

type_synonym accessor = "string \<times> string"

text \<open>\<open>bpf_core_read\<close>: read at the relocated address of the accessed field.\<close>

definition bpf_core_read :: "'a bpf_env_scheme \<Rightarrow> bytes \<Rightarrow> u64 \<Rightarrow> accessor \<Rightarrow> int \<times> bytes" where
  "bpf_core_read env dst src acc =
     probe_read_kernel env (src + core_off env (fst acc) (snd acc)) dst"

text \<open>
  \<open>___read_ptrs\<close> reads every accessor but the last into the pointer \<open>__t\<close>;
  \<open>t\<close> holds what \<open>__t\<close> held before, for a read that fails.
\<close>

fun read_ptrs :: "'a bpf_env_scheme \<Rightarrow> bytes \<Rightarrow> u64 \<Rightarrow> accessor list \<Rightarrow> bytes" where
  "read_ptrs env t src [] = t"
| "read_ptrs env t src [a] = snd (bpf_core_read env t src a)"
| "read_ptrs env t src (a # b # as) =
     (let t' = snd (bpf_core_read env t src a) in read_ptrs env t' (le_word t') (b # as))"

text \<open>\<open>___core_read\<close>: one accessor is read directly, a longer chain through \<open>__t\<close>.\<close>

definition BPF_CORE_READ_INTO ::
  "'a bpf_env_scheme \<Rightarrow> bytes \<Rightarrow> u64 \<Rightarrow> accessor list \<Rightarrow> int \<times> bytes" where
  "BPF_CORE_READ_INTO env dst src as =
     (case as of [] \<Rightarrow> (0, dst)
      | [a] \<Rightarrow> bpf_core_read env dst src a
      | _ \<Rightarrow> bpf_core_read env dst (le_word (read_ptrs env (uninit env 8) src (butlast as))) (last as))"

definition BPF_CORE_READ :: "'a bpf_env_scheme \<Rightarrow> nat \<Rightarrow> u64 \<Rightarrow> accessor list \<Rightarrow> bytes" where
  "BPF_CORE_READ env sz src as = snd (BPF_CORE_READ_INTO env (uninit env sz) src as)"

text \<open>A pointer or \<open>unsigned long\<close>, and a 32-bit field.\<close>

abbreviation core_ptr :: "'a bpf_env_scheme \<Rightarrow> u64 \<Rightarrow> accessor list \<Rightarrow> u64" where
  "core_ptr env src as \<equiv> le_word (BPF_CORE_READ env 8 src as)"

abbreviation core_u32 :: "'a bpf_env_scheme \<Rightarrow> u64 \<Rightarrow> accessor list \<Rightarrow> u32" where
  "core_u32 env src as \<equiv> le_word (BPF_CORE_READ env 4 src as)"

definition bpf_core_field_offset :: "'a bpf_env_scheme \<Rightarrow> string \<Rightarrow> string \<Rightarrow> u64" where
  "bpf_core_field_offset env ty fld = core_off env ty fld"

text \<open>The \<open>container_of\<close> both path-walking programs define over that offset.\<close>

definition container_of :: "'a bpf_env_scheme \<Rightarrow> u64 \<Rightarrow> string \<Rightarrow> string \<Rightarrow> u64" where
  "container_of env ptr ty member = ptr - bpf_core_field_offset env ty member"

lemma container_of_field [simp]:
  "container_of env (p + bpf_core_field_offset env ty m) ty m = p"
  by (simp add: container_of_def)

section \<open>Bitfields\<close>

text \<open>What \<open>__builtin_preserve_field_info\<close> reports about a field.\<close>

record field_info =
  byte_offset :: u64
  byte_size :: nat
  is_signed :: bool
  lshift_u64 :: nat
  rshift_u64 :: nat

definition bitfield_value :: "field_info \<Rightarrow> u64 \<Rightarrow> u64" where
  "bitfield_value fi val =
     (let val = push_bit (lshift_u64 fi) val in
      if is_signed fi then signed_drop_bit (rshift_u64 fi) val
      else drop_bit (rshift_u64 fi) val)"

definition BPF_CORE_READ_BITFIELD_PROBED :: "'a bpf_env_scheme \<Rightarrow> byte_order \<Rightarrow> u64 \<Rightarrow> field_info \<Rightarrow> u64" where
  "BPF_CORE_READ_BITFIELD_PROBED env bo s fi =
     (let n = byte_size fi;
          got = snd (probe_read_kernel env (s + byte_offset fi) (replicate n 0));
          val = (case bo of LITTLE_ENDIAN \<Rightarrow> le_word (got @ replicate (8 - n) 0)
                 | BIG_ENDIAN \<Rightarrow> le_word (rev (replicate (8 - n) 0 @ got)))
      in bitfield_value fi val)"

text \<open>Direct loads and stores of the storage unit, on the bytes at the field's address.\<close>

definition load_unit :: "nat \<Rightarrow> bytes \<Rightarrow> u64" where
  "load_unit n m = (if n \<in> {1, 2, 4, 8} then le_word (take n m) else 0)"

definition store_unit :: "nat \<Rightarrow> bytes \<Rightarrow> u64 \<Rightarrow> bytes" where
  "store_unit n m v = (if n \<in> {1, 2, 4, 8} then blit 0 m (le_bytes n (unat v)) else m)"

definition BPF_CORE_READ_BITFIELD :: "bytes \<Rightarrow> field_info \<Rightarrow> u64" where
  "BPF_CORE_READ_BITFIELD m fi = bitfield_value fi (load_unit (byte_size fi) m)"

definition BPF_CORE_WRITE_BITFIELD :: "bytes \<Rightarrow> field_info \<Rightarrow> u64 \<Rightarrow> bytes" where
  "BPF_CORE_WRITE_BITFIELD m fi nval =
     (let rpad = rshift_u64 fi - lshift_u64 fi;
          val = load_unit (byte_size fi) m;
          mask = drop_bit (lshift_u64 fi) (push_bit (rshift_u64 fi) (- 1));
          val = (val AND NOT mask) OR (push_bit rpad nval AND mask)
      in store_unit (byte_size fi) m val)"

text \<open>
  The relocation values of a field of \<open>w\<close> bits from bit \<open>off\<close> on, in a
  storage unit of \<open>n\<close> bytes.
\<close>

definition field_relo :: "nat \<Rightarrow> nat \<Rightarrow> nat \<Rightarrow> bool \<Rightarrow> u64 \<Rightarrow> field_info" where
  "field_relo n off w sg bo =
     \<lparr>byte_offset = bo, byte_size = n, is_signed = sg, lshift_u64 = 64 - (off + w), rshift_u64 = 64 - w\<rparr>"

lemma byte_size_field_relo [simp]: "byte_size (field_relo n off w sg bo) = n"
  by (simp add: field_relo_def)

definition field_ok :: "nat \<Rightarrow> nat \<Rightarrow> nat \<Rightarrow> bool" where
  "field_ok n off w \<longleftrightarrow> n \<in> {1, 2, 4, 8} \<and> 0 < w \<and> off + w \<le> 8 * n"

lemma bitfield_value_unsigned:
  assumes "0 < w" "off + w \<le> 64"
  shows "bitfield_value (field_relo n off w False bo) v = take_bit w (drop_bit off v)"
proof (rule bit_word_eqI)
  fix i :: nat
  assume "i < LENGTH(64)"
  have e: "(i + (64 - w)) - (64 - (off + w)) = i + off" using assms by simp
  have "i + off < 64 \<longleftrightarrow> i + (64 - w) < 64 + (64 - (off + w)) " using assms by linarith
  show "bit (bitfield_value (field_relo n off w False bo) v) i = bit (take_bit w (drop_bit off v)) i"
    using assms e by (auto simp: bitfield_value_def field_relo_def bit_simps ac_simps dest: bit_imp_le_length)
qed

lemma bitfield_value_signed:
  assumes "0 < w" "off + w \<le> 64"
  shows "bitfield_value (field_relo n off w True bo) v = signed_take_bit (w - 1) (drop_bit off v)"
proof (rule bit_word_eqI)
  fix i :: nat
  assume i: "i < LENGTH(64)"
  have top: "63 - (64 - (off + w)) = off + (w - 1)" "(63 :: nat) \<ge> 64 - (off + w)" using assms by auto
  have e: "(i + (64 - w)) - (64 - (off + w)) = i + off" using assms by simp
  show "bit (bitfield_value (field_relo n off w True bo) v) i = bit (signed_take_bit (w - 1) (drop_bit off v)) i"
  proof (cases "i < w")
    case True
    then have m: "min i (w - 1) = i" and "i + (64 - w) < 64" using assms by auto
    moreover have "64 - (off + w) \<le> i + 64 - w" using assms by arith
    ultimately show ?thesis
      using True assms e by (simp add: bitfield_value_def field_relo_def bit_simps ac_simps)
  next
    case False
    then have "min i (w - 1) = w - 1" "\<not> i + (64 - w) < 64" using assms by auto
    then show ?thesis
      using i top assms by (simp add: bitfield_value_def field_relo_def bit_simps ac_simps)
  qed
qed

lemma field_okD: "field_ok n off w \<Longrightarrow> 0 < w \<and> off + w \<le> 64 \<and> off + w \<le> 8 * n \<and> n \<in> {1, 2, 4, 8}"
  by (auto simp: field_ok_def)

lemma bit_load_unit:
  "n \<in> {1, 2, 4, 8} \<Longrightarrow> n \<le> length m \<Longrightarrow>
     bit (load_unit n m) i \<longleftrightarrow> i < 8 * n \<and> bit (m ! (i div 8)) (i mod 8)"
  by (auto simp: load_unit_def bit_le_word)

lemma load_store_unit:
  assumes "n \<in> {1, 2, 4, 8}" "n \<le> length m"
  shows "load_unit n (store_unit n m v) = take_bit (8 * n) v"
proof -
  have "le_nat (le_bytes n (unat v)) = take_bit (8 * n) (unat v)"
    by (simp add: le_nat_le_bytes take_bit_eq_mod power_mult)
  moreover have "word_of_nat (take_bit (8 * n) (unat v)) = take_bit (8 * n) v"
    by (simp flip: unsigned_take_bit_eq)
  ultimately show ?thesis
    using assms by (simp add: load_unit_def store_unit_def blit_0 le_word_def)
qed

definition field_mask :: "nat \<Rightarrow> nat \<Rightarrow> u64" where
  "field_mask off w = push_bit off (mask w)"

lemma write_mask:
  assumes "0 < w" "off + w \<le> 64"
  shows "drop_bit (64 - (off + w)) (push_bit (64 - w) (- 1)) = field_mask off w"
proof (rule bit_word_eqI)
  fix i :: nat assume "i < LENGTH(64)"
  then show "bit (drop_bit (64 - (off + w)) (push_bit (64 - w) (- 1 :: u64))) i = bit (field_mask off w) i"
    using assms by (auto simp: field_mask_def bit_simps)
qed

text \<open>What a bitfield write leaves in the storage unit.\<close>

lemma write_bitfield_unit:
  assumes "field_ok n off w" "n \<le> length m"
  shows "load_unit n (BPF_CORE_WRITE_BITFIELD m (field_relo n off w sg bo) v) =
     (load_unit n m AND NOT (field_mask off w)) OR (push_bit off v AND field_mask off w)"
    (is "?l = ?r")
proof -
  note ok = field_okD [OF assms(1)]
  have pad: "64 - w - (64 - (off + w)) = off" using ok by simp
  have "?l = take_bit (8 * n) ?r"
    using ok assms(2) write_mask [of w off] pad
    by (simp add: BPF_CORE_WRITE_BITFIELD_def field_relo_def Let_def load_store_unit)
  also have "\<dots> = ?r"
  proof (rule bit_word_eqI)
    fix i :: nat assume "i < LENGTH(64)"
    then show "bit (take_bit (8 * n) ?r) i = bit ?r i"
      using ok bit_load_unit [of n m i] assms(2) by (auto simp: bit_simps field_mask_def)
  qed
  finally show ?thesis .
qed

text \<open>
  C40: Reading an unsigned bitfield after writing it returns the value
  written, cut to the field's width, and the write changes no bit of the
  storage unit outside the field.
\<close>

theorem bitfield_write_read:
  assumes "field_ok n off w" and "n \<le> length m"
  shows "BPF_CORE_READ_BITFIELD (BPF_CORE_WRITE_BITFIELD m (field_relo n off w sg bo) v)
           (field_relo n off w False bo) = take_bit w v
       \<and> (\<forall>i. i < off \<or> off + w \<le> i \<longrightarrow>
            bit (load_unit n (BPF_CORE_WRITE_BITFIELD m (field_relo n off w sg bo) v)) i
              = bit (load_unit n m) i)"
proof (intro conjI allI impI)
  note ok = field_okD [OF assms(1)]
  let ?u = "load_unit n (BPF_CORE_WRITE_BITFIELD m (field_relo n off w sg bo) v)"
  have "take_bit w (drop_bit off ?u) = take_bit w v"
    by (rule bit_word_eqI)
      (use ok in \<open>auto simp: write_bitfield_unit [OF assms] bit_simps field_mask_def ac_simps\<close>)
  then show "BPF_CORE_READ_BITFIELD (BPF_CORE_WRITE_BITFIELD m (field_relo n off w sg bo) v)
           (field_relo n off w False bo) = take_bit w v"
    using ok by (simp add: BPF_CORE_READ_BITFIELD_def bitfield_value_unsigned)
  fix i assume "i < off \<or> off + w \<le> i"
  then show "bit ?u i = bit (load_unit n m) i"
    by (auto simp: write_bitfield_unit [OF assms] bit_simps field_mask_def dest: bit_imp_le_length)
qed

theorem bitfield_write_read_witness:
  "BPF_CORE_READ_BITFIELD (BPF_CORE_WRITE_BITFIELD [255, 7] (field_relo 1 3 4 False 0) 21)
     (field_relo 1 3 4 False 0) = 5"
proof -
  have "field_ok 1 3 4" by (simp add: field_ok_def)
  from bitfield_write_read [OF this, of "[255, 7]" False 0 21] show ?thesis by simp
qed

text \<open>
  Both read macros return the field's bits, zero-extended for an
  unsigned and sign-extended for a signed field: the probing macro wherever
  the storage unit is readable, the direct macro on the loaded unit.
\<close>

lemma bitfield_read_value:
  assumes "field_ok n off w" and "n \<le> length m" and "holds_kernel env (s + bo) (take n m)"
  shows "BPF_CORE_READ_BITFIELD_PROBED env LITTLE_ENDIAN s (field_relo n off w sg bo)
           = BPF_CORE_READ_BITFIELD m (field_relo n off w sg bo)
       \<and> BPF_CORE_READ_BITFIELD m (field_relo n off w sg bo) =
           (if sg then signed_take_bit (w - 1) (drop_bit off (load_unit n m))
            else take_bit w (drop_bit off (load_unit n m)))"
proof
  note ok = field_okD [OF assms(1)]
  have zeros: "le_nat (replicate k 0) = 0" for k by (induction k) auto
  have app: "le_nat (xs @ replicate k 0) = le_nat xs" for xs k
    by (induction xs) (auto simp: zeros)
  have "probe_read_kernel env (s + bo) (replicate n 0) = (0, take n m)"
    using assms(2,3) by (simp add: holds_kernel_def)
  then show "BPF_CORE_READ_BITFIELD_PROBED env LITTLE_ENDIAN s (field_relo n off w sg bo)
           = BPF_CORE_READ_BITFIELD m (field_relo n off w sg bo)"
    using ok by (auto simp: BPF_CORE_READ_BITFIELD_PROBED_def BPF_CORE_READ_BITFIELD_def
        field_relo_def Let_def load_unit_def le_word_def app)
  show "BPF_CORE_READ_BITFIELD m (field_relo n off w sg bo) =
           (if sg then signed_take_bit (w - 1) (drop_bit off (load_unit n m))
            else take_bit w (drop_bit off (load_unit n m)))"
    using ok by (simp add: BPF_CORE_READ_BITFIELD_def bitfield_value_unsigned bitfield_value_signed)
qed

lemma holds_kernel_mem:
  assumes "\<forall>i < length bs. km (a + word_of_nat i) = Some (bs ! i)"
  shows "holds_kernel (mem_env um km cm pt ug t tk off) a bs"
proof -
  have "map (\<lambda>i. km (a + word_of_nat i)) [0..<k] = map Some (take k bs)" if "k \<le> length bs" for k
    using assms that by (intro nth_equalityI) auto
  then show ?thesis by (auto simp: holds_kernel_def mem_env_def mem_read_def Let_def o_def)
qed

lemma bitfield_read_value_witness:
  "BPF_CORE_READ_BITFIELD_PROBED (mem_env Map.empty (mem_of [(64, [200])]) [] 0 0 0 0 (\<lambda>_ _. 0))
     LITTLE_ENDIAN 60 (field_relo 1 4 4 True 4) = - 4"
proof -
  have "holds_kernel (mem_env Map.empty (mem_of [(64, [200])]) [] 0 0 0 0 (\<lambda>_ _. 0)) (60 + 4) (take 1 [200])"
    by (rule holds_kernel_mem) (simp add: mem_of_def)
  from bitfield_read_value [OF _ _ this, of 4 4 True] show ?thesis
    by (simp add: field_ok_def load_unit_def le_word_def)
qed

end
