(* ===== verification/Path_Walk.thy ===== *)
theory Path_Walk
  imports Bpf_Core_Read
begin

text \<open>
  The two-loop path builder that \<open>linsensor.bpf.c\<close> and \<open>prevent.bpf.c\<close> share:
  the first loop climbs from a directory entry to the root of the mount
  namespace, crossing mount points, and collects name pointers; the second
  writes the names backwards into a scratch buffer. The specification is the
  inductive relation \<open>vfs_climb\<close> and the predicate \<open>vfs_path\<close> over it: the
  components of a path as the kernel's own structures define them, those of
  disconnected entries included. The theorems show that the buffer ends up
  holding exactly that path, for every chain the loop bound covers.
\<close>

definition MAX_DEPTH :: nat where "MAX_DEPTH = 16"
definition NAME_CAP :: u32 where "NAME_CAP = 127"
definition DIR_BUF :: u32 where "DIR_BUF = 2048"
definition PATH_LEN :: nat where "PATH_LEN = 256"

lemmas path_consts [simp] = MAX_DEPTH_def NAME_CAP_def DIR_BUF_def PATH_LEN_def

record path_parts =
  pp_name :: "u64 list"
  pp_len :: "u32 list"
  pp_buf :: bytes

definition parts_ok :: "'p path_parts_scheme \<Rightarrow> bool" where
  "parts_ok pp \<longleftrightarrow> length (pp_name pp) = MAX_DEPTH \<and> length (pp_len pp) = MAX_DEPTH \<and>
     length (pp_buf pp) = unat DIR_BUF * 2"

section \<open>Kernel structures the walk reads\<close>

abbreviation mnt_root :: "'a bpf_env_scheme \<Rightarrow> u64 \<Rightarrow> u64" where
  "mnt_root env vm \<equiv> core_ptr env vm [(''vfsmount'', ''mnt_root'')]"

abbreviation mnt_parent :: "'a bpf_env_scheme \<Rightarrow> u64 \<Rightarrow> u64" where
  "mnt_parent env mnt \<equiv> core_ptr env mnt [(''mount'', ''mnt_parent'')]"

abbreviation mnt_mountpoint :: "'a bpf_env_scheme \<Rightarrow> u64 \<Rightarrow> u64" where
  "mnt_mountpoint env mnt \<equiv> core_ptr env mnt [(''mount'', ''mnt_mountpoint'')]"

abbreviation d_parent :: "'a bpf_env_scheme \<Rightarrow> u64 \<Rightarrow> u64" where
  "d_parent env d \<equiv> core_ptr env d [(''dentry'', ''d_parent'')]"

text \<open>\<open>struct qstr\<close>: hash and length in the first eight bytes, then the name pointer.\<close>

record qstr =
  q_len :: u32
  q_name :: u64

definition d_name :: "'a bpf_env_scheme \<Rightarrow> u64 \<Rightarrow> qstr" where
  "d_name env d =
     (let b = BPF_CORE_READ env 16 d [(''dentry'', ''d_name'')]
      in \<lparr>q_len = le_word (take 4 (drop 4 b)), q_name = le_word (take 8 (drop 8 b))\<rparr>)"

text \<open>The \<open>vfsmount\<close> embedded in a \<open>struct mount\<close>, and back.\<close>

abbreviation vfsmount_of :: "'a bpf_env_scheme \<Rightarrow> u64 \<Rightarrow> u64" where
  "vfsmount_of env mnt \<equiv> mnt + bpf_core_field_offset env ''mount'' ''mnt''"

abbreviation mount_of :: "'a bpf_env_scheme \<Rightarrow> u64 \<Rightarrow> u64" where
  "mount_of env vm \<equiv> container_of env vm ''mount'' ''mnt''"

section \<open>The two loops\<close>

text \<open>One round of the first loop; the tuple holds the locals \<open>d\<close>, \<open>mnt\<close>, \<open>vm\<close>, \<open>done\<close>.\<close>

definition walk_step ::
  "'a bpf_env_scheme \<Rightarrow> nat \<Rightarrow> 'p path_parts_scheme \<times> u64 \<times> u64 \<times> u64 \<times> bool
   \<Rightarrow> 'p path_parts_scheme \<times> u64 \<times> u64 \<times> u64 \<times> bool" where
  "walk_step env i = (\<lambda>(pp, d, mnt, vm, done).
     let pp = pp\<lparr>pp_name := (pp_name pp)[i := 0], pp_len := (pp_len pp)[i := 0]\<rparr> in
     if done then (pp, d, mnt, vm, done)
     else
       let root = mnt_root env vm; parent = d_parent env d in
       if d = root then
         let mp = mnt_parent env mnt in
         if mp = mnt then (pp, d, mnt, vm, True)
         else (pp, mnt_mountpoint env mnt, mp, vfsmount_of env mp, False)
       else
         let q = d_name env d in
         if d = parent then
           if i = 0
           then (pp\<lparr>pp_name := (pp_name pp)[0 := q_name q], pp_len := (pp_len pp)[0 := q_len q]\<rparr>,
                 d, mnt, vm, True)
           else (pp, d, mnt, vm, True)
         else
           (pp\<lparr>pp_name := (pp_name pp)[i := q_name q], pp_len := (pp_len pp)[i := q_len q]\<rparr>,
            parent, mnt, vm, False))"

definition collect_names ::
  "'a bpf_env_scheme \<Rightarrow> 'p path_parts_scheme \<Rightarrow> u64 \<Rightarrow> u64 \<Rightarrow> 'p path_parts_scheme" where
  "collect_names env pp d vm =
     fst (fold (walk_step env) [0..<MAX_DEPTH] (pp, d, mount_of env vm, vm, False))"

text \<open>One round of the second loop: write a name and a slash before \<open>pos\<close>.\<close>

definition emit_step ::
  "'a bpf_env_scheme \<Rightarrow> nat \<Rightarrow> 'p path_parts_scheme \<times> u32 \<Rightarrow> 'p path_parts_scheme \<times> u32" where
  "emit_step env i = (\<lambda>(pp, pos).
     let len = pp_len pp ! i;
         len = (if NAME_CAP < len then NAME_CAP else len);
         has = drop_bit 7 (len + NAME_CAP);
         pos = pos - len;
         at = unat (pos AND (DIR_BUF - 1));
         got = snd (probe_read_kernel env (pp_name pp ! i)
                 (take (unat (len AND NAME_CAP)) (drop at (pp_buf pp))));
         b = blit at (pp_buf pp) got;
         b = b[unat ((pos - 1) AND (DIR_BUF - 1)) := chr CHR ''/'']
     in (pp\<lparr>pp_buf := b\<rparr>, pos - has))"

definition emit_names ::
  "'a bpf_env_scheme \<Rightarrow> 'p path_parts_scheme \<Rightarrow> 'p path_parts_scheme \<times> u32" where
  "emit_names env pp =
     fold (emit_step env) [0..<MAX_DEPTH]
       (pp\<lparr>pp_buf := (pp_buf pp)[unat DIR_BUF := 0]\<rparr>, DIR_BUF)"

section \<open>The first loop collects the chain\<close>

text \<open>The slots the first loop fills, as a recursion over the chain.\<close>

fun walk_slots ::
  "'a bpf_env_scheme \<Rightarrow> bool \<Rightarrow> nat \<Rightarrow> u64 \<Rightarrow> u64 \<Rightarrow> u64 \<Rightarrow> (u64 \<times> u32) list" where
  "walk_slots env first 0 d mnt vm = []"
| "walk_slots env first (Suc n) d mnt vm =
     (if d = mnt_root env vm then
        if mnt_parent env mnt = mnt then replicate (Suc n) (0, 0)
        else (0, 0) # walk_slots env False n (mnt_mountpoint env mnt) (mnt_parent env mnt)
                        (vfsmount_of env (mnt_parent env mnt))
      else if d = d_parent env d then
        (if first then (q_name (d_name env d), q_len (d_name env d)) else (0, 0)) # replicate n (0, 0)
      else (q_name (d_name env d), q_len (d_name env d))
             # walk_slots env False n (d_parent env d) mnt vm)"

lemma length_walk_slots [simp]: "length (walk_slots env f n d mnt vm) = n"
  by (induction env f n d mnt vm rule: walk_slots.induct) auto

lemma walk_done:
  "i + n = MAX_DEPTH \<Longrightarrow> parts_ok pp \<Longrightarrow>
     fst (fold (walk_step env) [i..<MAX_DEPTH] (pp, d, mnt, vm, True)) =
       pp\<lparr>pp_name := take i (pp_name pp) @ replicate n 0, pp_len := take i (pp_len pp) @ replicate n 0\<rparr>"
proof (induction n arbitrary: i pp)
  case 0
  then show ?case by (simp add: parts_ok_def)
next
  case (Suc n)
  then have "[i..<MAX_DEPTH] = i # [Suc i..<MAX_DEPTH]" by (simp add: upt_conv_Cons)
  then show ?case
    using Suc.prems Suc.IH [of "Suc i" "pp\<lparr>pp_name := (pp_name pp)[i := 0], pp_len := (pp_len pp)[i := 0]\<rparr>"]
    by (simp add: walk_step_def parts_ok_def take_Suc_conv_app_nth replicate_append_same)
qed

text \<open>Storing a list of slots from index \<open>i\<close> on.\<close>

definition put_slots :: "nat \<Rightarrow> (u64 \<times> u32) list \<Rightarrow> 'p path_parts_scheme \<Rightarrow> 'p path_parts_scheme" where
  "put_slots i ss pp =
     pp\<lparr>pp_name := take i (pp_name pp) @ map fst ss, pp_len := take i (pp_len pp) @ map snd ss\<rparr>"

lemma put_slots_Cons:
  assumes "parts_ok pp" and "i < MAX_DEPTH"
  shows "put_slots (Suc i) ss (pp\<lparr>pp_name := (pp_name pp)[i := a], pp_len := (pp_len pp)[i := b]\<rparr>)
     = put_slots i ((a, b) # ss) pp"
  using assms by (simp add: put_slots_def parts_ok_def take_Suc_conv_app_nth)

lemma walk_fold:
  assumes "i + n = MAX_DEPTH" and "parts_ok pp"
  shows "fst (fold (walk_step env) [i..<MAX_DEPTH] (pp, d, mnt, vm, False)) =
    put_slots i (walk_slots env (i = 0) n d mnt vm) pp"
  using assms
proof (induction n arbitrary: i pp d mnt vm)
  case 0
  then show ?case by (simp add: put_slots_def parts_ok_def)
next
  case (Suc n)
  let ?pp = "\<lambda>a b. pp\<lparr>pp_name := (pp_name pp)[i := a], pp_len := (pp_len pp)[i := b]\<rparr>"
  have upt: "[i..<MAX_DEPTH] = i # [Suc i..<MAX_DEPTH]" using Suc.prems by (simp add: upt_conv_Cons)
  have ok: "parts_ok (?pp a b)" for a b using Suc.prems by (simp add: parts_ok_def)
  have i: "i < MAX_DEPTH" "Suc i + n = MAX_DEPTH" using Suc.prems by auto
  have next_slot: "fst (fold (walk_step env) [Suc i..<MAX_DEPTH] (?pp a b, d', mnt', vm', False)) =
      put_slots i ((a, b) # walk_slots env False n d' mnt' vm') pp" for a b d' mnt' vm'
    using Suc.IH [OF i(2) ok] put_slots_Cons [OF Suc.prems(2) i(1)] by simp
  have stop: "fst (fold (walk_step env) [Suc i..<MAX_DEPTH] (?pp a b, d', mnt', vm', True)) =
      put_slots i ((a, b) # replicate n (0, 0)) pp" for a b d' mnt' vm'
    using walk_done [OF i(2) ok] put_slots_Cons [OF Suc.prems(2) i(1), of "replicate n (0, 0)"]
    by (simp add: put_slots_def)
  have step: "walk_step env i (pp, d, mnt, vm, False) =
     (if d = mnt_root env vm then
        if mnt_parent env mnt = mnt then (?pp 0 0, d, mnt, vm, True)
        else (?pp 0 0, mnt_mountpoint env mnt, mnt_parent env mnt, vfsmount_of env (mnt_parent env mnt), False)
      else if d = d_parent env d then
        (if i = 0 then ?pp (q_name (d_name env d)) (q_len (d_name env d)) else ?pp 0 0, d, mnt, vm, True)
      else (?pp (q_name (d_name env d)) (q_len (d_name env d)), d_parent env d, mnt, vm, False))"
    by (simp add: walk_step_def Let_def)
  show ?case
    unfolding upt fold.simps o_apply step
    by (simp add: stop next_slot del: path_consts)
      (use stop [where a = "q_name (d_name env d)" and b = "q_len (d_name env d)"]
        in \<open>auto simp del: path_consts\<close>)
qed

lemma collect_names_slots:
  "parts_ok pp \<Longrightarrow>
     collect_names env pp d vm = put_slots 0 (walk_slots env True MAX_DEPTH d (mount_of env vm) vm) pp"
  unfolding collect_names_def using walk_fold [of 0 MAX_DEPTH pp env d "mount_of env vm" vm] by simp

section \<open>The second loop writes the path\<close>

text \<open>The bytes a slot contributes: at most \<open>NAME_CAP\<close> of them, none for an empty slot.\<close>

definition slot_is :: "'a bpf_env_scheme \<Rightarrow> u64 \<times> u32 \<Rightarrow> bytes \<Rightarrow> bool" where
  "slot_is env s c \<longleftrightarrow>
     length c = min (unat (snd s)) (unat NAME_CAP) \<and>
     (\<forall>d. length d = length c \<longrightarrow> snd (probe_read_kernel env (fst s) d) = c)"

definition slash :: "bytes \<Rightarrow> bytes" where
  "slash c = (if c = [] then [] else chr CHR ''/'' # c)"

lemma slash_simps [simp]: "slash [] = []" "c \<noteq> [] \<Longrightarrow> slash c = chr CHR ''/'' # c"
  by (simp_all add: slash_def)

lemma length_slash: "length (slash c) = (if c = [] then 0 else Suc (length c))"
  by (simp add: slash_def)

text \<open>What the buffer holds from \<open>pos\<close> on after some rounds.\<close>

definition emitted :: "bytes \<Rightarrow> 'p path_parts_scheme \<times> u32 \<Rightarrow> bytes \<Rightarrow> bool" where
  "emitted acc st rest \<longleftrightarrow>
     unat (snd st) + length acc = unat DIR_BUF \<and>
     length (pp_buf (fst st)) = unat DIR_BUF * 2 \<and>
     drop (unat (snd st)) (pp_buf (fst st)) = acc @ 0 # rest"

lemma clip_len:
  "unat (if NAME_CAP < len then NAME_CAP else len :: u32) = min (unat len) 127"
  by (auto simp: word_less_nat_alt)

lemma has_slash:
  assumes "unat (len :: u32) \<le> 127"
  shows "unat (drop_bit 7 (len + NAME_CAP)) = (if len = 0 then 0 else 1)"
proof -
  have "unat (len + NAME_CAP) = unat len + 127"
    using assms by (simp add: unat_word_ariths)
  then have "unat (drop_bit 7 (len + NAME_CAP)) = (unat len + 127) div 128"
    by (simp add: drop_bit_eq_div unat_div)
  moreover have "len \<noteq> 0 \<Longrightarrow> 1 \<le> unat len" by (simp add: Suc_le_eq unat_gt_0)
  ultimately show ?thesis using assms by auto
qed

lemma emit_step_emitted:
  assumes ok: "emitted acc (pp, pos) rest" and room: "128 \<le> unat pos"
    and slot: "slot_is env (pp_name pp ! i, pp_len pp ! i) c"
  shows "emitted (slash c @ acc) (emit_step env i (pp, pos)) rest"
proof -
  define len where "len = (if NAME_CAP < pp_len pp ! i then NAME_CAP else pp_len pp ! i)"
  have len: "unat len = length c" "unat len \<le> 127"
    unfolding len_def clip_len using slot by (auto simp: slot_is_def)
  define p where "p = pos - len"
  have p: "unat p = unat pos - length c" "1 \<le> unat p" "unat p \<le> 2048"
    using room len ok by (auto simp: p_def unat_sub_word emitted_def)
  define p' where "p' = unat (p AND (DIR_BUF - 1))"
  have p': "p' = unat p \<or> (c = [] \<and> p' = 0)"
  proof (cases "unat p < 2048")
    case True
    then show ?thesis by (simp add: p'_def and_mask_small)
  next
    case False
    then have "unat pos - length c = 2048" "unat pos \<le> 2048" "unat p = 2048"
      using p ok by (auto simp: emitted_def)
    then have "length c = 0" and "p = 2048" by (linarith, simp add: word_unat_eq_iff)
    then have "c = []" "p = 2048" by auto
    then show ?thesis by (simp add: p'_def)
  qed
  have "unat (p - 1) = unat p - 1" using p by (simp add: unat_sub_word)
  then have sl: "unat ((p - 1) AND (DIR_BUF - 1)) = unat p - 1"
    using p by (simp add: and_mask_small)
  have c127: "unat (len AND NAME_CAP) = length c" using len by (simp add: unat_and_127)
  let ?b = "pp_buf pp"
  have "length (take (length c) (drop p' ?b)) = length c"
    using ok p p' by (auto simp: emitted_def)
  then have got: "snd (probe_read_kernel env (pp_name pp ! i) (take (length c) (drop p' ?b))) = c"
    using slot by (simp add: slot_is_def)
  define b1 where "b1 = blit p' ?b c"
  have b1: "length b1 = length ?b" "drop (unat p) b1 = c @ acc @ 0 # rest"
    using ok p p' by (auto simp: b1_def emitted_def drop_blit_at blit_def)
  have step: "emit_step env i (pp, pos) =
      (pp\<lparr>pp_buf := b1[unat p - 1 := chr CHR ''/'']\<rparr>, p - drop_bit 7 (len + NAME_CAP))"
    using sl c127 got
    by (simp add: emit_step_def Let_def len_def [symmetric] p_def [symmetric] p'_def [symmetric]
        b1_def del: path_consts)
  have has: "unat (drop_bit 7 (len + NAME_CAP)) = (if c = [] then 0 else 1)"
    using has_slash [OF len(2)] len by (auto simp: word_unat_eq_iff)
  then have pos': "unat (p - drop_bit 7 (len + NAME_CAP)) = unat p - (if c = [] then 0 else 1)"
    using p by (simp add: unat_sub_word del: path_consts)
  have "drop (unat p - 1) (b1[unat p - 1 := chr CHR ''/'']) = chr CHR ''/'' # drop (unat p) b1"
    using p b1 ok by (intro drop_update_pred) (auto simp: emitted_def)
  note slashed = this
  have sums: "unat pos + length acc = 2048" "length ?b = 4096" using ok by (auto simp: emitted_def)
  show ?thesis
  proof (cases "c = []")
    case True
    then show ?thesis
      using step pos' b1 p sums by (simp add: emitted_def)
  next
    case False
    have "unat p - 1 + Suc (length c + length acc) = 2048" using p sums room len by linarith
    then show ?thesis
      using step pos' b1 slashed sums False by (simp add: emitted_def)
  qed
qed

lemma emit_step_parts:
  "pp_name (fst (emit_step env i st)) = pp_name (fst st) \<and>
   pp_len (fst (emit_step env i st)) = pp_len (fst st) \<and>
   path_parts.more (fst (emit_step env i st)) = path_parts.more (fst st)"
  by (cases st) (simp add: emit_step_def Let_def)

lemma emit_fold:
  assumes "i + length cs = MAX_DEPTH"
    and "\<And>k. k < length cs \<Longrightarrow> slot_is env (pp_name pp ! (i + k), pp_len pp ! (i + k)) (cs ! k)"
    and "emitted acc (pp, pos) rest" and "length acc \<le> 128 * i"
  shows "emitted (concat (map slash (rev cs)) @ acc) (fold (emit_step env) [i..<MAX_DEPTH] (pp, pos)) rest"
  using assms
proof (induction cs arbitrary: i pp pos acc)
  case Nil
  then show ?case by simp
next
  case (Cons c cs)
  obtain pp' pos' where st: "emit_step env i (pp, pos) = (pp', pos')" by fastforce
  have upt: "[i..<MAX_DEPTH] = i # [Suc i..<MAX_DEPTH]" using Cons.prems(1) by (simp add: upt_conv_Cons)
  have parts: "pp_name pp' = pp_name pp" "pp_len pp' = pp_len pp"
    using emit_step_parts [of env i "(pp, pos)"] st by auto
  have slot: "slot_is env (pp_name pp ! i, pp_len pp ! i) c" using Cons.prems(2) [of 0] by simp
  have "128 \<le> unat pos" using Cons.prems(1,3,4) by (auto simp: emitted_def)
  then have em: "emitted (slash c @ acc) (pp', pos') rest"
    using emit_step_emitted [OF Cons.prems(3) _ slot] st by simp
  have "length c \<le> 127" using slot by (auto simp: slot_is_def)
  then have "length (slash c @ acc) \<le> 128 * Suc i" using Cons.prems(4) by (simp add: length_slash)
  moreover have "slot_is env (pp_name pp' ! (Suc i + k), pp_len pp' ! (Suc i + k)) (cs ! k)"
    if "k < length cs" for k
    using Cons.prems(2) [of "Suc k"] that parts by simp
  ultimately have "emitted (concat (map slash (rev cs)) @ slash c @ acc)
      (fold (emit_step env) [Suc i..<MAX_DEPTH] (pp', pos')) rest"
    using Cons.IH [of "Suc i" pp' "slash c @ acc" pos'] Cons.prems(1) em by simp
  then show ?case using st by (simp add: upt del: path_consts)
qed

text \<open>
  The buffer after both loops, for any slots whose names are readable: from
  \<open>pos\<close> on it holds the names, outermost first, each after a slash, and a NUL.
\<close>

lemma emit_names_path:
  assumes "parts_ok pp" and "length cs = MAX_DEPTH"
    and "\<And>k. k < MAX_DEPTH \<Longrightarrow> slot_is env (pp_name pp ! k, pp_len pp ! k) (cs ! k)"
  shows "emitted (concat (map slash (rev cs))) (emit_names env pp) (drop (unat DIR_BUF + 1) (pp_buf pp))"
proof -
  let ?pp = "pp\<lparr>pp_buf := (pp_buf pp)[unat DIR_BUF := 0]\<rparr>"
  have "emitted [] (?pp, DIR_BUF) (drop (unat DIR_BUF + 1) (pp_buf pp))"
    using assms(1) by (simp add: emitted_def parts_ok_def flip: Cons_nth_drop_Suc)
  from emit_fold [OF _ _ this, of 0 cs env] show ?thesis
    using assms by (simp add: emit_names_def)
qed

section \<open>Climbing the directory tree\<close>

text \<open>
  The meaning of a path in the kernel's structures. \<open>vfs_climb env d vm n cs d' vm'\<close>:
  from entry \<open>d\<close> in mount \<open>vm\<close>, \<open>n\<close> steps up lead to \<open>d'\<close> in \<open>vm'\<close>,
  passing the names \<open>cs\<close> (outermost first). A step goes to the parent entry
  or, from the root of a mount, to the mount point. A name is cut at \<open>NAME_CAP\<close> bytes.
\<close>

definition named :: "'a bpf_env_scheme \<Rightarrow> u64 \<Rightarrow> bytes \<Rightarrow> bool" where
  "named env d c \<longleftrightarrow> c \<noteq> [] \<and> 0 \<notin> set c \<and> slot_is env (q_name (d_name env d), q_len (d_name env d)) c"

inductive vfs_climb ::
  "'a bpf_env_scheme \<Rightarrow> u64 \<Rightarrow> u64 \<Rightarrow> nat \<Rightarrow> bytes list \<Rightarrow> u64 \<Rightarrow> u64 \<Rightarrow> bool" for env where
  here: "vfs_climb env d vm 0 [] d vm"
| cross: "d = mnt_root env vm \<Longrightarrow> mnt_parent env (mount_of env vm) \<noteq> mount_of env vm \<Longrightarrow>
    vfs_climb env (mnt_mountpoint env (mount_of env vm))
      (vfsmount_of env (mnt_parent env (mount_of env vm))) n cs d' vm' \<Longrightarrow>
    vfs_climb env d vm (Suc n) cs d' vm'"
| parent: "d \<noteq> mnt_root env vm \<Longrightarrow> d_parent env d \<noteq> d \<Longrightarrow> named env d c \<Longrightarrow>
    vfs_climb env (d_parent env d) vm n cs d' vm' \<Longrightarrow>
    vfs_climb env d vm (Suc n) (cs @ [c]) d' vm'"

definition vfs_root :: "'a bpf_env_scheme \<Rightarrow> u64 \<Rightarrow> u64 \<Rightarrow> bool" where
  "vfs_root env d vm \<longleftrightarrow> d = mnt_root env vm \<and> mnt_parent env (mount_of env vm) = mount_of env vm"

text \<open>Where the climb ends: the root of the namespace, or an entry that is its own parent.\<close>

definition vfs_stop :: "'a bpf_env_scheme \<Rightarrow> u64 \<Rightarrow> u64 \<Rightarrow> bool" where
  "vfs_stop env d vm \<longleftrightarrow>
     (if d = mnt_root env vm then mnt_parent env (mount_of env vm) = mount_of env vm else d_parent env d = d)"

text \<open>
  The chains the loop bound covers: either the climb ends within \<open>MAX_DEPTH\<close>
  steps, or the names are those of the lowest \<open>MAX_DEPTH\<close> steps.
\<close>

definition covered :: "'a bpf_env_scheme \<Rightarrow> nat \<Rightarrow> u64 \<Rightarrow> u64 \<Rightarrow> bool" where
  "covered env n d vm \<longleftrightarrow> n = MAX_DEPTH \<or> (n < MAX_DEPTH \<and> vfs_stop env d vm)"

text \<open>
  A disconnected entry (a memfd or another pseudo file) is its own parent
  without being the root of its mount; its path is its name. The path of any
  other entry is made of the names climbed.
\<close>

definition disconnected :: "'a bpf_env_scheme \<Rightarrow> u64 \<Rightarrow> u64 \<Rightarrow> bool" where
  "disconnected env d vm \<longleftrightarrow> d \<noteq> mnt_root env vm \<and> d_parent env d = d"

definition vfs_path :: "'a bpf_env_scheme \<Rightarrow> u64 \<Rightarrow> u64 \<Rightarrow> bytes list \<Rightarrow> bool" where
  "vfs_path env d vm cs \<longleftrightarrow>
     (if disconnected env d vm then \<exists>c. named env d c \<and> cs = [c]
      else \<exists>n d' vm'. vfs_climb env d vm n cs d' vm' \<and> covered env n d' vm')"

lemma vfs_path_climb:
  "vfs_climb env d vm n cs d' vm' \<Longrightarrow> covered env n d' vm' \<Longrightarrow> \<not> disconnected env d vm \<Longrightarrow>
     vfs_path env d vm cs"
  by (auto simp: vfs_path_def)

lemma vfs_path_disconnected: "disconnected env d vm \<Longrightarrow> named env d c \<Longrightarrow> vfs_path env d vm [c]"
  by (simp add: vfs_path_def)

inductive_cases vfs_climb_SucE: "vfs_climb env d vm (Suc n) cs d' vm'"

lemma climb_names:
  "vfs_climb env d vm n cs d' vm' \<Longrightarrow> c \<in> set cs \<Longrightarrow> c \<noteq> [] \<and> 0 \<notin> set c \<and> length c \<le> 127"
  by (induction rule: vfs_climb.induct) (auto simp: named_def slot_is_def)

lemma path_names: "vfs_path env d vm cs \<Longrightarrow> c \<in> set cs \<Longrightarrow> c \<noteq> [] \<and> 0 \<notin> set c \<and> length c \<le> 127"
  by (auto simp: vfs_path_def named_def slot_is_def dest: climb_names split: if_splits)

context bpf_helpers
begin

lemma slot_empty: "slot_is env (0, 0) []"
proof -
  have "snd (probe_read_kernel env 0 []) = []" using read_kernel_length [of 0 "[]"] by simp
  then show ?thesis by (simp add: slot_is_def)
qed

lemma walk_slots_climb:
  assumes "vfs_climb env d vm n cs d' vm'" and "n = m \<or> (n < m \<and> vfs_stop env d' vm')"
    and "f \<Longrightarrow> \<not> disconnected env d vm"
  shows "\<exists>es. length es = m \<and>
    (\<forall>k < m. slot_is env (walk_slots env f m d (mount_of env vm) vm ! k) (es ! k)) \<and>
    concat (map slash (rev es)) = concat (map slash cs)"
  using assms
proof (induction arbitrary: m f rule: vfs_climb.induct)
  case (here d vm)
  show ?case
  proof (cases m)
    case 0
    then show ?thesis by simp
  next
    case (Suc m')
    with here have "walk_slots env f m d (mount_of env vm) vm = replicate m (0, 0)"
      by (auto simp: vfs_stop_def disconnected_def split: if_splits)
    then show ?thesis using slot_empty
      by (intro exI [of _ "replicate m []"]) auto
  qed
next
  case (cross d vm n cs d' vm')
  then obtain m' where m: "m = Suc m'" "n = m' \<or> (n < m' \<and> vfs_stop env d' vm')"
    by (cases m) auto
  from cross.IH [OF m(2), of False] obtain es where es: "length es = m'"
    "concat (map slash (rev es)) = concat (map slash cs)"
    "\<forall>k < m'. slot_is env (walk_slots env False m' (mnt_mountpoint env (mount_of env vm))
        (mnt_parent env (mount_of env vm)) (vfsmount_of env (mnt_parent env (mount_of env vm))) ! k) (es ! k)"
    by auto
  then show ?case
    using cross.hyps m(1) slot_empty
    by (intro exI [of _ "[] # es"]) (auto simp: nth_Cons split: nat.split)
next
  case (parent d vm c n cs d' vm')
  then obtain m' where m: "m = Suc m'" "n = m' \<or> (n < m' \<and> vfs_stop env d' vm')"
    by (cases m) auto
  from parent.IH [OF m(2), of False] obtain es where es: "length es = m'"
    "concat (map slash (rev es)) = concat (map slash cs)"
    "\<forall>k < m'. slot_is env (walk_slots env False m' (d_parent env d) (mount_of env vm) vm ! k) (es ! k)"
    by auto
  then show ?case
    using parent.hyps m(1)
    by (intro exI [of _ "c # es"]) (auto simp: named_def nth_Cons split: nat.split)
qed

lemma walk_slots_path:
  assumes "vfs_path env d vm cs"
  shows "\<exists>es. length es = MAX_DEPTH \<and>
    (\<forall>k < MAX_DEPTH. slot_is env (walk_slots env True MAX_DEPTH d (mount_of env vm) vm ! k) (es ! k)) \<and>
    concat (map slash (rev es)) = concat (map slash cs)"
proof (cases "disconnected env d vm")
  case False
  then obtain n d' vm' where "vfs_climb env d vm n cs d' vm'" "n = MAX_DEPTH \<or> (n < MAX_DEPTH \<and> vfs_stop env d' vm')"
    using assms by (auto simp: vfs_path_def covered_def simp del: path_consts)
  from walk_slots_climb [OF this] False show ?thesis by blast
next
  case True
  then obtain c where c: "named env d c" "cs = [c]" using assms by (auto simp: vfs_path_def)
  obtain m where m: "MAX_DEPTH = Suc m" by simp
  have slots: "walk_slots env True MAX_DEPTH d (mount_of env vm) vm =
      (q_name (d_name env d), q_len (d_name env d)) # replicate m (0, 0)"
    using True by (simp add: m disconnected_def del: path_consts)
  have "slot_is env (q_name (d_name env d), q_len (d_name env d)) c" "c \<noteq> []"
    using c(1) by (simp_all add: named_def)
  then show ?thesis
    using slot_empty unfolding slots
    by (intro exI [of _ "c # replicate m []"]) (auto simp: m c(2) nth_Cons simp del: path_consts split: nat.split)
qed

text \<open>Both loops together: the buffer holds the path of the entry.\<close>

lemma walk_emits_path:
  assumes "parts_ok pp" and "vfs_path env d vm cs"
  shows "emitted (concat (map slash cs)) (emit_names env (collect_names env pp d vm))
           (drop (unat DIR_BUF + 1) (pp_buf pp))"
proof -
  obtain es where es: "length es = MAX_DEPTH" "concat (map slash (rev es)) = concat (map slash cs)"
    "\<forall>k < MAX_DEPTH. slot_is env (walk_slots env True MAX_DEPTH d (mount_of env vm) vm ! k) (es ! k)"
    using walk_slots_path [OF assms(2)] by blast
  define pp' where "pp' = collect_names env pp d vm"
  have pp': "pp_name pp' = map fst (walk_slots env True MAX_DEPTH d (mount_of env vm) vm)"
    "pp_len pp' = map snd (walk_slots env True MAX_DEPTH d (mount_of env vm) vm)" "pp_buf pp' = pp_buf pp"
    using collect_names_slots [OF assms(1), of env d vm] by (simp_all add: pp'_def put_slots_def)
  have "parts_ok pp'" using pp' assms(1) by (simp add: parts_ok_def)
  from emit_names_path [OF this es(1), of env] show ?thesis
    using es pp' by (simp add: pp'_def [symmetric])
qed

end

section \<open>The path as the programs copy it out\<close>

definition path_of :: "bytes list \<Rightarrow> bytes" where
  "path_of cs = (if cs = [] then [chr CHR ''/''] else concat (map (\<lambda>c. chr CHR ''/'' # c) cs))"

lemma chr_slash [simp]: "chr CHR ''/'' = 47"
  by (simp add: chr_def)

lemma concat_slash:
  "(\<And>c. c \<in> set cs \<Longrightarrow> c \<noteq> []) \<Longrightarrow> concat (map slash cs) = concat (map (\<lambda>c. chr CHR ''/'' # c) cs)"
  by (induction cs) auto

lemma emitted_root: "emitted acc (pp, pos) rest \<Longrightarrow> pos = DIR_BUF \<longleftrightarrow> acc = []"
  by (auto simp: emitted_def word_unat_eq_iff)

lemma emitted_index:
  "emitted acc (pp, pos) rest \<Longrightarrow> acc \<noteq> [] \<Longrightarrow> unat (pos AND (DIR_BUF - 1)) = unat pos"
proof -
  assume e: "emitted acc (pp, pos) rest" and "acc \<noteq> []"
  then have "length acc \<noteq> 0" by simp
  moreover have "unat pos + length acc = 2048" using e by (simp add: emitted_def)
  ultimately have "unat pos < 2048" by linarith
  then show ?thesis by (simp add: and_mask_small)
qed

context bpf_helpers
begin

text \<open>The copy out of the buffer, with the root case both programs treat apart.\<close>

lemma walk_copies_path:
  assumes pp: "parts_ok pp" and path: "vfs_path env d vm cs"
    and em: "emit_names env (collect_names env pp d vm) = (pp', pos)" and out: "0 < length out"
  shows "pos = DIR_BUF \<longleftrightarrow> cs = []"
    and "cs \<noteq> [] \<Longrightarrow>
      own_str env (drop (unat (pos AND (DIR_BUF - 1))) (pp_buf pp')) out = str_copy (path_of cs) out"
proof -
  have names: "\<And>c. c \<in> set cs \<Longrightarrow> c \<noteq> [] \<and> 0 \<notin> set c" using path_names [OF path] by auto
  then have eq: "concat (map slash cs) = concat (map (\<lambda>c. chr CHR ''/'' # c) cs)"
    by (intro concat_slash) auto
  have e: "emitted (concat (map slash cs)) (pp', pos) (drop (unat DIR_BUF + 1) (pp_buf pp))"
    using walk_emits_path [OF pp path] em by simp
  have empty: "concat (map slash cs) = [] \<longleftrightarrow> cs = []" unfolding eq by (cases cs) auto
  show "pos = DIR_BUF \<longleftrightarrow> cs = []" using emitted_root [OF e] empty by blast
  assume cs: "cs \<noteq> []"
  then have ne: "concat (map slash cs) \<noteq> []" using empty by blast
  have no: "0 \<notin> set (concat (map slash cs))" using names eq by auto
  have "drop (unat (pos AND (DIR_BUF - 1))) (pp_buf pp') =
      concat (map slash cs) @ 0 # drop (unat DIR_BUF + 1) (pp_buf pp)"
    using e emitted_index [OF e ne] by (simp add: emitted_def)
  then show "own_str env (drop (unat (pos AND (DIR_BUF - 1))) (pp_buf pp')) out = str_copy (path_of cs) out"
    using own_str_copy [OF out] no eq cs by (simp add: path_of_def)
qed

lemma path_of_no_nul: "vfs_path env d vm cs \<Longrightarrow> 0 \<notin> set (path_of cs)"
  using path_names [of env d vm cs] by (auto simp: path_of_def)

end

section \<open>The scratch area keeps its shape\<close>

context bpf_helpers
begin

lemma emit_step_buf: "length (pp_buf pp) = 4096 \<Longrightarrow> length (pp_buf (fst (emit_step env i (pp, pos)))) = 4096"
proof -
  assume b: "length (pp_buf pp) = 4096"
  define len where "len = (if NAME_CAP < pp_len pp ! i then NAME_CAP else pp_len pp ! i)"
  have "unat len \<le> 127" unfolding len_def clip_len by simp
  then have l: "unat (len AND NAME_CAP) \<le> 127" by (simp add: unat_and_127)
  define at where "at = unat ((pos - len) AND (DIR_BUF - 1))"
  have "(pos - len) AND 2047 \<le> 2047" by (rule word_and_le1)
  then have "at \<le> 2047" by (simp add: at_def word_le_nat_alt)
  then show ?thesis
    using b l by (simp add: emit_step_def Let_def len_def [symmetric] at_def [symmetric]
        read_kernel_length del: path_consts)
qed

lemma emit_fold_ok:
  "parts_ok (fst st) \<Longrightarrow> parts_ok (fst (fold (emit_step env) is st))"
proof (induction "is" arbitrary: st)
  case (Cons i "is")
  obtain pp pos where st: "st = (pp, pos)" by fastforce
  have "parts_ok (fst (emit_step env i st))"
    using Cons.prems emit_step_buf [of pp i pos] emit_step_parts [of env i st]
    by (simp add: parts_ok_def st)
  from Cons.IH [OF this] show ?case by simp
qed simp

lemma walk_ok: "parts_ok pp \<Longrightarrow> parts_ok (fst (emit_names env (collect_names env pp d vm)))"
  unfolding emit_names_def
  by (rule emit_fold_ok) (simp add: collect_names_slots parts_ok_def put_slots_def)

end

section \<open>One step up\<close>

text \<open>The step both climbing loops take, and \<open>k\<close> of them; \<open>None\<close> where a loop stops.\<close>

definition up :: "'a bpf_env_scheme \<Rightarrow> u64 \<times> u64 \<Rightarrow> (u64 \<times> u64) option" where
  "up env = (\<lambda>(d, vm).
     if d = mnt_root env vm then
       let mp = mnt_parent env (mount_of env vm) in
       if mp = mount_of env vm then None
       else Some (mnt_mountpoint env (mount_of env vm), vfsmount_of env mp)
     else if d = d_parent env d then None
     else Some (d_parent env d, vm))"

fun up_n :: "'a bpf_env_scheme \<Rightarrow> nat \<Rightarrow> u64 \<times> u64 \<Rightarrow> (u64 \<times> u64) option" where
  "up_n env 0 p = Some p"
| "up_n env (Suc k) p = (case up env p of None \<Rightarrow> None | Some q \<Rightarrow> up_n env k q)"

lemma climb_up_n: "vfs_climb env d vm n cs d' vm' \<Longrightarrow> up_n env n (d, vm) = Some (d', vm')"
  by (induction rule: vfs_climb.induct) (auto simp: up_def Let_def)

end
