(* ===== verification/Sample.thy ===== *)
theory Sample
  imports Path_Walk
begin

text \<open>
  A small concrete machine on which the witnesses of the component theories
  run: a kernel memory holding the structures of one executable \<open>/a\<close>, started
  by a task whose own executable is called \<open>sh\<close>.
\<close>

definition sample_off :: "string \<Rightarrow> string \<Rightarrow> u64" where
  "sample_off s f =
     (if f = ''d_parent'' then 8 else if f = ''d_name'' then 16 else if f = ''d_name.name'' then 24
      else if f = ''d_inode'' then 40 else if f = ''d_sb'' then 48
      else if f = ''mnt'' then 32 else if f = ''mnt_mountpoint'' then 8
      else if f = ''f_path.dentry'' then 8
      else if f = ''real_parent'' then 8 else if f = ''tgid'' then 16
      else if f = ''pwd.dentry'' then 8 else if f = ''f_inode'' then 16
      else if f = ''fs'' then 24 else if f = ''files'' then 32 else if f = ''cred'' then 40
      else 0)"

text \<open>
  Addresses: entry \<open>/a\<close> at 4096 with its name at 5000, root entry at 6144,
  the root mount's \<open>vfsmount\<close> at 8192 (so its \<open>struct mount\<close> is at 8160),
  the executable's \<open>struct file\<close> at 9216, \<open>linux_binprm\<close> at 9472; the
  current task at 10240 with its memory map at 10496, its own executable's
  \<open>struct file\<close> at 10752, the entry of that at 11264 and the name at 11520. The
  task's parent, process 9, is at 12288, and its \<open>fs_struct\<close> at 13312; its
  executable is \<open>/sh\<close>, an inode at 14336 with one link, and its working directory \<open>/a\<close>.
\<close>

definition sample_kmem :: "(u64 \<times> bytes) list" where
  "sample_kmem =
     [(4104, le_bytes 8 6144), (4112, le_bytes 4 0 @ le_bytes 4 1 @ le_bytes 8 5000),
      (4120, le_bytes 8 5000),
      (5000, str ''a'' @ [0]), (6152, le_bytes 8 6144), (8192, le_bytes 8 6144),
      (8160, le_bytes 8 8160), (9216, le_bytes 8 8192), (9224, le_bytes 8 4096),
      (9472, le_bytes 8 9216), (10240, le_bytes 8 10496), (10496, le_bytes 8 10752),
      (10760, le_bytes 8 11264), (11288, le_bytes 8 11520), (11520, str ''sh'' @ [0]),
      (10248, le_bytes 8 12288), (12304, le_bytes 4 9),
      (10264, le_bytes 8 13312), (13312, le_bytes 8 8192), (13320, le_bytes 8 4096),
      (10752, le_bytes 8 8192), (10768, le_bytes 8 14336), (14336, le_bytes 4 1),
      (11272, le_bytes 8 6144), (11280, le_bytes 4 0 @ le_bytes 4 2 @ le_bytes 8 11520)]"

definition sample_env :: "(u64 \<times> bytes) list \<Rightarrow> u64 \<Rightarrow> u64 \<Rightarrow> bpf_env" where
  "sample_env um pt ug = cell_env um sample_kmem (str ''sh'') pt ug 77 10240 sample_off"

lemma sample_helpers: "bpf_helpers (sample_env um pt ug)"
  unfolding sample_env_def by (rule cell_env.bpf_helpers_axioms)

lemmas sample_defs = sample_env_def cell_env_def cell_read_def sample_kmem_def sample_off_def
  BPF_CORE_READ_def BPF_CORE_READ_INTO_def bpf_core_read_def le_word_bytes

lemma sample_d_parent [simp]:
  "d_parent (sample_env um pt ug) 4096 = 6144" "d_parent (sample_env um pt ug) 6144 = 6144"
  by (simp_all add: sample_defs)

lemma sample_mount [simp]:
  "mnt_root (sample_env um pt ug) 8192 = 6144" "mount_of (sample_env um pt ug) 8192 = 8160"
  "mnt_parent (sample_env um pt ug) 8160 = 8160"
  by (simp_all add: sample_defs container_of_def bpf_core_field_offset_def)

lemma sample_d_name: "d_name (sample_env um pt ug) 4096 = \<lparr>q_len = 1, q_name = 5000\<rparr>"
  by (simp add: sample_defs d_name_def Let_def)

lemma sample_named: "named (sample_env um pt ug) 4096 (str ''a'')"
  by (auto simp: named_def sample_d_name slot_is_def str_def chr_def)
    (simp add: sample_env_def cell_env_def cell_read_def sample_kmem_def str_def chr_def)

lemma sample_climb:
  "vfs_climb (sample_env um pt ug) 4096 8192 1 [str ''a''] 6144 8192"
proof -
  have "vfs_climb (sample_env um pt ug) 4096 8192 (Suc 0) ([] @ [str ''a'']) 6144 8192"
    by (rule vfs_climb.parent) (simp_all add: sample_named vfs_climb.here)
  then show ?thesis by simp
qed

lemma sample_exec [simp]:
  "core_ptr (sample_env um pt ug) 9472 [(''linux_binprm'', ''file'')] = 9216"
  "core_ptr (sample_env um pt ug) 9216 [(''file'', ''f_path.dentry'')] = 4096"
  "core_ptr (sample_env um pt ug) 9216 [(''file'', ''f_path.mnt'')] = 8192"
  by (simp_all add: sample_defs)

lemma sample_ids [simp]:
  "current_pid_tgid (sample_env um pt ug) = pt" "current_uid_gid (sample_env um pt ug) = ug"
  "current_task (sample_env um pt ug) = 10240" "cpu (sample_env um pt ug) = 0"
  by (simp_all add: sample_env_def cell_env_def)

lemma sample_covered: "covered (sample_env um pt ug) 1 6144 8192"
  by (simp add: covered_def vfs_stop_def)

lemma sample_path: "path_of [str ''a''] = str ''/a''"
  by (simp add: path_of_def str_def)

lemma sample_exe_named: "named (sample_env um pt ug) 11264 (str ''sh'')"
proof -
  have "d_name (sample_env um pt ug) 11264 = \<lparr>q_len = 2, q_name = 11520\<rparr>"
    by (simp add: sample_defs d_name_def Let_def)
  then show ?thesis
    by (auto simp: named_def slot_is_def str_def chr_def)
      (simp add: sample_env_def cell_env_def cell_read_def sample_kmem_def str_def chr_def)
qed

lemma sample_exe_climb: "vfs_climb (sample_env um pt ug) 11264 8192 1 [str ''sh''] 6144 8192"
proof -
  have "d_parent (sample_env um pt ug) 11264 = 6144" by (simp add: sample_defs)
  then have "vfs_climb (sample_env um pt ug) 11264 8192 (Suc 0) ([] @ [str ''sh'']) 6144 8192"
    by (intro vfs_climb.parent) (simp_all add: sample_exe_named vfs_climb.here)
  then show ?thesis by simp
qed

lemma sample_vfs_path: "vfs_path (sample_env um pt ug) 4096 8192 [str ''a'']"
  by (rule vfs_path_climb [OF sample_climb sample_covered]) (simp add: disconnected_def)

lemma sample_exe_path: "vfs_path (sample_env um pt ug) 11264 8192 [str ''sh'']"
proof (rule vfs_path_climb [OF sample_exe_climb sample_covered])
  have "d_parent (sample_env um pt ug) 11264 = 6144" by (simp add: sample_defs)
  then show "\<not> disconnected (sample_env um pt ug) 11264 8192" by (simp add: disconnected_def)
qed

end
