(* ===== verification/Linsensor_State.thy ===== *)
theory Linsensor_State
  imports Sample
begin

text \<open>
  \<open>linsensor.bpf.c\<close>, the shared part: records, maps, counters, the pairing of
  a system call's entry with its exit (\<open>stash\<close> and \<open>take\<close>), the reservation
  of a record, and the resolution of directories. The map of stashed
  arguments is a parameter \<open>M\<close>; a handler's \<open>slot\<close> is the ring buffer's
  answer to the one reservation the handler makes.
\<close>

section \<open>Constants and data\<close>

definition AT_FDCWD :: u32 where "AT_FDCWD = - 100"
definition O_WRONLY :: u64 where "O_WRONLY = 1"
definition O_RDWR :: u64 where "O_RDWR = 2"
definition O_CREAT :: u64 where "O_CREAT = 64"
definition O_TRUNC :: u64 where "O_TRUNC = 512"

definition K_OPEN :: u32 where "K_OPEN = 1"
definition K_RENAME :: u32 where "K_RENAME = 2"
definition K_UNLINK :: u32 where "K_UNLINK = 3"
definition K_MODULE_INIT :: u32 where "K_MODULE_INIT = 4"
definition K_MODULE_FINIT :: u32 where "K_MODULE_FINIT = 5"
definition K_MODULE_DELETE :: u32 where "K_MODULE_DELETE = 6"
definition K_PTRACE :: u32 where "K_PTRACE = 7"
definition K_SETID :: u32 where "K_SETID = 8"
definition K_CAPSET :: u32 where "K_CAPSET = 9"
definition K_MEMFD :: u32 where "K_MEMFD = 10"
definition K_EXEC :: u32 where "K_EXEC = 11"
definition K_FILELESS_EXEC :: u32 where "K_FILELESS_EXEC = 12"
definition K_EXIT :: u32 where "K_EXIT = 13"
definition K_VM_ACCESS :: u32 where "K_VM_ACCESS = 14"

lemmas kind_defs = K_OPEN_def K_RENAME_def K_UNLINK_def K_MODULE_INIT_def K_MODULE_FINIT_def
  K_MODULE_DELETE_def K_PTRACE_def K_SETID_def K_CAPSET_def K_MEMFD_def K_EXEC_def
  K_FILELESS_EXEC_def K_EXIT_def K_VM_ACCESS_def

definition ID_SETUID :: u64 where "ID_SETUID = 1"
definition ID_SETREUID :: u64 where "ID_SETREUID = 2"
definition ID_SETRESUID :: u64 where "ID_SETRESUID = 3"
definition ID_SETGID :: u64 where "ID_SETGID = 4"
definition ID_SETREGID :: u64 where "ID_SETREGID = 5"
definition ID_SETRESGID :: u64 where "ID_SETRESGID = 6"

definition SELF_MAGIC :: u64 where "SELF_MAGIC = 0x4c53454e"

definition ST_STASH :: u32 where "ST_STASH = 0"
definition ST_TAKE_OK :: u32 where "ST_TAKE_OK = 1"
definition ST_MISSING :: u32 where "ST_MISSING = 2"
definition ST_KIND :: u32 where "ST_KIND = 3"
definition ST_FAILED :: u32 where "ST_FAILED = 4"
definition ST_STASH_ERR :: u32 where "ST_STASH_ERR = 5"
definition ST_N :: nat where "ST_N = 6"

lemmas st_defs = ST_STASH_def ST_TAKE_OK_def ST_MISSING_def ST_KIND_def ST_FAILED_def
  ST_STASH_ERR_def ST_N_def

text \<open>Signed C fields (\<open>ret\<close>, \<open>dfd\<close>) are words read with \<open>sint\<close>.\<close>

record sensor_event =
  se_ts :: u64
  se_ret :: u64
  se_arg0 :: u64
  se_arg1 :: u64
  se_arg2 :: u64
  se_kind :: u32
  se_pid :: u32
  se_tgid :: u32
  se_ppid :: u32
  se_uid :: u32
  se_euid :: u32
  se_dfd :: u32
  se_dfd2 :: u32
  se_comm :: bytes
  se_path :: bytes
  se_path2 :: bytes
  se_dir :: bytes
  se_dir2 :: bytes

record pending =
  p_kind :: u32
  p_pad :: u32
  p_a :: "u64 list"
  p_uid :: u32
  p_euid :: u32

record 'm lin_st =
  self_map :: "u32 list"
  sensor_events :: "sensor_event list"
  path_scratch :: "nat \<Rightarrow> path_parts list"
  drops :: "nat \<Rightarrow> u64 list"
  pending_args :: 'm
  stats :: "nat \<Rightarrow> u64 list"

definition event_ok :: "sensor_event \<Rightarrow> bool" where
  "event_ok ev \<longleftrightarrow> length (se_comm ev) = 16 \<and> length (se_path ev) = PATH_LEN \<and>
     length (se_path2 ev) = PATH_LEN \<and> length (se_dir ev) = PATH_LEN \<and> length (se_dir2 ev) = PATH_LEN"

definition lin_ok :: "'m lin_st \<Rightarrow> bool" where
  "lin_ok st \<longleftrightarrow> length (self_map st) = 1 \<and> (\<forall>e \<in> set (sensor_events st). event_ok e) \<and>
     (\<forall>c. \<exists>pp. path_scratch st c = [pp] \<and> parts_ok pp) \<and>
     (\<forall>c. length (drops st c) = 1 \<and> length (stats st c) = ST_N)"

section \<open>Paths and directories\<close>

definition build_path ::
  "'a bpf_env_scheme \<Rightarrow> 'm lin_st \<Rightarrow> u64 \<Rightarrow> u64 \<Rightarrow> bytes \<Rightarrow> 'm lin_st \<times> bytes" where
  "build_path env st d vm out =
     (case arr_lookup (path_scratch st (cpu env)) 0 of None \<Rightarrow> (st, out)
      | Some pp \<Rightarrow>
        if d = 0 \<or> vm = 0 then (st, out)
        else
          let (pp, pos) = emit_names env (collect_names env pp d vm);
              st = st\<lparr>path_scratch := (path_scratch st)(cpu env :=
                     arr_store (path_scratch st (cpu env)) 0 pp)\<rparr>
          in if pos = DIR_BUF then (st, out[0 := chr CHR ''/'', 1 := 0])
             else (st, snd (own_str env (drop (unat (pos AND (DIR_BUF - 1))) (pp_buf pp)) out)))"

text \<open>The open file behind a descriptor of the current task, 0 for none.\<close>

definition fd_file :: "'a bpf_env_scheme \<Rightarrow> u32 \<Rightarrow> u64" where
  "fd_file env fd =
     (let task = current_task env;
          fdt = core_ptr env task [(''task_struct'', ''files''), (''files_struct'', ''fdt'')];
          max = core_u32 env fdt [(''fdtable'', ''max_fds'')]
      in if sint fd < 0 \<or> max \<le> fd then 0
         else let fds = core_ptr env fdt [(''fdtable'', ''fd'')]
              in le_word (snd (probe_read_kernel env (fds + 8 * ucast fd) (replicate 8 0))))"

definition dir_of ::
  "'a bpf_env_scheme \<Rightarrow> 'm lin_st \<Rightarrow> u32 \<Rightarrow> bytes \<Rightarrow> 'm lin_st \<times> bytes" where
  "dir_of env st dfd out =
     (if dfd = AT_FDCWD then
        let task = current_task env;
            fs = core_ptr env task [(''task_struct'', ''fs'')];
            d = core_ptr env fs [(''fs_struct'', ''pwd.dentry'')];
            vm = core_ptr env fs [(''fs_struct'', ''pwd.mnt'')]
        in build_path env st d vm out
      else
        let f = fd_file env dfd in
        if f = 0 then (st, out)
        else build_path env st (core_ptr env f [(''file'', ''f_path.dentry'')])
               (core_ptr env f [(''file'', ''f_path.mnt'')]) out)"

section \<open>Counters and the agent itself\<close>

definition count :: "'a bpf_env_scheme \<Rightarrow> u32 \<Rightarrow> 'm lin_st \<Rightarrow> 'm lin_st" where
  "count env i st =
     (case arr_lookup (stats st (cpu env)) i of None \<Rightarrow> st
      | Some n \<Rightarrow> st\<lparr>stats := (stats st)(cpu env := arr_store (stats st (cpu env)) i (n + 1))\<rparr>)"

definition skip_self :: "'a bpf_env_scheme \<Rightarrow> 'm lin_st \<Rightarrow> bool" where
  "skip_self env st =
     (case arr_lookup (self_map st) 0 of None \<Rightarrow> False
      | Some tgid \<Rightarrow> ucast tgid = drop_bit 32 (current_pid_tgid env))"

definition enter_prctl :: "'a bpf_env_scheme \<Rightarrow> 'm lin_st \<Rightarrow> u64 list \<Rightarrow> 'm lin_st" where
  "enter_prctl env st args =
     (if args ! 0 \<noteq> SELF_MAGIC then st
      else case arr_lookup (self_map st) 0 of None \<Rightarrow> st
        | Some tgid \<Rightarrow>
            if tgid = 0
            then st\<lparr>self_map := arr_store (self_map st) 0 (ucast (drop_bit 32 (current_pid_tgid env)))\<rparr>
            else st)"

text \<open>\<open>reserve\<close>: a record with the caller's identity, or a count of the loss.\<close>

definition reserve ::
  "'a bpf_env_scheme \<Rightarrow> sensor_event option \<Rightarrow> 'm lin_st \<Rightarrow> u32 \<Rightarrow> 'm lin_st \<times> sensor_event option" where
  "reserve env slot st knd =
     (case slot of
        None \<Rightarrow>
          (case arr_lookup (drops st (cpu env)) 0 of None \<Rightarrow> (st, None)
           | Some n \<Rightarrow> (st\<lparr>drops := (drops st)(cpu env := arr_store (drops st (cpu env)) 0 (n + 1))\<rparr>, None))
      | Some ev \<Rightarrow>
          let task = current_task env;
              pid_tgid = current_pid_tgid env;
              uid_gid = current_uid_gid env
          in (st, Some (ev\<lparr>se_ts := ktime_ns env, se_ret := 0, se_arg0 := 0, se_arg1 := 0, se_arg2 := 0,
                se_kind := knd, se_pid := ucast pid_tgid, se_tgid := ucast (drop_bit 32 pid_tgid),
                se_ppid := core_u32 env task [(''task_struct'', ''real_parent''), (''task_struct'', ''tgid'')],
                se_uid := ucast uid_gid,
                se_euid := core_u32 env task [(''task_struct'', ''cred''), (''cred'', ''euid.val'')],
                se_dfd := AT_FDCWD, se_dfd2 := AT_FDCWD,
                se_comm := snd (current_comm env (se_comm ev)),
                se_path := (se_path ev)[0 := 0], se_path2 := (se_path2 ev)[0 := 0],
                se_dir := (se_dir ev)[0 := 0], se_dir2 := (se_dir2 ev)[0 := 0]\<rparr>)))"

definition submit :: "sensor_event \<Rightarrow> 'm lin_st \<Rightarrow> 'm lin_st" where
  "submit ev st = st\<lparr>sensor_events := sensor_events st @ [ev]\<rparr>"

section \<open>Pairing entry and exit\<close>

definition stash ::
  "'a bpf_env_scheme \<Rightarrow> (u64, pending, 'm) map_ops \<Rightarrow> u32 \<Rightarrow> u64 \<Rightarrow> u64 \<Rightarrow> u64 \<Rightarrow> u64 \<Rightarrow> 'm lin_st \<Rightarrow> 'm lin_st" where
  "stash env M knd a0 a1 a2 a3 st =
     (let p = \<lparr>p_kind = knd, p_pad = 0, p_a = [a0, a1, a2, a3], p_uid = 0, p_euid = 0\<rparr>;
          (r, m) = map_update_elem M (pending_args st) (current_pid_tgid env) p BPF_ANY;
          st = st\<lparr>pending_args := m\<rparr>
      in count env (if r \<noteq> 0 then ST_STASH_ERR else ST_STASH) st)"

text \<open>\<open>take\<close> of the source; the arguments are returned when the C function returns 1.\<close>

definition take_args ::
  "'a bpf_env_scheme \<Rightarrow> (u64, pending, 'm) map_ops \<Rightarrow> 'm lin_st \<Rightarrow> u32 \<Rightarrow> u64 \<Rightarrow> 'm lin_st \<times> pending option" where
  "take_args env M st knd ret =
     (let id = current_pid_tgid env in
      case map_lookup_elem M (pending_args st) id of
        None \<Rightarrow> (count env ST_MISSING st, None)
      | Some p \<Rightarrow>
        let good = p_kind p = knd \<and> 0 \<le> sint ret;
            st = count env (if good then ST_TAKE_OK else if p_kind p \<noteq> knd then ST_KIND else ST_FAILED) st;
            st = st\<lparr>pending_args := snd (map_delete_elem M (pending_args st) id)\<rparr>
        in (st, if good then Some p else None))"

section \<open>What the counters and the pairing promise\<close>

lemma count_simps [simp]:
  "self_map (count env i st) = self_map st" "sensor_events (count env i st) = sensor_events st"
  "path_scratch (count env i st) = path_scratch st" "drops (count env i st) = drops st"
  "pending_args (count env i st) = pending_args st"
  by (simp_all add: count_def split: option.split)

lemma count_stats:
  "unat i < length (stats st (cpu env)) \<Longrightarrow>
     stats (count env i st) = (stats st)(cpu env := (stats st (cpu env))[unat i := stats st (cpu env) ! unat i + 1])"
  by (simp add: count_def arr_lookup_def arr_store_def)

lemma length_count_stats: "length (stats (count env i st) c) = length (stats st c)"
  by (simp add: count_def split: option.split)

lemma stash_simps [simp]:
  "self_map (stash env M k a b c d st) = self_map st"
  "sensor_events (stash env M k a b c d st) = sensor_events st"
  "path_scratch (stash env M k a b c d st) = path_scratch st" "drops (stash env M k a b c d st) = drops st"
  "length (stats (stash env M k a b c d st) x) = length (stats st x)"
  by (simp_all add: stash_def length_count_stats split: prod.split)

lemma take_simps:
  assumes "take_args env M st knd ret = (st', p)"
  shows "self_map st' = self_map st" "sensor_events st' = sensor_events st"
    "path_scratch st' = path_scratch st" "drops st' = drops st"
    "length (stats st' x) = length (stats st x)"
  using assms by (auto simp: take_args_def Let_def length_count_stats split: option.splits)

lemma pending_stash: "pending_args (stash env M k a b c d st) =
    snd (map_update_elem M (pending_args st) (current_pid_tgid env)
      \<lparr>p_kind = k, p_pad = 0, p_a = [a, b, c, d], p_uid = 0, p_euid = 0\<rparr> BPF_ANY)"
  by (simp add: stash_def split: prod.split)

text \<open>
  C15: The pairing round trip. What a thread stashes at the entry of a system
  call, the map having taken it, is what the exit of the same kind gets when
  the call succeeded, whatever other threads do to their own entries in
  between; afterwards the thread has no entry, and the entry of another
  thread is as it was.
\<close>

theorem stash_take_round_trip:
  assumes "bpf_map M" and "current_pid_tgid env' = current_pid_tgid env" and "0 \<le> sint ret"
    and "fst (map_update_elem M (pending_args st) (current_pid_tgid env)
           \<lparr>p_kind = k, p_pad = 0, p_a = [a, b, c, d], p_uid = 0, p_euid = 0\<rparr> BPF_ANY) = 0"
    and "map_lookup_elem M (pending_args st') (current_pid_tgid env) =
         map_lookup_elem M (pending_args (stash env M k a b c d st)) (current_pid_tgid env)"
  shows "snd (take_args env' M st' k ret) =
      Some \<lparr>p_kind = k, p_pad = 0, p_a = [a, b, c, d], p_uid = 0, p_euid = 0\<rparr> \<and>
    map_lookup_elem M (pending_args (fst (take_args env' M st' k ret))) (current_pid_tgid env) = None \<and>
    (\<forall>id. id \<noteq> current_pid_tgid env \<longrightarrow>
       map_lookup_elem M (pending_args (fst (take_args env' M st' k ret))) id =
       map_lookup_elem M (pending_args st') id)"
proof -
  let ?p = "\<lparr>p_kind = k, p_pad = 0, p_a = [a, b, c, d], p_uid = 0, p_euid = 0\<rparr>"
  obtain m where "map_update_elem M (pending_args st) (current_pid_tgid env) ?p BPF_ANY = (0, m)"
    using assms(4) by (metis prod.collapse)
  then have "map_lookup_elem M (pending_args (stash env M k a b c d st)) (current_pid_tgid env) = Some ?p"
    using bpf_map.update_key [OF assms(1)] by (simp add: pending_stash)
  then have "map_lookup_elem M (pending_args st') (current_pid_tgid env) = Some ?p" using assms(5) by simp
  then show ?thesis
    using assms(2,3) bpf_map.delete_key [OF assms(1)] bpf_map.delete_other [OF assms(1)]
    by (simp add: take_args_def Let_def)
qed

text \<open>
  \<open>take\<close> accounts for every exit exactly once: it adds one to the one
  counter that names its outcome and to no other, returns arguments only for
  the counter \<open>ST_TAKE_OK\<close>, and never leaves the thread an entry.
\<close>

lemma take_counts_once:
  assumes "bpf_map M" and "length (stats st (cpu env)) = ST_N"
    and "take_args env M st knd ret = (st', r)"
  shows "\<exists>i \<in> {ST_TAKE_OK, ST_MISSING, ST_KIND, ST_FAILED}.
      stats st' = (stats st)(cpu env := (stats st (cpu env))[unat i := stats st (cpu env) ! unat i + 1]) \<and>
      (i = ST_TAKE_OK \<longleftrightarrow> r \<noteq> None) \<and>
      (i = ST_MISSING \<longleftrightarrow> map_lookup_elem M (pending_args st) (current_pid_tgid env) = None) \<and>
      (i = ST_KIND \<longleftrightarrow> (\<exists>p. map_lookup_elem M (pending_args st) (current_pid_tgid env) = Some p \<and> p_kind p \<noteq> knd)) \<and>
      (i = ST_FAILED \<longrightarrow> sint ret < 0) \<and>
      map_lookup_elem M (pending_args st') (current_pid_tgid env) = None"
proof (cases "map_lookup_elem M (pending_args st) (current_pid_tgid env)")
  case None
  then show ?thesis
    using assms(2,3) by (intro bexI [of _ ST_MISSING]) (auto simp: take_args_def count_stats st_defs)
next
  case (Some p)
  let ?i = "if p_kind p = knd \<and> 0 \<le> sint ret then ST_TAKE_OK else if p_kind p \<noteq> knd then ST_KIND else ST_FAILED"
  have "unat ?i < ST_N" by (simp add: st_defs)
  then have "stats st' = (stats st)(cpu env := (stats st (cpu env))[unat ?i := stats st (cpu env) ! unat ?i + 1])"
    "r = (if p_kind p = knd \<and> 0 \<le> sint ret then Some p else None)"
    "map_lookup_elem M (pending_args st') (current_pid_tgid env) = None"
    using assms(2,3) Some bpf_map.delete_key [OF assms(1)]
    by (auto simp: take_args_def Let_def count_stats)
  then show ?thesis using Some
    by (intro bexI [of _ ?i]) (auto simp: st_defs not_le)
qed

section \<open>Paths and records keep their shape\<close>

text \<open>Operations that only touch the scratch area.\<close>

definition only_scratch :: "'m lin_st \<Rightarrow> 'm lin_st \<Rightarrow> bool" where
  "only_scratch st st' \<longleftrightarrow> self_map st' = self_map st \<and> sensor_events st' = sensor_events st \<and>
     drops st' = drops st \<and> pending_args st' = pending_args st \<and> stats st' = stats st"

lemma build_path_only: "only_scratch st (fst (build_path env st d vm out))"
  by (simp add: build_path_def only_scratch_def Let_def split: option.split prod.split)

lemma dir_of_only: "only_scratch st (fst (dir_of env st dfd out))"
  by (simp add: dir_of_def Let_def build_path_only) (simp add: only_scratch_def)

context bpf_helpers
begin

lemma build_path_ok:
  assumes "lin_ok st" and "length out = PATH_LEN"
  shows "lin_ok (fst (build_path env st d vm out))" and "length (snd (build_path env st d vm out)) = PATH_LEN"
proof -
  obtain pp where pp: "path_scratch st (cpu env) = [pp]" "parts_ok pp"
    using assms(1) unfolding lin_ok_def by blast
  have scr: "arr_lookup [pp] 0 = Some pp" "arr_store [pp] 0 x = [x]" for x
    by (simp_all add: arr_lookup_def arr_store_def)
  have "parts_ok (fst (emit_names env (collect_names env pp d vm)))" by (rule walk_ok [OF pp(2)])
  then show "lin_ok (fst (build_path env st d vm out))"
    using assms(1) pp by (auto simp: build_path_def lin_ok_def scr Let_def split: prod.split)
  show "length (snd (build_path env st d vm out)) = PATH_LEN"
    using assms(2) own_str_length [of out] by (auto simp: build_path_def pp(1) scr Let_def split: prod.split)
qed

lemma dir_of_ok:
  assumes "lin_ok st" and "length out = PATH_LEN"
  shows "lin_ok (fst (dir_of env st dfd out))" and "length (snd (dir_of env st dfd out)) = PATH_LEN"
  using assms build_path_ok [OF assms] by (simp_all add: dir_of_def Let_def)

lemma build_path_value:
  assumes "lin_ok st" and "length out = PATH_LEN" and "d \<noteq> 0" and "vm \<noteq> 0"
    and "vfs_path env d vm cs"
  shows "cstr (snd (build_path env st d vm out)) = take (PATH_LEN - 1) (path_of cs)"
proof -
  obtain pp where pp: "path_scratch st (cpu env) = [pp]" "parts_ok pp"
    using assms(1) unfolding lin_ok_def by blast
  have scr: "arr_lookup [pp] 0 = Some pp" by (simp add: arr_lookup_def)
  obtain pp' pos where em: "emit_names env (collect_names env pp d vm) = (pp', pos)" by fastforce
  have len: "0 < length out" using assms(2) by simp
  note w = walk_copies_path [OF pp(2) assms(5) em len]
  show ?thesis
  proof (cases "cs = []")
    case True
    then have "pos = DIR_BUF" using w(1) by simp
    moreover have "cstr (out[0 := chr CHR ''/'', 1 := 0]) = [chr CHR ''/'']"
    proof -
      obtain x y r where "out = x # y # r"
        using assms(2) by (cases out rule: remdups_adj.cases) auto
      then show ?thesis by (simp add: cstr_def)
    qed
    ultimately show ?thesis
      using True assms(3,4) pp(1) scr em by (simp add: build_path_def path_of_def Let_def)
  next
    case False
    then have "pos \<noteq> DIR_BUF" using w(1) by simp
    then have "snd (build_path env st d vm out) = snd (str_copy (path_of cs) out)"
      using w(2) [OF False] assms(3,4) pp(1) scr em by (simp add: build_path_def Let_def)
    then show ?thesis
      using str_copy_cstr [OF path_of_no_nul [OF assms(5)], of out] assms(2) by simp
  qed
qed

lemma reserve_ok:
  assumes "lin_ok st" and "\<And>ev. slot = Some ev \<Longrightarrow> event_ok ev" and "reserve env slot st k = (st', r)"
  shows "lin_ok st'" and "r = Some ev \<Longrightarrow> event_ok ev"
proof -
  have "length (snd (current_comm env (se_comm ev))) = 16" if "length (se_comm ev) = 16" for ev
    using comm_length [of "se_comm ev"] that by (simp del: length_greater_0_conv)
  then show "lin_ok st'" "r = Some ev \<Longrightarrow> event_ok ev"
    using assms by (auto simp: reserve_def lin_ok_def event_ok_def arr_lookup_def Let_def
        split: option.splits if_splits)
qed

end

lemma reserve_simps:
  assumes "reserve env slot st k = (st', r)"
  shows "self_map st' = self_map st" "sensor_events st' = sensor_events st"
    "pending_args st' = pending_args st" "stats st' = stats st" "path_scratch st' = path_scratch st"
  using assms by (auto simp: reserve_def Let_def split: option.splits)

lemma reserve_tgid:
  "reserve env slot st k = (st', Some ev) \<Longrightarrow>
     se_kind ev = k \<and> se_tgid ev = ucast (drop_bit 32 (current_pid_tgid env))"
  by (auto simp: reserve_def Let_def split: option.splits)

lemma take_lin_ok: "lin_ok st \<Longrightarrow> take_args env M st knd ret = (st', p) \<Longrightarrow> lin_ok st'"
  using take_simps [of env M st knd ret st' p] by (simp add: lin_ok_def)

lemma stash_lin_ok: "lin_ok st \<Longrightarrow> lin_ok (stash env M k a b c d st)"
  by (simp add: lin_ok_def)

lemma submit_lin_ok: "lin_ok st \<Longrightarrow> event_ok ev \<Longrightarrow> lin_ok (submit ev st)"
  by (simp add: lin_ok_def submit_def)

text \<open>
  A record that does not fit the ring buffer is counted: \<open>reserve\<close> without
  room adds one to the processor's \<open>drops\<close> and changes nothing else; with
  room it changes no state at all and the record names the caller.
\<close>

lemma reserve_counts_drops:
  assumes "lin_ok st"
  shows "reserve env None st k =
      (st\<lparr>drops := (drops st)(cpu env := [hd (drops st (cpu env)) + 1])\<rparr>, None) \<and>
    (\<exists>e. reserve env (Some ev) st k = (st, Some e) \<and> se_kind e = k \<and>
       se_tgid e = ucast (drop_bit 32 (current_pid_tgid env)) \<and> se_pid e = ucast (current_pid_tgid env) \<and>
       se_uid e = ucast (current_uid_gid env) \<and> se_path e ! 0 = (se_path ev)[0 := 0] ! 0)"
proof -
  obtain n where n: "drops st (cpu env) = [n]"
    using assms unfolding lin_ok_def by (metis length_0_conv length_Suc_conv One_nat_def)
  show ?thesis by (simp add: reserve_def n arr_lookup_def arr_store_def Let_def)
qed

text \<open>
  C17: \<open>build_path\<close> writes the absolute path of an entry: for every chain of
  entries and mounts that the loop bound covers, the buffer ends up holding
  the names from the root down, each after a slash, cut to the buffer; for a
  disconnected entry it holds the entry's own name after a slash.
\<close>

theorem build_path_writes_path:
  assumes "bpf_helpers env" and "lin_ok st" and "length out = PATH_LEN" and "d \<noteq> 0" and "vm \<noteq> 0"
    and "vfs_path env d vm cs"
  shows "cstr (snd (build_path env st d vm out)) = take (PATH_LEN - 1) (path_of cs) \<and>
    only_scratch st (fst (build_path env st d vm out)) \<and> lin_ok (fst (build_path env st d vm out))"
  using bpf_helpers.build_path_value [OF assms] bpf_helpers.build_path_ok [OF assms(1-3)] build_path_only
  by blast

section \<open>A concrete state\<close>

abbreviation pend_ops :: "(u64, pending, (u64 \<times> pending) list) map_ops" where
  "pend_ops \<equiv> lru_ops 16384"

definition sample_parts :: path_parts where
  "sample_parts = \<lparr>pp_name = replicate 16 7, pp_len = replicate 16 7, pp_buf = replicate 4096 7\<rparr>"

definition sample_lin :: "(u64 \<times> pending) list lin_st" where
  "sample_lin = \<lparr>self_map = [42], sensor_events = [], path_scratch = (\<lambda>_. [sample_parts]),
     drops = (\<lambda>_. [0]), pending_args = [], stats = (\<lambda>_. replicate 6 0)\<rparr>"

definition sample_event :: sensor_event where
  "sample_event =
     \<lparr>se_ts = 9, se_ret = 9, se_arg0 = 9, se_arg1 = 9, se_arg2 = 9, se_kind = 9, se_pid = 9, se_tgid = 9,
      se_ppid = 9, se_uid = 9, se_euid = 9, se_dfd = 9, se_dfd2 = 9, se_comm = replicate 16 9,
      se_path = replicate 256 9, se_path2 = replicate 256 9, se_dir = replicate 256 9, se_dir2 = replicate 256 9\<rparr>"

lemma sample_lin_ok: "lin_ok sample_lin" "event_ok sample_event"
  by (simp_all add: lin_ok_def sample_lin_def sample_parts_def parts_ok_def event_ok_def sample_event_def st_defs)

lemma sample_lin_simps [simp]:
  "sensor_events sample_lin = []" "pending_args sample_lin = []" "self_map sample_lin = [42]"
  by (simp_all add: sample_lin_def)

theorem build_path_writes_path_witness:
  "cstr (snd (build_path (sample_env [] 0 0) sample_lin 4096 8192 (replicate 256 5))) = str ''/a''"
  using build_path_writes_path [OF sample_helpers sample_lin_ok(1) _ _ _ sample_vfs_path,
      of "replicate 256 5" "[]" 0 0]
  by (simp add: sample_path) (simp add: str_def)

theorem stash_take_round_trip_witness:
  "snd (take_args (sample_env [] 77 0) pend_ops (stash (sample_env [] 77 0) pend_ops K_OPEN 1 2 3 4 sample_lin) K_OPEN 5) =
     Some \<lparr>p_kind = K_OPEN, p_pad = 0, p_a = [1, 2, 3, 4], p_uid = 0, p_euid = 0\<rparr>"
  using stash_take_round_trip [OF lru.bpf_map_axioms, of "sample_env [] 77 0" "sample_env [] 77 0" 5
      16384 sample_lin K_OPEN 1 2 3 4 "stash (sample_env [] 77 0) pend_ops K_OPEN 1 2 3 4 sample_lin"]
  by (simp add: lru_ops_def)

lemma take_counts_once_witness:
  "stats (fst (take_args (sample_env [] 77 0) pend_ops sample_lin K_OPEN 5)) 0 = [0, 0, 1, 0, 0, 0]"
proof -
  obtain st' r where t: "take_args (sample_env [] 77 0) pend_ops sample_lin K_OPEN 5 = (st', r)" by fastforce
  have st: "stats sample_lin = (\<lambda>_. [0, 0, 0, 0, 0, 0])"
    by (simp add: sample_lin_def numeral_eq_Suc del: One_nat_def)
  then have "length (stats sample_lin (cpu (sample_env [] 77 0))) = ST_N" by (simp add: ST_N_def)
  from take_counts_once [OF lru.bpf_map_axioms this t]
  obtain i where i: "stats st' = (stats sample_lin)(0 := (stats sample_lin 0)[unat i := stats sample_lin 0 ! unat i + 1])"
    "i = ST_MISSING \<longleftrightarrow> map_lookup_elem pend_ops (pending_args sample_lin) 77 = None"
    by auto
  then have "i = ST_MISSING" by (simp add: lru_ops_def)
  moreover have two: "unat ST_MISSING = Suc (Suc 0)" by (simp add: ST_MISSING_def)
  ultimately have "stats st' 0 = [0, 0, 1, 0, 0, 0]" using i(1) by (simp add: st two)
  then show ?thesis by (simp add: t)
qed

end
