(* ===== verification/Bpf_Tracing.thy ===== *)
theory Bpf_Tracing
  imports Bpf_Core_Read
begin

text \<open>
  \<open>bpf_tracing.h\<close>: which register of a saved \<open>struct pt_regs\<close> holds which
  argument on which architecture, and the macros that turn a raw program
  context into typed arguments. A register is named by the field the header
  names; \<open>__unsupported__\<close> is the name that does not compile.
\<close>

section \<open>Choosing the target\<close>

datatype target =
    X86 | S390 | Arm | Arm64 | Mips | Powerpc | Sparc | Riscv | Arc | Loongarch

text \<open>The macros the header scans, in its order: the build's choice, then the compiler's.\<close>

definition target_macros :: "(string \<times> target) list" where
  "target_macros =
     [(''__TARGET_ARCH_x86'', X86),
      (''__TARGET_ARCH_s390'', S390),
      (''__TARGET_ARCH_arm'', Arm),
      (''__TARGET_ARCH_arm64'', Arm64),
      (''__TARGET_ARCH_mips'', Mips),
      (''__TARGET_ARCH_powerpc'', Powerpc),
      (''__TARGET_ARCH_sparc'', Sparc),
      (''__TARGET_ARCH_riscv'', Riscv),
      (''__TARGET_ARCH_arc'', Arc),
      (''__TARGET_ARCH_loongarch'', Loongarch)]"

definition compiler_macros :: "(string \<times> target) list" where
  "compiler_macros =
     [(''__x86_64__'', X86),
      (''__s390__'', S390),
      (''__arm__'', Arm),
      (''__aarch64__'', Arm64),
      (''__mips__'', Mips),
      (''__powerpc__'', Powerpc),
      (''__sparc__'', Sparc),
      (''__riscv'', Riscv),
      (''__arc__'', Arc),
      (''__loongarch__'', Loongarch)]"

text \<open>\<open>__riscv\<close> counts only together with \<open>__riscv_xlen == 64\<close>, the flag \<open>rv64\<close>.\<close>

definition bpf_target :: "(string \<Rightarrow> bool) \<Rightarrow> bool \<Rightarrow> target option" where
  "bpf_target defd rv64 =
     (case find (\<lambda>(m, t). defd m) target_macros of
        Some (m, t) \<Rightarrow> Some t
      | None \<Rightarrow> map_option snd (find (\<lambda>(m, t). defd m \<and> (t = Riscv \<longrightarrow> rv64)) compiler_macros))"

section \<open>Register tables\<close>

record pt_regs_table =
  pt_cast :: string
  pt_parm :: "string list"
  pt_syscall :: "string list"
  pt_syscall1_cast :: string
  pt_ret :: string
  pt_fp :: string
  pt_rc :: string
  pt_sp :: string
  pt_ip :: string
  pt_has_wrapper :: bool

abbreviation "unsupported \<equiv> ''__unsupported__''"

text \<open>The defaults for arguments an architecture does not pass in registers.\<close>

definition default_parms :: "string list \<Rightarrow> string list" where
  "default_parms rs = rs @ drop (length rs) (replicate 8 unsupported)"

definition default_syscall_parms :: "string list \<Rightarrow> string list" where
  "default_syscall_parms rs = rs @ drop (length rs) (replicate 7 unsupported)"

text \<open>x86 as the kernel's headers and \<open>vmlinux.h\<close> name the registers.\<close>

definition x86_kernel_regs :: pt_regs_table where
  "x86_kernel_regs =
     \<lparr>pt_cast = ''pt_regs'',
      pt_parm = default_parms [''di'', ''si'', ''dx'', ''cx'', ''r8'', ''r9''],
      pt_syscall = default_syscall_parms [''di'', ''si'', ''dx'', ''r10'', ''r8'', ''r9''],
      pt_syscall1_cast = ''pt_regs'',
      pt_ret = ''sp'', pt_fp = ''bp'', pt_rc = ''ax'', pt_sp = ''sp'', pt_ip = ''ip'',
      pt_has_wrapper = True\<rparr>"

definition i386_regs :: pt_regs_table where
  "i386_regs =
     \<lparr>pt_cast = ''pt_regs'',
      pt_parm = default_parms [''eax'', ''edx'', ''ecx''],
      pt_syscall = default_syscall_parms [''ebx'', ''ecx'', ''edx'', ''esi'', ''edi'', ''ebp''],
      pt_syscall1_cast = ''pt_regs'',
      pt_ret = ''esp'', pt_fp = ''ebp'', pt_rc = ''eax'', pt_sp = ''esp'', pt_ip = ''eip'',
      pt_has_wrapper = True\<rparr>"

definition x86_64_user_regs :: pt_regs_table where
  "x86_64_user_regs =
     \<lparr>pt_cast = ''pt_regs'',
      pt_parm = default_parms [''rdi'', ''rsi'', ''rdx'', ''rcx'', ''r8'', ''r9''],
      pt_syscall = default_syscall_parms [''rdi'', ''rsi'', ''rdx'', ''r10'', ''r8'', ''r9''],
      pt_syscall1_cast = ''pt_regs'',
      pt_ret = ''rsp'', pt_fp = ''rbp'', pt_rc = ''rax'', pt_sp = ''rsp'', pt_ip = ''rip'',
      pt_has_wrapper = True\<rparr>"

text \<open>s390 reads the first system call argument from its own flavour of \<open>pt_regs\<close>.\<close>

definition s390_regs :: pt_regs_table where
  "s390_regs =
     \<lparr>pt_cast = ''user_pt_regs'',
      pt_parm = default_parms [''gprs[2]'', ''gprs[3]'', ''gprs[4]'', ''gprs[5]'', ''gprs[6]''],
      pt_syscall = default_syscall_parms
        [''orig_gpr2'', ''gprs[3]'', ''gprs[4]'', ''gprs[5]'', ''gprs[6]'', ''gprs[7]''],
      pt_syscall1_cast = ''pt_regs___s390'',
      pt_ret = ''gprs[14]'', pt_fp = ''gprs[11]'', pt_rc = ''gprs[2]'', pt_sp = ''gprs[15]'',
      pt_ip = ''psw.addr'', pt_has_wrapper = True\<rparr>"

definition arm_regs :: pt_regs_table where
  "arm_regs =
     \<lparr>pt_cast = ''pt_regs'',
      pt_parm = default_parms [''uregs[0]'', ''uregs[1]'', ''uregs[2]'', ''uregs[3]''],
      pt_syscall = default_syscall_parms
        [''uregs[0]'', ''uregs[1]'', ''uregs[2]'', ''uregs[3]'', ''uregs[4]'', ''uregs[5]'', ''uregs[6]''],
      pt_syscall1_cast = ''pt_regs'',
      pt_ret = ''uregs[14]'', pt_fp = ''uregs[11]'', pt_rc = ''uregs[0]'', pt_sp = ''uregs[13]'',
      pt_ip = ''uregs[12]'', pt_has_wrapper = True\<rparr>"

definition arm64_regs :: pt_regs_table where
  "arm64_regs =
     \<lparr>pt_cast = ''user_pt_regs'',
      pt_parm = default_parms
        [''regs[0]'', ''regs[1]'', ''regs[2]'', ''regs[3]'', ''regs[4]'', ''regs[5]'', ''regs[6]'', ''regs[7]''],
      pt_syscall = default_syscall_parms
        [''orig_x0'', ''regs[1]'', ''regs[2]'', ''regs[3]'', ''regs[4]'', ''regs[5]''],
      pt_syscall1_cast = ''pt_regs___arm64'',
      pt_ret = ''regs[30]'', pt_fp = ''regs[29]'', pt_rc = ''regs[0]'', pt_sp = ''sp'', pt_ip = ''pc'',
      pt_has_wrapper = True\<rparr>"

definition mips_regs :: pt_regs_table where
  "mips_regs =
     \<lparr>pt_cast = ''pt_regs'',
      pt_parm = default_parms
        [''regs[4]'', ''regs[5]'', ''regs[6]'', ''regs[7]'', ''regs[8]'', ''regs[9]'', ''regs[10]'', ''regs[11]''],
      pt_syscall = default_syscall_parms
        [''regs[4]'', ''regs[5]'', ''regs[6]'', ''regs[7]'', ''regs[8]'', ''regs[9]''],
      pt_syscall1_cast = ''pt_regs'',
      pt_ret = ''regs[31]'', pt_fp = ''regs[30]'', pt_rc = ''regs[2]'', pt_sp = ''regs[29]'',
      pt_ip = ''cp0_epc'', pt_has_wrapper = True\<rparr>"

text \<open>The flag is \<open>__arch64__\<close>: 32-bit powerpc passes a seventh argument.\<close>

definition powerpc_regs :: "bool \<Rightarrow> pt_regs_table" where
  "powerpc_regs arch64 =
     \<lparr>pt_cast = ''pt_regs'',
      pt_parm = default_parms
        [''gpr[3]'', ''gpr[4]'', ''gpr[5]'', ''gpr[6]'', ''gpr[7]'', ''gpr[8]'', ''gpr[9]'', ''gpr[10]''],
      pt_syscall = default_syscall_parms
        ([''orig_gpr3'', ''gpr[4]'', ''gpr[5]'', ''gpr[6]'', ''gpr[7]'', ''gpr[8]'']
          @ (if arch64 then [] else [''gpr[9]''])),
      pt_syscall1_cast = ''pt_regs'',
      pt_ret = ''regs[31]'', pt_fp = unsupported, pt_rc = ''gpr[3]'', pt_sp = ''gpr[1]'',
      pt_ip = ''nip'', pt_has_wrapper = False\<rparr>"

definition sparc_regs :: "bool \<Rightarrow> pt_regs_table" where
  "sparc_regs arch64 =
     \<lparr>pt_cast = ''pt_regs'',
      pt_parm = default_parms
        [''u_regs[UREG_I0]'', ''u_regs[UREG_I1]'', ''u_regs[UREG_I2]'', ''u_regs[UREG_I3]'',
         ''u_regs[UREG_I4]'', ''u_regs[UREG_I5]''],
      pt_syscall = default_syscall_parms
        [''u_regs[UREG_I0]'', ''u_regs[UREG_I1]'', ''u_regs[UREG_I2]'', ''u_regs[UREG_I3]'',
         ''u_regs[UREG_I4]'', ''u_regs[UREG_I5]''],
      pt_syscall1_cast = ''pt_regs'',
      pt_ret = ''u_regs[UREG_I7]'', pt_fp = unsupported, pt_rc = ''u_regs[UREG_I0]'',
      pt_sp = ''u_regs[UREG_FP]'', pt_ip = (if arch64 then ''tpc'' else ''pc''),
      pt_has_wrapper = True\<rparr>"

definition riscv_regs :: pt_regs_table where
  "riscv_regs =
     \<lparr>pt_cast = ''user_regs_struct'',
      pt_parm = default_parms [''a0'', ''a1'', ''a2'', ''a3'', ''a4'', ''a5'', ''a6'', ''a7''],
      pt_syscall = default_syscall_parms [''orig_a0'', ''a1'', ''a2'', ''a3'', ''a4'', ''a5''],
      pt_syscall1_cast = ''pt_regs___riscv'',
      pt_ret = ''ra'', pt_fp = ''s0'', pt_rc = ''a0'', pt_sp = ''sp'', pt_ip = ''pc'',
      pt_has_wrapper = True\<rparr>"

definition arc_regs :: pt_regs_table where
  "arc_regs =
     \<lparr>pt_cast = ''user_regs_struct'',
      pt_parm = default_parms
        [''scratch.r0'', ''scratch.r1'', ''scratch.r2'', ''scratch.r3'', ''scratch.r4'', ''scratch.r5'',
         ''scratch.r6'', ''scratch.r7''],
      pt_syscall = default_syscall_parms
        [''scratch.r0'', ''scratch.r1'', ''scratch.r2'', ''scratch.r3'', ''scratch.r4'', ''scratch.r5''],
      pt_syscall1_cast = ''user_regs_struct'',
      pt_ret = ''scratch.blink'', pt_fp = ''scratch.fp'', pt_rc = ''scratch.r0'', pt_sp = ''scratch.sp'',
      pt_ip = ''scratch.ret'', pt_has_wrapper = False\<rparr>"

definition loongarch_regs :: pt_regs_table where
  "loongarch_regs =
     \<lparr>pt_cast = ''user_pt_regs'',
      pt_parm = default_parms
        [''regs[4]'', ''regs[5]'', ''regs[6]'', ''regs[7]'', ''regs[8]'', ''regs[9]'', ''regs[10]'', ''regs[11]''],
      pt_syscall = default_syscall_parms
        [''regs[4]'', ''regs[5]'', ''regs[6]'', ''regs[7]'', ''regs[8]'', ''regs[9]''],
      pt_syscall1_cast = ''user_pt_regs'',
      pt_ret = ''regs[1]'', pt_fp = ''regs[22]'', pt_rc = ''regs[4]'', pt_sp = ''regs[3]'',
      pt_ip = ''csr_era'', pt_has_wrapper = False\<rparr>"

text \<open>
  The table in force. \<open>krn\<close> is \<open>__KERNEL__ || __VMLINUX_H__\<close>, \<open>i386\<close> and
  \<open>arch64\<close> are the compiler's \<open>__i386__\<close> and \<open>__arch64__\<close>.
\<close>

definition regs_of :: "bool \<Rightarrow> bool \<Rightarrow> bool \<Rightarrow> target \<Rightarrow> pt_regs_table" where
  "regs_of krn i386 arch64 t =
     (case t of
        X86 \<Rightarrow> if krn then x86_kernel_regs else if i386 then i386_regs else x86_64_user_regs
      | S390 \<Rightarrow> s390_regs
      | Arm \<Rightarrow> arm_regs
      | Arm64 \<Rightarrow> arm64_regs
      | Mips \<Rightarrow> mips_regs
      | Powerpc \<Rightarrow> powerpc_regs arch64
      | Sparc \<Rightarrow> sparc_regs arch64
      | Riscv \<Rightarrow> riscv_regs
      | Arc \<Rightarrow> arc_regs
      | Loongarch \<Rightarrow> loongarch_regs)"

section \<open>Reading registers\<close>

text \<open>
  \<open>None\<close> stands for the compile error of an unsupported register. The direct
  macros read a field of the \<open>pt_regs\<close> at hand, given as a function from field
  names; the \<open>_CORE\<close> ones read memory at the address \<open>x\<close>.
\<close>

definition supported :: "string \<Rightarrow> string option" where
  "supported r = (if r = unsupported then None else Some r)"

definition PT_REGS_PARM :: "pt_regs_table \<Rightarrow> (string \<Rightarrow> u64) \<Rightarrow> nat \<Rightarrow> u64 option" where
  "PT_REGS_PARM t x n = map_option x (supported (pt_parm t ! (n - 1)))"

definition PT_REGS_PARM_CORE :: "'a bpf_env_scheme \<Rightarrow> pt_regs_table \<Rightarrow> u64 \<Rightarrow> nat \<Rightarrow> u64 option" where
  "PT_REGS_PARM_CORE env t x n =
     map_option (\<lambda>r. core_ptr env x [(pt_cast t, r)]) (supported (pt_parm t ! (n - 1)))"

definition PT_REGS_RET :: "pt_regs_table \<Rightarrow> (string \<Rightarrow> u64) \<Rightarrow> u64" where "PT_REGS_RET t x = x (pt_ret t)"
definition PT_REGS_FP :: "pt_regs_table \<Rightarrow> (string \<Rightarrow> u64) \<Rightarrow> u64 option" where
  "PT_REGS_FP t x = map_option x (supported (pt_fp t))"
definition PT_REGS_RC :: "pt_regs_table \<Rightarrow> (string \<Rightarrow> u64) \<Rightarrow> u64" where "PT_REGS_RC t x = x (pt_rc t)"

text \<open>The first system call argument may live in a structure of its own.\<close>

definition PT_REGS_PARM_SYSCALL :: "pt_regs_table \<Rightarrow> (string \<Rightarrow> u64) \<Rightarrow> nat \<Rightarrow> u64 option" where
  "PT_REGS_PARM_SYSCALL t x n = map_option x (supported (pt_syscall t ! (n - 1)))"

definition PT_REGS_PARM_CORE_SYSCALL ::
  "'a bpf_env_scheme \<Rightarrow> pt_regs_table \<Rightarrow> u64 \<Rightarrow> nat \<Rightarrow> u64 option" where
  "PT_REGS_PARM_CORE_SYSCALL env t x n =
     map_option (\<lambda>r. core_ptr env x [(if n = 1 then pt_syscall1_cast t else pt_cast t, r)])
       (supported (pt_syscall t ! (n - 1)))"

text \<open>
  The return address at the entry of a function: from a link register, from
  the saved register, or from the stack; \<open>link\<close> is powerpc's field.
\<close>

definition BPF_KPROBE_READ_RET_IP ::
  "'a bpf_env_scheme \<Rightarrow> target \<Rightarrow> pt_regs_table \<Rightarrow> (string \<Rightarrow> u64) \<Rightarrow> bytes \<Rightarrow> bytes" where
  "BPF_KPROBE_READ_RET_IP env tgt t x ip =
     (if tgt = Powerpc then le_bytes 8 (unat (x ''link''))
      else if tgt = Sparc \<or> tgt = Arm64 then le_bytes 8 (unat (PT_REGS_RET t x))
      else snd (probe_read_kernel env (PT_REGS_RET t x) ip))"

definition BPF_KRETPROBE_READ_RET_IP ::
  "'a bpf_env_scheme \<Rightarrow> target \<Rightarrow> pt_regs_table \<Rightarrow> (string \<Rightarrow> u64) \<Rightarrow> bytes \<Rightarrow> bytes option" where
  "BPF_KRETPROBE_READ_RET_IP env tgt t x ip =
     (if tgt \<in> {Powerpc, Sparc, Arm64} then Some (BPF_KPROBE_READ_RET_IP env tgt t x ip)
      else map_option (\<lambda>fp. snd (probe_read_kernel env (fp + word_of_nat (length ip)) ip)) (PT_REGS_FP t x))"

section \<open>Counting macro arguments\<close>

text \<open>
  \<open>___bpf_nth\<close> picks its 14th argument, \<open>___bpf_nth2\<close> its 26th; the numbers
  pushed along by the arguments then count them.
\<close>

definition bpf_narg :: "'b list \<Rightarrow> nat" where
  "bpf_narg args =
     (map (\<lambda>_. 0) args @ [12, 11, 10, 9, 8, 7, 6, 5, 4, 3, 2, 1, 0]) ! 12"

definition bpf_narg2 :: "'b list \<Rightarrow> nat" where
  "bpf_narg2 args =
     (map (\<lambda>_. 0) args @ [12, 12, 11, 11, 10, 10, 9, 9, 8, 8, 7, 7, 6, 6, 5, 5, 4, 4, 3, 3, 2, 2, 1, 1, 0]) ! 24"

section \<open>Program wrappers\<close>

text \<open>\<open>___bpf_ctx_castN\<close>: the context pointer and its first \<open>N\<close> words.\<close>

fun bpf_ctx_cast :: "u64 \<Rightarrow> u64 list \<Rightarrow> nat \<Rightarrow> u64 list" where
  "bpf_ctx_cast ctxp ctx 0 = [ctxp]"
| "bpf_ctx_cast ctxp ctx (Suc n) = bpf_ctx_cast ctxp ctx n @ [ctx ! n]"

definition BPF_PROG :: "(u64 list \<Rightarrow> int) \<Rightarrow> 'b list \<Rightarrow> u64 \<Rightarrow> u64 list \<Rightarrow> int" where
  "BPF_PROG body params ctxp ctx = body (bpf_ctx_cast ctxp ctx (bpf_narg params))"

text \<open>
  \<open>BPF_PROG2\<close>: arguments of up to 16 bytes, by their sizes. \<open>reg_cnt\<close> counts
  the words a list of them takes; \<open>ctx_arg\<close> hands out the words in order,
  given the number \<open>n\<close> of all of them. A value is the bytes of the union it is read through.
  The ladders of macros end at twelve arguments, and a call with more does not
  compile; the recursions below agree with them up to there and go on beyond.
\<close>

definition bpf_treg_cnt :: "nat \<Rightarrow> nat" where
  "bpf_treg_cnt sz = (if sz = 1 \<or> sz = 2 \<or> sz = 4 \<or> sz = 8 then 1 else if sz = 16 then 2 else 0)"

fun bpf_reg_cnt :: "nat list \<Rightarrow> nat" where
  "bpf_reg_cnt [] = 0"
| "bpf_reg_cnt (t # ts) = bpf_reg_cnt ts + bpf_treg_cnt t"

definition bpf_union_arg :: "nat \<Rightarrow> u64 list \<Rightarrow> nat \<Rightarrow> bytes" where
  "bpf_union_arg sz ctx n =
     (if sz = 1 \<or> sz = 2 \<or> sz = 4 \<or> sz = 8 then le_bytes sz (unat (ctx ! n))
      else if sz = 16 then le_bytes 8 (unat (ctx ! n)) @ le_bytes 8 (unat (ctx ! (n + 1)))
      else [])"

fun bpf_ctx_arg :: "u64 list \<Rightarrow> nat \<Rightarrow> nat list \<Rightarrow> bytes list" where
  "bpf_ctx_arg ctx n [] = []"
| "bpf_ctx_arg ctx n (t # ts) =
     bpf_union_arg t ctx (n - bpf_reg_cnt (t # ts)) # bpf_ctx_arg ctx n ts"

definition BPF_PROG2 :: "(u64 \<Rightarrow> bytes list \<Rightarrow> int) \<Rightarrow> nat list \<Rightarrow> u64 \<Rightarrow> u64 list \<Rightarrow> int" where
  "BPF_PROG2 body sizes ctxp ctx = body ctxp (bpf_ctx_arg ctx (bpf_reg_cnt sizes) sizes)"

text \<open>Kprobe, kretprobe and system call wrappers: the arguments after the context.\<close>

definition bpf_kprobe_args :: "pt_regs_table \<Rightarrow> (string \<Rightarrow> u64) \<Rightarrow> nat \<Rightarrow> u64 option list" where
  "bpf_kprobe_args t x n = map (PT_REGS_PARM t x) [1..<n + 1]"

definition BPF_KPROBE ::
  "(u64 \<Rightarrow> u64 option list \<Rightarrow> int) \<Rightarrow> 'b list \<Rightarrow> pt_regs_table \<Rightarrow> u64 \<Rightarrow> (string \<Rightarrow> u64) \<Rightarrow> int" where
  "BPF_KPROBE body params t ctxp x = body ctxp (bpf_kprobe_args t x (bpf_narg params))"

definition bpf_kretprobe_args :: "pt_regs_table \<Rightarrow> (string \<Rightarrow> u64) \<Rightarrow> nat \<Rightarrow> u64 list" where
  "bpf_kretprobe_args t x n = (if n = 0 then [] else [PT_REGS_RC t x])"

definition BPF_KRETPROBE ::
  "(u64 \<Rightarrow> u64 list \<Rightarrow> int) \<Rightarrow> 'b list \<Rightarrow> pt_regs_table \<Rightarrow> u64 \<Rightarrow> (string \<Rightarrow> u64) \<Rightarrow> int" where
  "BPF_KRETPROBE body params t ctxp x = body ctxp (bpf_kretprobe_args t x (bpf_narg params))"

definition bpf_syscall_args :: "pt_regs_table \<Rightarrow> (string \<Rightarrow> u64) \<Rightarrow> nat \<Rightarrow> u64 option list" where
  "bpf_syscall_args t regs n = map (PT_REGS_PARM_SYSCALL t regs) [1..<n + 1]"

definition bpf_syswrap_args :: "'a bpf_env_scheme \<Rightarrow> pt_regs_table \<Rightarrow> u64 \<Rightarrow> nat \<Rightarrow> u64 option list" where
  "bpf_syswrap_args env t regs n = map (PT_REGS_PARM_CORE_SYSCALL env t regs) [1..<n + 1]"

definition BPF_KSYSCALL ::
  "'a bpf_env_scheme \<Rightarrow> (u64 \<Rightarrow> u64 option list \<Rightarrow> int) \<Rightarrow> 'b list \<Rightarrow> pt_regs_table \<Rightarrow> bool \<Rightarrow> u64 \<Rightarrow>
   (string \<Rightarrow> u64) \<Rightarrow> int option" where
  "BPF_KSYSCALL env body params t wrapper ctxp x =
     (if wrapper
      then map_option (\<lambda>regs. body ctxp (bpf_syswrap_args env t regs (bpf_narg params))) (PT_REGS_PARM t x 1)
      else Some (body ctxp (bpf_syscall_args t x (bpf_narg params))))"

section \<open>Properties\<close>

definition table_ok :: "pt_regs_table \<Rightarrow> bool" where
  "table_ok t \<longleftrightarrow> length (pt_parm t) = 8 \<and> length (pt_syscall t) = 7 \<and>
     distinct (filter (\<lambda>r. supported r \<noteq> None) (pt_parm t)) \<and>
     distinct (filter (\<lambda>r. supported r \<noteq> None) (pt_syscall t)) \<and>
     list_all (\<lambda>r. supported r \<noteq> None) (take 6 (pt_syscall t))"

lemma tables_ok:
  "table_ok x86_kernel_regs" "table_ok i386_regs" "table_ok x86_64_user_regs" "table_ok s390_regs"
  "table_ok arm_regs" "table_ok arm64_regs" "table_ok mips_regs"
  "table_ok (powerpc_regs True)" "table_ok (powerpc_regs False)"
  "table_ok (sparc_regs True)" "table_ok (sparc_regs False)"
  "table_ok riscv_regs" "table_ok arc_regs" "table_ok loongarch_regs"
  by code_simp+

lemma table_ok_regs_of: "table_ok (regs_of k i a t)"
  using tables_ok by (cases t; cases a) (simp_all add: regs_of_def)

text \<open>
  On every architecture no two arguments share a register, neither of a
  function call nor of a system call; every architecture passes eight
  argument slots and at least six system call arguments in registers.
\<close>

lemma argument_registers_distinct:
  "length (pt_parm (regs_of k i a t)) = 8 \<and> length (pt_syscall (regs_of k i a t)) = 7 \<and>
   distinct (filter (\<lambda>r. supported r \<noteq> None) (pt_parm (regs_of k i a t))) \<and>
   distinct (filter (\<lambda>r. supported r \<noteq> None) (pt_syscall (regs_of k i a t))) \<and>
   list_all (\<lambda>r. supported r \<noteq> None) (take 6 (pt_syscall (regs_of k i a t)))"
  using table_ok_regs_of [of k i a t] by (simp add: table_ok_def)

lemma bpf_narg_rev: "bpf_narg args = (map (\<lambda>_. 0) args @ rev [0..<13]) ! 12"
proof -
  have "rev [0..<13] = [12, 11, 10, 9, 8, 7, 6, 5, 4, 3, 2, 1, 0 :: nat]" by code_simp
  then show ?thesis by (simp add: bpf_narg_def)
qed

lemma bpf_narg2_map: "bpf_narg2 args = (map (\<lambda>_. 0) args @ map (\<lambda>j. 12 - j div 2) [0..<25]) ! 24"
proof -
  have "map (\<lambda>j. 12 - j div 2) [0..<25] =
      [12, 12, 11, 11, 10, 10, 9, 9, 8, 8, 7, 7, 6, 6, 5, 5, 4, 4, 3, 3, 2, 2, 1, 1, 0 :: nat]"
    by code_simp
  then show ?thesis by (simp add: bpf_narg2_def)
qed

text \<open>
  The argument counters count: up to twelve arguments, and up to twelve
  pairs of a type and a name; and \<open>BPF_PROG\<close> passes the context and that many words.
\<close>

lemma argument_counts:
  "length args \<le> 12 \<longrightarrow> bpf_narg args = length args \<and>
     bpf_narg2 (args @ args) = length args \<and>
     (length args \<le> length ctx \<longrightarrow>
        BPF_PROG body args ctxp ctx = body (ctxp # take (length args) ctx))"
proof (intro impI)
  assume "length args \<le> 12"
  then have n: "bpf_narg args = length args" "bpf_narg2 (args @ args) = length args"
    by (auto simp: bpf_narg_rev bpf_narg2_map nth_append rev_nth simp del: upt.simps)
  have "n \<le> length ctx \<Longrightarrow> bpf_ctx_cast ctxp ctx n = ctxp # take n ctx" for n
    by (induction n) (simp_all add: take_Suc_conv_app_nth)
  then show "bpf_narg args = length args \<and> bpf_narg2 (args @ args) = length args \<and>
     (length args \<le> length ctx \<longrightarrow>
        BPF_PROG body args ctxp ctx = body (ctxp # take (length args) ctx))"
    using n by (simp add: BPF_PROG_def)
qed

text \<open>
  How the trampoline lays an argument out: in one word, its upper bytes
  arbitrary, or in two for 16 bytes.
\<close>

definition tramp_words :: "bytes \<Rightarrow> bytes \<Rightarrow> u64 list" where
  "tramp_words v pad =
     (if length v = 16 then [le_word (take 8 v), le_word (drop 8 v)] else [le_word (v @ pad)])"

definition tramp_arg :: "bytes \<times> bytes \<Rightarrow> bool" where
  "tramp_arg a \<longleftrightarrow>
     (length (fst a) = 16 \<and> snd a = []) \<or>
     (length (fst a) \<in> {1, 2, 4, 8} \<and> length (snd a) = 8 - length (fst a))"

lemma length_tramp_words: "tramp_arg a \<Longrightarrow> length (tramp_words (fst a) (snd a)) = bpf_treg_cnt (length (fst a))"
  by (auto simp: tramp_arg_def tramp_words_def bpf_treg_cnt_def)

lemma unat_le_word_64: "length bs = 8 \<Longrightarrow> unat (le_word bs :: u64) = le_nat bs"
  using le_nat_bound [of bs] by (simp add: le_word_def unat_of_nat)

lemma le_bytes_prefix: "n \<le> length bs \<Longrightarrow> le_bytes n (le_nat bs) = take n bs"
proof (induction bs arbitrary: n)
  case (Cons b bs)
  have "unat b < 256" using unat_bound [of b] by simp
  then show ?case using Cons by (cases n) simp_all
qed simp

lemma union_arg_tramp:
  assumes "tramp_arg a" and "take (length (tramp_words (fst a) (snd a))) (drop n ctx) = tramp_words (fst a) (snd a)"
  shows "bpf_union_arg (length (fst a)) ctx n = fst a"
proof (cases "length (fst a) = 16")
  case True
  then have w: "take 2 (drop n ctx) = [le_word (take 8 (fst a)), le_word (drop 8 (fst a))]"
    using assms(2) by (simp add: tramp_words_def numeral_2_eq_2)
  then have len: "n + 1 < length ctx" by (cases "n + 1 < length ctx") (auto dest: arg_cong [of _ _ length])
  have "ctx ! n = le_word (take 8 (fst a))" "ctx ! (n + 1) = le_word (drop 8 (fst a))"
    using len arg_cong [OF w, of "\<lambda>l. l ! 0"] arg_cong [OF w, of "\<lambda>l. l ! 1"] by simp_all
  then show ?thesis
    using True by (simp add: bpf_union_arg_def unat_le_word_64 le_bytes_prefix)
next
  case False
  then have v: "length (fst a) \<in> {1, 2, 4, 8}" "length (fst a @ snd a) = 8"
    using assms(1) by (auto simp: tramp_arg_def)
  have w: "take 1 (drop n ctx) = [le_word (fst a @ snd a)]"
    using assms(2) False by (simp add: tramp_words_def)
  then have "n < length ctx" by (cases "n < length ctx") auto
  then have "ctx ! n = le_word (fst a @ snd a)" using arg_cong [OF w, of "\<lambda>l. l ! 0"] by simp
  then have "le_bytes (length (fst a)) (unat (ctx ! n)) = fst a"
    using v(2) by (simp add: unat_le_word_64 le_bytes_prefix)
  moreover have "bpf_union_arg (length (fst a)) ctx n = le_bytes (length (fst a)) (unat (ctx ! n))"
    using v(1) by (auto simp: bpf_union_arg_def)
  ultimately show ?thesis by simp
qed

lemma ctx_arg_tramp:
  assumes "\<forall>a \<in> set as. tramp_arg a"
    and "drop (n - bpf_reg_cnt (map (length \<circ> fst) as)) ctx =
      concat (map (\<lambda>a. tramp_words (fst a) (snd a)) as) @ rest"
    and "bpf_reg_cnt (map (length \<circ> fst) as) \<le> n"
  shows "bpf_ctx_arg ctx n (map (length \<circ> fst) as) = map fst as"
  using assms
proof (induction as)
  case (Cons a as)
  let ?k = "n - bpf_reg_cnt (map (length \<circ> fst) (a # as))"
  let ?w = "tramp_words (fst a) (snd a)"
  have a: "tramp_arg a" using Cons.prems(1) by simp
  have len: "length ?w = bpf_treg_cnt (length (fst a))" by (rule length_tramp_words [OF a])
  have k: "n - bpf_reg_cnt (map (length \<circ> fst) as) = ?k + length ?w"
    using Cons.prems(3) len by (simp add: o_def)
  have d: "drop ?k ctx = ?w @ concat (map (\<lambda>a. tramp_words (fst a) (snd a)) as) @ rest"
    using Cons.prems(2) by (simp add: o_def)
  then have "drop (length ?w) (drop ?k ctx) = concat (map (\<lambda>a. tramp_words (fst a) (snd a)) as) @ rest"
    by simp
  then have "drop (n - bpf_reg_cnt (map (length \<circ> fst) as)) ctx =
      concat (map (\<lambda>a. tramp_words (fst a) (snd a)) as) @ rest"
    unfolding k by (simp add: add.commute)
  then have ih: "bpf_ctx_arg ctx n (map (length \<circ> fst) as) = map fst as"
    using Cons.IH Cons.prems(1,3) by (simp add: o_def)
  have "take (length ?w) (drop ?k ctx) = ?w" unfolding d by simp
  from union_arg_tramp [OF a this] ih show ?case by (simp add: o_def)
qed simp

text \<open>
  C38: \<open>BPF_PROG2\<close> hands its body every argument as the trampoline stored it,
  structures of 16 bytes included, whatever the unused upper bytes hold.
\<close>

theorem prog2_arguments:
  assumes "\<forall>a \<in> set as. tramp_arg a"
  shows "BPF_PROG2 body (map (length \<circ> fst) as) ctxp
      (concat (map (\<lambda>a. tramp_words (fst a) (snd a)) as) @ rest) = body ctxp (map fst as)"
  using ctx_arg_tramp [OF assms, of "bpf_reg_cnt (map (length \<circ> fst) as)" _ rest]
  by (simp add: BPF_PROG2_def)

theorem prog2_arguments_witness:
  "BPF_PROG2 (\<lambda>p vs. if vs = [[7], replicate 16 3, [1, 2]] then 1 else 0) [1, 16, 2] 99
     [le_word [7, 9, 9, 9, 9, 9, 9, 9], le_word (replicate 8 3), le_word (replicate 8 3),
      le_word [1, 2, 8, 8, 8, 8, 8, 8], 5] = 1"
  using prog2_arguments [of "[([7], replicate 7 9), (replicate 16 3, []), ([1, 2], replicate 6 8)]"
      "\<lambda>p vs. if vs = [[7], replicate 16 3, [1, 2]] then 1 else 0" 99 "[5]"]
  by (simp add: tramp_arg_def tramp_words_def numeral_eq_Suc)

end
