(* ===== verification/Linsensor.thy ===== *)
theory Linsensor
  imports Linsensor_State Bpf_Tracing
begin

text \<open>
  \<open>linsensor.bpf.c\<close>, the handlers: what each system call stashes at its entry
  and reports at its exit, the two scheduler tracepoints, and the dispatch
  from \<open>raw_sys_enter\<close>. Handlers that return \<open>int\<close> in the source always
  return 0; here they are their effect on the state.
\<close>

section \<open>Files\<close>

text \<open>The loop over \<open>i\<close> from 11 to 19, over the rounds left.\<close>

fun mem_loop :: "bytes \<Rightarrow> int \<Rightarrow> nat list \<Rightarrow> bool" where
  "mem_loop b n [] = False"
| "mem_loop b n (i # is) =
     (if int i = n - 1
      then b ! (i - 4) = chr CHR ''/'' \<and> b ! (i - 3) = chr CHR ''m'' \<and>
           b ! (i - 2) = chr CHR ''e'' \<and> b ! (i - 1) = chr CHR ''m''
      else mem_loop b n is)"

definition sensitive_read :: "'a bpf_env_scheme \<Rightarrow> u64 \<Rightarrow> bool" where
  "sensitive_read env name =
     (let (n, b) = probe_read_user_str env name (replicate 20 0) in
      if n \<le> 0 then False
      else if b ! 0 = chr CHR ''/'' \<and> b ! 1 = chr CHR ''e'' \<and> b ! 2 = chr CHR ''t'' \<and>
              b ! 3 = chr CHR ''c'' \<and> b ! 4 = chr CHR ''/'' then
        if n = 12 \<and> b ! 5 = chr CHR ''s'' \<and> b ! 6 = chr CHR ''h'' \<and> b ! 7 = chr CHR ''a'' \<and>
           b ! 8 = chr CHR ''d'' \<and> b ! 9 = chr CHR ''o'' \<and> b ! 10 = chr CHR ''w'' then True
        else if n = 13 \<and> b ! 5 = chr CHR ''g'' \<and> b ! 6 = chr CHR ''s'' \<and> b ! 7 = chr CHR ''h'' \<and>
           b ! 8 = chr CHR ''a'' \<and> b ! 9 = chr CHR ''d'' \<and> b ! 10 = chr CHR ''o'' \<and>
           b ! 11 = chr CHR ''w'' then True
        else False
      else if \<not> (b ! 0 = chr CHR ''/'' \<and> b ! 1 = chr CHR ''p'' \<and> b ! 2 = chr CHR ''r'' \<and>
                 b ! 3 = chr CHR ''o'' \<and> b ! 4 = chr CHR ''c'' \<and> b ! 5 = chr CHR ''/'') then False
      else if b ! 6 < chr CHR ''0'' \<or> chr CHR ''9'' < b ! 6 then False
      else mem_loop b n [11..<20])"

definition open_enter ::
  "'a bpf_env_scheme \<Rightarrow> (u64, pending, 'm) map_ops \<Rightarrow> u64 \<Rightarrow> u64 \<Rightarrow> u64 \<Rightarrow> 'm lin_st \<Rightarrow> 'm lin_st" where
  "open_enter env M dfd name flags st =
     (if skip_self env st then st
      else if flags AND (O_WRONLY OR O_RDWR OR O_CREAT OR O_TRUNC) = 0 \<and> \<not> sensitive_read env name then st
      else stash env M K_OPEN dfd name flags 0 st)"

text \<open>The 64-bit value of the \<open>int\<close> constant \<open>AT_FDCWD\<close>.\<close>

definition AT_FDCWD_long :: u64 where "AT_FDCWD_long = scast AT_FDCWD"

definition enter_open ::
  "'a bpf_env_scheme \<Rightarrow> (u64, pending, 'm) map_ops \<Rightarrow> u64 list \<Rightarrow> 'm lin_st \<Rightarrow> 'm lin_st" where
  "enter_open env M args st = open_enter env M AT_FDCWD_long (args ! 0) (args ! 1) st"

definition enter_creat ::
  "'a bpf_env_scheme \<Rightarrow> (u64, pending, 'm) map_ops \<Rightarrow> u64 list \<Rightarrow> 'm lin_st \<Rightarrow> 'm lin_st" where
  "enter_creat env M args st =
     open_enter env M AT_FDCWD_long (args ! 0) (O_CREAT OR O_WRONLY OR O_TRUNC) st"

definition open_exit ::
  "'a bpf_env_scheme \<Rightarrow> (u64, pending, 'm) map_ops \<Rightarrow> sensor_event option \<Rightarrow> u64 \<Rightarrow> 'm lin_st \<Rightarrow> 'm lin_st" where
  "open_exit env M slot ret st =
     (case take_args env M st K_OPEN ret of (st, None) \<Rightarrow> st
      | (st, Some p) \<Rightarrow>
        (case reserve env slot st K_OPEN of (st, None) \<Rightarrow> st
         | (st, Some ev) \<Rightarrow>
           let ev = ev\<lparr>se_ret := ret, se_dfd := ucast (p_a p ! 0), se_arg0 := p_a p ! 2\<rparr>;
               ev = ev\<lparr>se_path := snd (probe_read_user_str env (p_a p ! 1) (se_path ev))\<rparr>;
               (st, ev) = (if se_path ev ! 0 \<noteq> chr CHR ''/''
                           then (let (st, dir) = dir_of env st (se_dfd ev) (se_dir ev) in (st, ev\<lparr>se_dir := dir\<rparr>))
                           else (st, ev))
           in submit ev st))"

definition rename_enter ::
  "'a bpf_env_scheme \<Rightarrow> (u64, pending, 'm) map_ops \<Rightarrow> u64 \<Rightarrow> u64 \<Rightarrow> u64 \<Rightarrow> u64 \<Rightarrow> 'm lin_st \<Rightarrow> 'm lin_st" where
  "rename_enter env M olddfd old newdfd new st =
     (if skip_self env st then st else stash env M K_RENAME olddfd old newdfd new st)"

definition enter_rename ::
  "'a bpf_env_scheme \<Rightarrow> (u64, pending, 'm) map_ops \<Rightarrow> u64 list \<Rightarrow> 'm lin_st \<Rightarrow> 'm lin_st" where
  "enter_rename env M args st = rename_enter env M AT_FDCWD_long (args ! 0) AT_FDCWD_long (args ! 1) st"

definition rename_exit ::
  "'a bpf_env_scheme \<Rightarrow> (u64, pending, 'm) map_ops \<Rightarrow> sensor_event option \<Rightarrow> u64 \<Rightarrow> 'm lin_st \<Rightarrow> 'm lin_st" where
  "rename_exit env M slot ret st =
     (case take_args env M st K_RENAME ret of (st, None) \<Rightarrow> st
      | (st, Some p) \<Rightarrow>
        (case reserve env slot st K_RENAME of (st, None) \<Rightarrow> st
         | (st, Some ev) \<Rightarrow>
           let ev = ev\<lparr>se_ret := ret, se_dfd := ucast (p_a p ! 0), se_dfd2 := ucast (p_a p ! 2)\<rparr>;
               ev = ev\<lparr>se_path := snd (probe_read_user_str env (p_a p ! 1) (se_path ev))\<rparr>;
               (st, ev) = (if se_path ev ! 0 \<noteq> chr CHR ''/''
                           then (let (st, dir) = dir_of env st (se_dfd ev) (se_dir ev) in (st, ev\<lparr>se_dir := dir\<rparr>))
                           else (st, ev));
               ev = ev\<lparr>se_path2 := snd (probe_read_user_str env (p_a p ! 3) (se_path2 ev))\<rparr>;
               (st, ev) = (if se_path2 ev ! 0 \<noteq> chr CHR ''/''
                           then (let (st, dir) = dir_of env st (se_dfd2 ev) (se_dir2 ev) in (st, ev\<lparr>se_dir2 := dir\<rparr>))
                           else (st, ev))
           in submit ev st))"

definition unlink_enter ::
  "'a bpf_env_scheme \<Rightarrow> (u64, pending, 'm) map_ops \<Rightarrow> u64 \<Rightarrow> u64 \<Rightarrow> u64 \<Rightarrow> 'm lin_st \<Rightarrow> 'm lin_st" where
  "unlink_enter env M dfd name flags st =
     (if skip_self env st then st else stash env M K_UNLINK dfd name flags 0 st)"

definition enter_unlink ::
  "'a bpf_env_scheme \<Rightarrow> (u64, pending, 'm) map_ops \<Rightarrow> u64 list \<Rightarrow> 'm lin_st \<Rightarrow> 'm lin_st" where
  "enter_unlink env M args st = unlink_enter env M AT_FDCWD_long (args ! 0) 0 st"

definition AT_REMOVEDIR :: u64 where "AT_REMOVEDIR = 0x200"

definition enter_rmdir ::
  "'a bpf_env_scheme \<Rightarrow> (u64, pending, 'm) map_ops \<Rightarrow> u64 list \<Rightarrow> 'm lin_st \<Rightarrow> 'm lin_st" where
  "enter_rmdir env M args st = unlink_enter env M AT_FDCWD_long (args ! 0) AT_REMOVEDIR st"

definition unlink_exit ::
  "'a bpf_env_scheme \<Rightarrow> (u64, pending, 'm) map_ops \<Rightarrow> sensor_event option \<Rightarrow> u64 \<Rightarrow> 'm lin_st \<Rightarrow> 'm lin_st" where
  "unlink_exit env M slot ret st =
     (case take_args env M st K_UNLINK ret of (st, None) \<Rightarrow> st
      | (st, Some p) \<Rightarrow>
        (case reserve env slot st K_UNLINK of (st, None) \<Rightarrow> st
         | (st, Some ev) \<Rightarrow>
           let ev = ev\<lparr>se_ret := ret, se_dfd := ucast (p_a p ! 0), se_arg0 := p_a p ! 2\<rparr>;
               ev = ev\<lparr>se_path := snd (probe_read_user_str env (p_a p ! 1) (se_path ev))\<rparr>;
               (st, ev) = (if se_path ev ! 0 \<noteq> chr CHR ''/''
                           then (let (st, dir) = dir_of env st (se_dfd ev) (se_dir ev) in (st, ev\<lparr>se_dir := dir\<rparr>))
                           else (st, ev))
           in submit ev st))"

section \<open>Kernel modules\<close>

definition exit_init_module ::
  "'a bpf_env_scheme \<Rightarrow> (u64, pending, 'm) map_ops \<Rightarrow> sensor_event option \<Rightarrow> u64 \<Rightarrow> 'm lin_st \<Rightarrow> 'm lin_st" where
  "exit_init_module env M slot ret st =
     (case take_args env M st K_MODULE_INIT ret of (st, None) \<Rightarrow> st
      | (st, Some p) \<Rightarrow>
        (case reserve env slot st K_MODULE_INIT of (st, None) \<Rightarrow> st
         | (st, Some ev) \<Rightarrow>
           submit (ev\<lparr>se_arg0 := p_a p ! 0,
                      se_path2 := snd (probe_read_user_str env (p_a p ! 1) (se_path2 ev))\<rparr>) st))"

definition exit_finit_module ::
  "'a bpf_env_scheme \<Rightarrow> (u64, pending, 'm) map_ops \<Rightarrow> sensor_event option \<Rightarrow> u64 \<Rightarrow> 'm lin_st \<Rightarrow> 'm lin_st" where
  "exit_finit_module env M slot ret st =
     (case take_args env M st K_MODULE_FINIT ret of (st, None) \<Rightarrow> st
      | (st, Some p) \<Rightarrow>
        (case reserve env slot st K_MODULE_FINIT of (st, None) \<Rightarrow> st
         | (st, Some ev) \<Rightarrow>
           let ev = ev\<lparr>se_dfd := ucast (p_a p ! 0), se_arg0 := p_a p ! 2\<rparr>;
               f = fd_file env (ucast (p_a p ! 0));
               (st, path) =
                 (if f \<noteq> 0
                  then build_path env st (core_ptr env f [(''file'', ''f_path.dentry'')])
                         (core_ptr env f [(''file'', ''f_path.mnt'')]) (se_path ev)
                  else (st, se_path ev));
               ev = ev\<lparr>se_path := path\<rparr>
           in submit (ev\<lparr>se_path2 := snd (probe_read_user_str env (p_a p ! 1) (se_path2 ev))\<rparr>) st))"

definition enter_delete_module ::
  "'a bpf_env_scheme \<Rightarrow> (u64, pending, 'm) map_ops \<Rightarrow> u64 list \<Rightarrow> 'm lin_st \<Rightarrow> 'm lin_st" where
  "enter_delete_module env M args st = stash env M K_MODULE_DELETE (args ! 0) (args ! 1) 0 0 st"

definition exit_delete_module ::
  "'a bpf_env_scheme \<Rightarrow> (u64, pending, 'm) map_ops \<Rightarrow> sensor_event option \<Rightarrow> u64 \<Rightarrow> 'm lin_st \<Rightarrow> 'm lin_st" where
  "exit_delete_module env M slot ret st =
     (case take_args env M st K_MODULE_DELETE ret of (st, None) \<Rightarrow> st
      | (st, Some p) \<Rightarrow>
        (case reserve env slot st K_MODULE_DELETE of (st, None) \<Rightarrow> st
         | (st, Some ev) \<Rightarrow>
           submit (ev\<lparr>se_arg0 := p_a p ! 1,
                      se_path := snd (probe_read_user_str env (p_a p ! 0) (se_path ev))\<rparr>) st))"

section \<open>Ptrace and another process's memory\<close>

definition PTRACE_POKETEXT :: u64 where "PTRACE_POKETEXT = 4"
definition PTRACE_POKEDATA :: u64 where "PTRACE_POKEDATA = 5"
definition PTRACE_POKEUSER :: u64 where "PTRACE_POKEUSER = 6"
definition PTRACE_SETREGS :: u64 where "PTRACE_SETREGS = 13"
definition PTRACE_ATTACH :: u64 where "PTRACE_ATTACH = 16"
definition PTRACE_SEIZE :: u64 where "PTRACE_SEIZE = 0x4206"

definition enter_ptrace ::
  "'a bpf_env_scheme \<Rightarrow> (u64, pending, 'm) map_ops \<Rightarrow> u64 list \<Rightarrow> 'm lin_st \<Rightarrow> 'm lin_st" where
  "enter_ptrace env M args st =
     (let req = args ! 0 in
      if req \<noteq> PTRACE_ATTACH \<and> req \<noteq> PTRACE_SEIZE \<and> req \<noteq> PTRACE_POKETEXT \<and>
         req \<noteq> PTRACE_POKEDATA \<and> req \<noteq> PTRACE_POKEUSER \<and> req \<noteq> PTRACE_SETREGS then st
      else if skip_self env st then st
      else stash env M K_PTRACE req (args ! 1) (args ! 2) 0 st)"

definition exit_ptrace ::
  "'a bpf_env_scheme \<Rightarrow> (u64, pending, 'm) map_ops \<Rightarrow> sensor_event option \<Rightarrow> u64 \<Rightarrow> 'm lin_st \<Rightarrow> 'm lin_st" where
  "exit_ptrace env M slot ret st =
     (case take_args env M st K_PTRACE ret of (st, None) \<Rightarrow> st
      | (st, Some p) \<Rightarrow>
        (case reserve env slot st K_PTRACE of (st, None) \<Rightarrow> st
         | (st, Some ev) \<Rightarrow>
           submit (ev\<lparr>se_arg0 := p_a p ! 0, se_arg1 := p_a p ! 1, se_arg2 := p_a p ! 2\<rparr>) st))"

definition enter_vm_access ::
  "'a bpf_env_scheme \<Rightarrow> (u64, pending, 'm) map_ops \<Rightarrow> u64 list \<Rightarrow> u64 \<Rightarrow> 'm lin_st \<Rightarrow> 'm lin_st" where
  "enter_vm_access env M args write st =
     (if skip_self env st then st
      else let target = (ucast (args ! 0) :: u32) in
        if target = ucast (drop_bit 32 (current_pid_tgid env)) then st
        else stash env M K_VM_ACCESS (ucast target) write 0 0 st)"

definition exit_vm_access ::
  "'a bpf_env_scheme \<Rightarrow> (u64, pending, 'm) map_ops \<Rightarrow> sensor_event option \<Rightarrow> u64 \<Rightarrow> 'm lin_st \<Rightarrow> 'm lin_st" where
  "exit_vm_access env M slot ret st =
     (case take_args env M st K_VM_ACCESS ret of (st, None) \<Rightarrow> st
      | (st, Some p) \<Rightarrow>
        (case reserve env slot st K_VM_ACCESS of (st, None) \<Rightarrow> st
         | (st, Some ev) \<Rightarrow>
           submit (ev\<lparr>se_arg0 := p_a p ! 0, se_arg1 := p_a p ! 1, se_ret := ret\<rparr>) st))"

section \<open>Privilege gain\<close>

definition setid_enter ::
  "'a bpf_env_scheme \<Rightarrow> (u64, pending, 'm) map_ops \<Rightarrow> u64 \<Rightarrow> u32 \<Rightarrow> u32 \<Rightarrow> u32 \<Rightarrow> nat \<Rightarrow> 'm lin_st \<Rightarrow> 'm lin_st" where
  "setid_enter env M which a b c n st =
     (if (ucast (current_uid_gid env) :: u32) = 0 then st
      else
        let to_root = (a = 0 \<or> (1 < n \<and> b = 0) \<or> (2 < n \<and> c = 0)) in
        if \<not> to_root then st
        else
          let p = \<lparr>p_kind = K_SETID, p_pad = 0, p_a = [which, ucast a, ucast b, ucast c],
                   p_uid = ucast (current_uid_gid env),
                   p_euid = core_u32 env (current_task env) [(''task_struct'', ''cred''), (''cred'', ''euid.val'')]\<rparr>
          in st\<lparr>pending_args :=
                  snd (map_update_elem M (pending_args st) (current_pid_tgid env) p BPF_ANY)\<rparr>)"

definition enter_setuid ::
  "'a bpf_env_scheme \<Rightarrow> (u64, pending, 'm) map_ops \<Rightarrow> u64 list \<Rightarrow> 'm lin_st \<Rightarrow> 'm lin_st" where
  "enter_setuid env M args st = setid_enter env M ID_SETUID (ucast (args ! 0)) 0 0 1 st"

definition enter_setreuid ::
  "'a bpf_env_scheme \<Rightarrow> (u64, pending, 'm) map_ops \<Rightarrow> u64 list \<Rightarrow> 'm lin_st \<Rightarrow> 'm lin_st" where
  "enter_setreuid env M args st =
     setid_enter env M ID_SETREUID (ucast (args ! 0)) (ucast (args ! 1)) 0 2 st"

definition enter_setresuid ::
  "'a bpf_env_scheme \<Rightarrow> (u64, pending, 'm) map_ops \<Rightarrow> u64 list \<Rightarrow> 'm lin_st \<Rightarrow> 'm lin_st" where
  "enter_setresuid env M args st =
     setid_enter env M ID_SETRESUID (ucast (args ! 0)) (ucast (args ! 1)) (ucast (args ! 2)) 3 st"

definition enter_setgid ::
  "'a bpf_env_scheme \<Rightarrow> (u64, pending, 'm) map_ops \<Rightarrow> u64 list \<Rightarrow> 'm lin_st \<Rightarrow> 'm lin_st" where
  "enter_setgid env M args st = setid_enter env M ID_SETGID (ucast (args ! 0)) 0 0 1 st"

definition enter_setregid ::
  "'a bpf_env_scheme \<Rightarrow> (u64, pending, 'm) map_ops \<Rightarrow> u64 list \<Rightarrow> 'm lin_st \<Rightarrow> 'm lin_st" where
  "enter_setregid env M args st =
     setid_enter env M ID_SETREGID (ucast (args ! 0)) (ucast (args ! 1)) 0 2 st"

definition enter_setresgid ::
  "'a bpf_env_scheme \<Rightarrow> (u64, pending, 'm) map_ops \<Rightarrow> u64 list \<Rightarrow> 'm lin_st \<Rightarrow> 'm lin_st" where
  "enter_setresgid env M args st =
     setid_enter env M ID_SETRESGID (ucast (args ! 0)) (ucast (args ! 1)) (ucast (args ! 2)) 3 st"

definition setid_exit ::
  "'a bpf_env_scheme \<Rightarrow> (u64, pending, 'm) map_ops \<Rightarrow> sensor_event option \<Rightarrow> u64 \<Rightarrow> 'm lin_st \<Rightarrow> 'm lin_st" where
  "setid_exit env M slot ret st =
     (case take_args env M st K_SETID ret of (st, None) \<Rightarrow> st
      | (st, Some p) \<Rightarrow>
        (case reserve env slot st K_SETID of (st, None) \<Rightarrow> st
         | (st, Some ev) \<Rightarrow>
           submit (ev\<lparr>se_arg0 := p_a p ! 0, se_arg1 := p_a p ! 1 OR push_bit 32 (p_a p ! 2),
                      se_arg2 := p_a p ! 3, se_uid := p_uid p, se_euid := p_euid p\<rparr>) st))"

text \<open>\<open>data\<close> holds the three 32-bit words of \<open>__user_cap_data_struct\<close>.\<close>

definition enter_capset ::
  "'a bpf_env_scheme \<Rightarrow> (u64, pending, 'm) map_ops \<Rightarrow> u64 list \<Rightarrow> 'm lin_st \<Rightarrow> 'm lin_st" where
  "enter_capset env M args st =
     (if (ucast (current_uid_gid env) :: u32) = 0 then st
      else
        let (r, data) = probe_read_user env (args ! 1) (replicate 12 0) in
        if r < 0 then st
        else
          let effective = (le_word (take 4 data) :: u32); permitted = (le_word (take 4 (drop 4 data)) :: u32) in
          if effective = 0 then st
          else stash env M K_CAPSET (ucast effective) (ucast permitted) 0 0 st)"

definition exit_capset ::
  "'a bpf_env_scheme \<Rightarrow> (u64, pending, 'm) map_ops \<Rightarrow> sensor_event option \<Rightarrow> u64 \<Rightarrow> 'm lin_st \<Rightarrow> 'm lin_st" where
  "exit_capset env M slot ret st =
     (case take_args env M st K_CAPSET ret of (st, None) \<Rightarrow> st
      | (st, Some p) \<Rightarrow>
        (case reserve env slot st K_CAPSET of (st, None) \<Rightarrow> st
         | (st, Some ev) \<Rightarrow> submit (ev\<lparr>se_arg0 := p_a p ! 0, se_arg1 := p_a p ! 1\<rparr>) st))"

section \<open>Memory files, exec and exit\<close>

definition enter_memfd_create ::
  "'a bpf_env_scheme \<Rightarrow> (u64, pending, 'm) map_ops \<Rightarrow> u64 list \<Rightarrow> 'm lin_st \<Rightarrow> 'm lin_st" where
  "enter_memfd_create env M args st =
     (if skip_self env st then st else stash env M K_MEMFD (args ! 0) (args ! 1) 0 0 st)"

definition exit_memfd_create ::
  "'a bpf_env_scheme \<Rightarrow> (u64, pending, 'm) map_ops \<Rightarrow> sensor_event option \<Rightarrow> u64 \<Rightarrow> 'm lin_st \<Rightarrow> 'm lin_st" where
  "exit_memfd_create env M slot ret st =
     (case take_args env M st K_MEMFD ret of (st, None) \<Rightarrow> st
      | (st, Some p) \<Rightarrow>
        (case reserve env slot st K_MEMFD of (st, None) \<Rightarrow> st
         | (st, Some ev) \<Rightarrow>
           submit (ev\<lparr>se_ret := ret, se_arg0 := p_a p ! 1,
                      se_path := snd (probe_read_user_str env (p_a p ! 0) (se_path ev))\<rparr>) st))"

text \<open>\<open>ctx\<close> is the address of the tracepoint record, \<open>data_loc\<close> its \<open>__data_loc_filename\<close>.\<close>

definition handle_exec ::
  "'a bpf_env_scheme \<Rightarrow> sensor_event option \<Rightarrow> u64 \<Rightarrow> u32 \<Rightarrow> 'm lin_st \<Rightarrow> 'm lin_st" where
  "handle_exec env slot ctx data_loc st =
     (if skip_self env st then st
      else
        let task = current_task env;
            exe = core_ptr env task [(''task_struct'', ''mm''), (''mm_struct'', ''exe_file'')];
            nlink = core_u32 env exe [(''file'', ''f_inode''), (''inode'', ''__i_nlink'')];
            name = core_ptr env exe [(''file'', ''f_path.dentry''), (''dentry'', ''d_name.name'')];
            head = snd (probe_read_kernel env name (replicate 6 0));
            memfd = (head ! 0 = chr CHR ''m'' \<and> head ! 1 = chr CHR ''e'' \<and> head ! 2 = chr CHR ''m'' \<and>
                     head ! 3 = chr CHR ''f'' \<and> head ! 4 = chr CHR ''d'' \<and> head ! 5 = chr CHR '':'')
        in case reserve env slot st (if memfd \<or> nlink = 0 then K_FILELESS_EXEC else K_EXEC) of
             (st, None) \<Rightarrow> st
           | (st, Some ev) \<Rightarrow>
             let ev = ev\<lparr>se_arg0 := ucast nlink\<rparr>;
                 (st, path) = build_path env st (core_ptr env exe [(''file'', ''f_path.dentry'')])
                                (core_ptr env exe [(''file'', ''f_path.mnt'')]) (se_path ev);
                 ev = ev\<lparr>se_path := path\<rparr>;
                 loc = data_loc AND 0xFFFF
             in submit (ev\<lparr>se_path2 := snd (probe_read_kernel_str env (ctx + ucast loc) (se_path2 ev))\<rparr>) st)"

text \<open>\<open>exit_code\<close> is an \<open>int\<close>: it is sign-extended into the record.\<close>

definition handle_exit ::
  "'a bpf_env_scheme \<Rightarrow> sensor_event option \<Rightarrow> 'm lin_st \<Rightarrow> 'm lin_st" where
  "handle_exit env slot st =
     (let pid_tgid = current_pid_tgid env in
      if ucast (ucast pid_tgid :: u32) \<noteq> drop_bit 32 pid_tgid \<or> skip_self env st then st
      else
        let task = current_task env in
        case reserve env slot st K_EXIT of (st, None) \<Rightarrow> st
        | (st, Some ev) \<Rightarrow>
            submit (ev\<lparr>se_arg0 := scast (core_u32 env task [(''task_struct'', ''exit_code'')])\<rparr>) st)"

section \<open>Dispatch by system call number\<close>

datatype syscall =
    Openat | Unlinkat | Renameat | Renameat2 | Init_module | Finit_module | Prctl
  | Open | Creat | Rename | Unlink | Rmdir | Delete_module | Ptrace
  | Setuid | Setreuid | Setresuid | Setgid | Setregid | Setresgid
  | Capset | Memfd_create | Process_vm_readv | Process_vm_writev

text \<open>The labels of both \<open>switch\<close> statements, in the order of the first.\<close>

definition syscalls :: "syscall list" where
  "syscalls =
     [Openat, Unlinkat, Renameat, Renameat2, Init_module, Finit_module, Prctl,
      Open, Creat, Rename, Unlink, Rmdir, Delete_module, Ptrace,
      Setuid, Setreuid, Setresuid, Setgid, Setregid, Setresgid,
      Capset, Memfd_create, Process_vm_readv, Process_vm_writev]"

fun nr_arm64 :: "syscall \<Rightarrow> u64" where
  "nr_arm64 Openat = 56"
| "nr_arm64 Unlinkat = 35"
| "nr_arm64 Renameat = 38"
| "nr_arm64 Renameat2 = 276"
| "nr_arm64 Init_module = 105"
| "nr_arm64 Finit_module = 273"
| "nr_arm64 Prctl = 167"
| "nr_arm64 Open = - 2"
| "nr_arm64 Creat = - 3"
| "nr_arm64 Rename = - 4"
| "nr_arm64 Unlink = - 5"
| "nr_arm64 Rmdir = - 6"
| "nr_arm64 Delete_module = 106"
| "nr_arm64 Ptrace = 117"
| "nr_arm64 Setuid = 146"
| "nr_arm64 Setreuid = 145"
| "nr_arm64 Setresuid = 147"
| "nr_arm64 Setgid = 144"
| "nr_arm64 Setregid = 143"
| "nr_arm64 Setresgid = 149"
| "nr_arm64 Capset = 91"
| "nr_arm64 Memfd_create = 279"
| "nr_arm64 Process_vm_readv = 270"
| "nr_arm64 Process_vm_writev = 271"

fun nr_x86 :: "syscall \<Rightarrow> u64" where
  "nr_x86 Openat = 257"
| "nr_x86 Unlinkat = 263"
| "nr_x86 Renameat = 264"
| "nr_x86 Renameat2 = 316"
| "nr_x86 Init_module = 175"
| "nr_x86 Finit_module = 313"
| "nr_x86 Prctl = 157"
| "nr_x86 Open = 2"
| "nr_x86 Creat = 85"
| "nr_x86 Rename = 82"
| "nr_x86 Unlink = 87"
| "nr_x86 Rmdir = 84"
| "nr_x86 Delete_module = 176"
| "nr_x86 Ptrace = 101"
| "nr_x86 Setuid = 105"
| "nr_x86 Setreuid = 113"
| "nr_x86 Setresuid = 117"
| "nr_x86 Setgid = 106"
| "nr_x86 Setregid = 114"
| "nr_x86 Setresgid = 119"
| "nr_x86 Capset = 126"
| "nr_x86 Memfd_create = 319"
| "nr_x86 Process_vm_readv = 310"
| "nr_x86 Process_vm_writev = 311"

definition syscall_of :: "bool \<Rightarrow> u64 \<Rightarrow> syscall option" where
  "syscall_of arm64 nr = find (\<lambda>s. (if arm64 then nr_arm64 s else nr_x86 s) = nr) syscalls"

text \<open>The second \<open>switch\<close>, given its case.\<close>

fun enter_syscall ::
  "'a bpf_env_scheme \<Rightarrow> (u64, pending, 'm) map_ops \<Rightarrow> syscall \<Rightarrow> u64 list \<Rightarrow> 'm lin_st \<Rightarrow> 'm lin_st" where
  "enter_syscall env M Openat a st = open_enter env M (a ! 0) (a ! 1) (a ! 2) st"
| "enter_syscall env M Unlinkat a st = unlink_enter env M (a ! 0) (a ! 1) (a ! 2) st"
| "enter_syscall env M Renameat a st = rename_enter env M (a ! 0) (a ! 1) (a ! 2) (a ! 3) st"
| "enter_syscall env M Renameat2 a st = rename_enter env M (a ! 0) (a ! 1) (a ! 2) (a ! 3) st"
| "enter_syscall env M Init_module a st = stash env M K_MODULE_INIT (a ! 1) (a ! 2) 0 0 st"
| "enter_syscall env M Finit_module a st = stash env M K_MODULE_FINIT (a ! 0) (a ! 1) (a ! 2) 0 st"
| "enter_syscall env M Prctl a st = enter_prctl env st a"
| "enter_syscall env M Open a st = enter_open env M a st"
| "enter_syscall env M Creat a st = enter_creat env M a st"
| "enter_syscall env M Rename a st = enter_rename env M a st"
| "enter_syscall env M Unlink a st = enter_unlink env M a st"
| "enter_syscall env M Rmdir a st = enter_rmdir env M a st"
| "enter_syscall env M Delete_module a st = enter_delete_module env M a st"
| "enter_syscall env M Ptrace a st = enter_ptrace env M a st"
| "enter_syscall env M Setuid a st = enter_setuid env M a st"
| "enter_syscall env M Setreuid a st = enter_setreuid env M a st"
| "enter_syscall env M Setresuid a st = enter_setresuid env M a st"
| "enter_syscall env M Setgid a st = enter_setgid env M a st"
| "enter_syscall env M Setregid a st = enter_setregid env M a st"
| "enter_syscall env M Setresgid a st = enter_setresgid env M a st"
| "enter_syscall env M Capset a st = enter_capset env M a st"
| "enter_syscall env M Memfd_create a st = enter_memfd_create env M a st"
| "enter_syscall env M Process_vm_readv a st = enter_vm_access env M a 0 st"
| "enter_syscall env M Process_vm_writev a st = enter_vm_access env M a 1 st"

text \<open>The four arguments, from the saved registers at address \<open>regs\<close>.\<close>

definition syscall_regs :: "'a bpf_env_scheme \<Rightarrow> bool \<Rightarrow> u64 \<Rightarrow> u64 list" where
  "syscall_regs env arm64 regs =
     (if arm64 then
        [core_ptr env regs [(''pt_regs___siem'', ''regs[0]'')],
         core_ptr env regs [(''pt_regs___siem'', ''regs[1]'')],
         core_ptr env regs [(''pt_regs___siem'', ''regs[2]'')],
         core_ptr env regs [(''pt_regs___siem'', ''regs[3]'')]]
      else map (\<lambda>n. the (PT_REGS_PARM_CORE_SYSCALL env x86_kernel_regs regs n)) [1, 2, 3, 4])"

definition raw_sys_enter ::
  "'a bpf_env_scheme \<Rightarrow> (u64, pending, 'm) map_ops \<Rightarrow> bool \<Rightarrow> u64 list \<Rightarrow> 'm lin_st \<Rightarrow> 'm lin_st" where
  "raw_sys_enter env M arm64 args st =
     (case syscall_of arm64 (args ! 1) of None \<Rightarrow> st
      | Some s \<Rightarrow> enter_syscall env M s (syscall_regs env arm64 (args ! 0)) st)"

section \<open>The exit tracepoints\<close>

text \<open>Programs of one line: calls that share their effect share its function.\<close>

definition exit_openat ::
  "'a bpf_env_scheme \<Rightarrow> (u64, pending, 'm) map_ops \<Rightarrow> sensor_event option \<Rightarrow> u64 \<Rightarrow> 'm lin_st \<Rightarrow> 'm lin_st" where
  "exit_openat env M slot ret st = open_exit env M slot ret st"

definition exit_open ::
  "'a bpf_env_scheme \<Rightarrow> (u64, pending, 'm) map_ops \<Rightarrow> sensor_event option \<Rightarrow> u64 \<Rightarrow> 'm lin_st \<Rightarrow> 'm lin_st" where
  "exit_open env M slot ret st = open_exit env M slot ret st"

definition exit_creat ::
  "'a bpf_env_scheme \<Rightarrow> (u64, pending, 'm) map_ops \<Rightarrow> sensor_event option \<Rightarrow> u64 \<Rightarrow> 'm lin_st \<Rightarrow> 'm lin_st" where
  "exit_creat env M slot ret st = open_exit env M slot ret st"

definition exit_renameat ::
  "'a bpf_env_scheme \<Rightarrow> (u64, pending, 'm) map_ops \<Rightarrow> sensor_event option \<Rightarrow> u64 \<Rightarrow> 'm lin_st \<Rightarrow> 'm lin_st" where
  "exit_renameat env M slot ret st = rename_exit env M slot ret st"

definition exit_renameat2 ::
  "'a bpf_env_scheme \<Rightarrow> (u64, pending, 'm) map_ops \<Rightarrow> sensor_event option \<Rightarrow> u64 \<Rightarrow> 'm lin_st \<Rightarrow> 'm lin_st" where
  "exit_renameat2 env M slot ret st = rename_exit env M slot ret st"

definition exit_rename ::
  "'a bpf_env_scheme \<Rightarrow> (u64, pending, 'm) map_ops \<Rightarrow> sensor_event option \<Rightarrow> u64 \<Rightarrow> 'm lin_st \<Rightarrow> 'm lin_st" where
  "exit_rename env M slot ret st = rename_exit env M slot ret st"

definition exit_unlinkat ::
  "'a bpf_env_scheme \<Rightarrow> (u64, pending, 'm) map_ops \<Rightarrow> sensor_event option \<Rightarrow> u64 \<Rightarrow> 'm lin_st \<Rightarrow> 'm lin_st" where
  "exit_unlinkat env M slot ret st = unlink_exit env M slot ret st"

definition exit_unlink ::
  "'a bpf_env_scheme \<Rightarrow> (u64, pending, 'm) map_ops \<Rightarrow> sensor_event option \<Rightarrow> u64 \<Rightarrow> 'm lin_st \<Rightarrow> 'm lin_st" where
  "exit_unlink env M slot ret st = unlink_exit env M slot ret st"

definition exit_rmdir ::
  "'a bpf_env_scheme \<Rightarrow> (u64, pending, 'm) map_ops \<Rightarrow> sensor_event option \<Rightarrow> u64 \<Rightarrow> 'm lin_st \<Rightarrow> 'm lin_st" where
  "exit_rmdir env M slot ret st = unlink_exit env M slot ret st"

definition exit_process_vm_readv ::
  "'a bpf_env_scheme \<Rightarrow> (u64, pending, 'm) map_ops \<Rightarrow> sensor_event option \<Rightarrow> u64 \<Rightarrow> 'm lin_st \<Rightarrow> 'm lin_st" where
  "exit_process_vm_readv env M slot ret st = exit_vm_access env M slot ret st"

definition exit_process_vm_writev ::
  "'a bpf_env_scheme \<Rightarrow> (u64, pending, 'm) map_ops \<Rightarrow> sensor_event option \<Rightarrow> u64 \<Rightarrow> 'm lin_st \<Rightarrow> 'm lin_st" where
  "exit_process_vm_writev env M slot ret st = exit_vm_access env M slot ret st"

definition exit_setuid ::
  "'a bpf_env_scheme \<Rightarrow> (u64, pending, 'm) map_ops \<Rightarrow> sensor_event option \<Rightarrow> u64 \<Rightarrow> 'm lin_st \<Rightarrow> 'm lin_st" where
  "exit_setuid env M slot ret st = setid_exit env M slot ret st"

definition exit_setreuid ::
  "'a bpf_env_scheme \<Rightarrow> (u64, pending, 'm) map_ops \<Rightarrow> sensor_event option \<Rightarrow> u64 \<Rightarrow> 'm lin_st \<Rightarrow> 'm lin_st" where
  "exit_setreuid env M slot ret st = setid_exit env M slot ret st"

definition exit_setresuid ::
  "'a bpf_env_scheme \<Rightarrow> (u64, pending, 'm) map_ops \<Rightarrow> sensor_event option \<Rightarrow> u64 \<Rightarrow> 'm lin_st \<Rightarrow> 'm lin_st" where
  "exit_setresuid env M slot ret st = setid_exit env M slot ret st"

definition exit_setgid ::
  "'a bpf_env_scheme \<Rightarrow> (u64, pending, 'm) map_ops \<Rightarrow> sensor_event option \<Rightarrow> u64 \<Rightarrow> 'm lin_st \<Rightarrow> 'm lin_st" where
  "exit_setgid env M slot ret st = setid_exit env M slot ret st"

definition exit_setregid ::
  "'a bpf_env_scheme \<Rightarrow> (u64, pending, 'm) map_ops \<Rightarrow> sensor_event option \<Rightarrow> u64 \<Rightarrow> 'm lin_st \<Rightarrow> 'm lin_st" where
  "exit_setregid env M slot ret st = setid_exit env M slot ret st"

definition exit_setresgid ::
  "'a bpf_env_scheme \<Rightarrow> (u64, pending, 'm) map_ops \<Rightarrow> sensor_event option \<Rightarrow> u64 \<Rightarrow> 'm lin_st \<Rightarrow> 'm lin_st" where
  "exit_setresgid env M slot ret st = setid_exit env M slot ret st"

lemmas exit_wrappers [simp] = exit_openat_def exit_open_def exit_creat_def exit_renameat_def exit_renameat2_def
  exit_rename_def exit_unlinkat_def exit_unlink_def exit_rmdir_def exit_process_vm_readv_def
  exit_process_vm_writev_def exit_setuid_def exit_setreuid_def exit_setresuid_def exit_setgid_def
  exit_setregid_def exit_setresgid_def

text \<open>The exit program attached to each system call's tracepoint.\<close>

fun exit_syscall ::
  "'a bpf_env_scheme \<Rightarrow> (u64, pending, 'm) map_ops \<Rightarrow> sensor_event option \<Rightarrow> syscall \<Rightarrow> u64 \<Rightarrow> 'm lin_st \<Rightarrow> 'm lin_st" where
  "exit_syscall env M slot Openat ret st = exit_openat env M slot ret st"
| "exit_syscall env M slot Open ret st = exit_open env M slot ret st"
| "exit_syscall env M slot Creat ret st = exit_creat env M slot ret st"
| "exit_syscall env M slot Renameat ret st = exit_renameat env M slot ret st"
| "exit_syscall env M slot Renameat2 ret st = exit_renameat2 env M slot ret st"
| "exit_syscall env M slot Rename ret st = exit_rename env M slot ret st"
| "exit_syscall env M slot Unlinkat ret st = exit_unlinkat env M slot ret st"
| "exit_syscall env M slot Unlink ret st = exit_unlink env M slot ret st"
| "exit_syscall env M slot Rmdir ret st = exit_rmdir env M slot ret st"
| "exit_syscall env M slot Init_module ret st = exit_init_module env M slot ret st"
| "exit_syscall env M slot Finit_module ret st = exit_finit_module env M slot ret st"
| "exit_syscall env M slot Delete_module ret st = exit_delete_module env M slot ret st"
| "exit_syscall env M slot Ptrace ret st = exit_ptrace env M slot ret st"
| "exit_syscall env M slot Process_vm_readv ret st = exit_process_vm_readv env M slot ret st"
| "exit_syscall env M slot Process_vm_writev ret st = exit_process_vm_writev env M slot ret st"
| "exit_syscall env M slot Setuid ret st = exit_setuid env M slot ret st"
| "exit_syscall env M slot Setreuid ret st = exit_setreuid env M slot ret st"
| "exit_syscall env M slot Setresuid ret st = exit_setresuid env M slot ret st"
| "exit_syscall env M slot Setgid ret st = exit_setgid env M slot ret st"
| "exit_syscall env M slot Setregid ret st = exit_setregid env M slot ret st"
| "exit_syscall env M slot Setresgid ret st = exit_setresgid env M slot ret st"
| "exit_syscall env M slot Capset ret st = exit_capset env M slot ret st"
| "exit_syscall env M slot Memfd_create ret st = exit_memfd_create env M slot ret st"
| "exit_syscall env M slot Prctl ret st = st"

end
