(* ===== verification/Linsensor_Runs.thy ===== *)
theory Linsensor_Runs
  imports Linsensor
begin

text \<open>
  Runs of the host sensor: any interleaving of the programs of
  \<open>linsensor.bpf.c\<close>, each in any environment that keeps the helpers'
  contracts, on any processor and for any thread. Every program is shown to
  have one of two shapes, an entry that may stash arguments or an exit that
  may submit a record; the invariants follow from the shapes.
\<close>

section \<open>The shape of an entry\<close>

text \<open>The kinds whose entries do not ask whether the caller is the agent.\<close>

definition unguarded :: "u32 \<Rightarrow> bool" where
  "unguarded k \<longleftrightarrow> k \<in> {K_MODULE_INIT, K_MODULE_FINIT, K_MODULE_DELETE, K_SETID, K_CAPSET}"

definition enter_effect ::
  "'a bpf_env_scheme \<Rightarrow> (u64, pending, 'm) map_ops \<Rightarrow> 'm lin_st \<Rightarrow> 'm lin_st \<Rightarrow> bool" where
  "enter_effect env M st st' \<longleftrightarrow>
     sensor_events st' = sensor_events st \<and> path_scratch st' = path_scratch st \<and> drops st' = drops st \<and>
     (\<forall>c. length (stats st' c) = length (stats st c)) \<and>
     (self_map st' = self_map st \<or>
        (pending_args st' = pending_args st \<and> self_map st' = arr_store (self_map st) 0 (self_map st' ! 0) \<and>
         arr_lookup (self_map st) 0 = Some 0)) \<and>
     (pending_args st' = pending_args st \<or>
        (\<exists>p. pending_args st' = snd (map_update_elem M (pending_args st) (current_pid_tgid env) p BPF_ANY) \<and>
             (unguarded (p_kind p) \<or> \<not> skip_self env st)))"

lemma enter_effect_refl: "enter_effect env M st st"
  by (simp add: enter_effect_def)

lemma enter_effect_stash:
  "unguarded k \<or> \<not> skip_self env st \<Longrightarrow> enter_effect env M st (stash env M k a b c d st)"
  unfolding enter_effect_def pending_stash
  by (auto simp: pending_stash intro!: exI [of _ "\<lparr>p_kind = k, p_pad = 0, p_a = [a, b, c, d], p_uid = 0, p_euid = 0\<rparr>"])

lemma enter_effect_setid: "enter_effect env M st (setid_enter env M w a b c n st)"
  unfolding setid_enter_def Let_def
  by (auto simp: enter_effect_def unguarded_def intro!: exI [of _ "\<lparr>p_kind = K_SETID, p_pad = 0,
        p_a = [w, ucast a, ucast b, ucast c], p_uid = ucast (current_uid_gid env),
        p_euid = core_u32 env (current_task env) [(''task_struct'', ''cred''), (''cred'', ''euid.val'')]\<rparr>"])

lemma enter_effect_prctl: "enter_effect env M st (enter_prctl env st a)"
  by (auto simp: enter_prctl_def enter_effect_def arr_lookup_def arr_store_def split: option.split if_splits)

lemma enter_effect_open: "enter_effect env M st (open_enter env M d n f st)"
  by (simp add: open_enter_def enter_effect_refl enter_effect_stash)

lemma enter_effect_rename: "enter_effect env M st (rename_enter env M a b c d st)"
  by (simp add: rename_enter_def enter_effect_refl enter_effect_stash)

lemma enter_effect_unlink: "enter_effect env M st (unlink_enter env M a b c st)"
  by (simp add: unlink_enter_def enter_effect_refl enter_effect_stash)

lemma enter_effect_syscall: "enter_effect env M st (enter_syscall env M s a st)"
  by (cases s)
    (simp_all add: enter_effect_refl enter_effect_stash enter_effect_setid enter_effect_prctl
      enter_effect_open enter_effect_rename enter_effect_unlink unguarded_def
      enter_open_def enter_creat_def enter_rename_def enter_unlink_def enter_rmdir_def
      enter_delete_module_def enter_ptrace_def enter_vm_access_def enter_setuid_def enter_setreuid_def
      enter_setresuid_def enter_setgid_def enter_setregid_def enter_setresgid_def enter_capset_def
      enter_memfd_create_def Let_def split: prod.split)

lemma raw_sys_enter_effect: "enter_effect env M st (raw_sys_enter env M arm64 args st)"
  by (simp add: raw_sys_enter_def enter_effect_refl enter_effect_syscall split: option.split)

section \<open>The shape of an exit\<close>

definition submits ::
  "'a bpf_env_scheme \<Rightarrow> sensor_event option \<Rightarrow> u32 \<Rightarrow> 'm lin_st \<Rightarrow> 'm lin_st \<Rightarrow> bool" where
  "submits env slot k st st' \<longleftrightarrow>
     (slot = None \<and> st' = fst (reserve env None st k)) \<or>
     (\<exists>ev e st2. reserve env slot st k = (st, Some ev) \<and> only_scratch st st2 \<and>
        st' = submit e st2 \<and> se_kind e = k \<and> se_tgid e = se_tgid ev \<and>
        (lin_ok st \<longrightarrow> event_ok ev \<longrightarrow> lin_ok st2 \<and> event_ok e))"

definition exit_effect ::
  "'a bpf_env_scheme \<Rightarrow> (u64, pending, 'm) map_ops \<Rightarrow> sensor_event option \<Rightarrow> u32 \<Rightarrow> u64 \<Rightarrow> 'm lin_st \<Rightarrow> 'm lin_st \<Rightarrow> bool" where
  "exit_effect env M slot k ret st st' \<longleftrightarrow>
     (case take_args env M st k ret of (st1, None) \<Rightarrow> st' = st1
      | (st1, Some p) \<Rightarrow> submits env slot k st1 st')"

lemma reserve_cases:
  obtains (full) "slot = None" "reserve env slot st k = (fst (reserve env None st k), None)"
  | (room) ev where "reserve env slot st k = (st, Some ev)" "se_kind ev = k"
proof (cases slot)
  case None
  then show ?thesis using full by (simp add: reserve_def split: option.split)
next
  case (Some e)
  then show ?thesis using room by (simp add: reserve_def Let_def)
qed

lemma only_scratch_refl: "only_scratch st st"
  by (simp add: only_scratch_def)

lemma only_scratch_trans: "only_scratch a b \<Longrightarrow> only_scratch b c \<Longrightarrow> only_scratch a c"
  by (simp add: only_scratch_def)

lemma submitsI:
  assumes "reserve env slot st k = (st, Some ev)" and "se_kind e = k" and "se_tgid e = se_tgid ev"
    and "only_scratch st st2" and "lin_ok st \<Longrightarrow> event_ok ev \<Longrightarrow> lin_ok st2 \<and> event_ok e"
  shows "submits env slot k st (submit e st2)"
  using assms unfolding submits_def by blast

context bpf_helpers
begin

lemma user_str_256: "length d = PATH_LEN \<Longrightarrow> length (snd (probe_read_user_str env a d)) = PATH_LEN"
  using user_str_length [of d a] by simp

lemma kernel_str_256: "length d = PATH_LEN \<Longrightarrow> length (snd (probe_read_kernel_str env a d)) = PATH_LEN"
  using kernel_str_result [of d a] by (simp add: str_result_def)

end

lemma exit_effectI:
  assumes "\<And>st1. take_args env M st k ret = (st1, None) \<Longrightarrow> st' = st1"
    and "\<And>st1 p. take_args env M st k ret = (st1, Some p) \<Longrightarrow>
      reserve env slot st1 k = (fst (reserve env None st1 k), None) \<Longrightarrow> st' = fst (reserve env None st1 k)"
    and "\<And>st1 p ev. take_args env M st k ret = (st1, Some p) \<Longrightarrow>
      reserve env slot st1 k = (st1, Some ev) \<Longrightarrow> se_kind ev = k \<Longrightarrow> submits env slot k st1 st'"
  shows "exit_effect env M slot k ret st st'"
proof -
  obtain st1 p where t: "take_args env M st k ret = (st1, p)" by fastforce
  show ?thesis
  proof (cases p)
    case None
    then show ?thesis using assms(1) t by (simp add: exit_effect_def)
  next
    case (Some q)
    then have t': "take_args env M st k ret = (st1, Some q)" using t by simp
    then show ?thesis
      using assms(2) [OF t'] assms(3) [OF t']
      by (cases rule: reserve_cases [of slot env st1 k]) (auto simp: exit_effect_def submits_def)
  qed
qed

context bpf_helpers
begin

lemma simple_submit:
  assumes "reserve env slot st k = (st, Some ev)" and "se_kind e = se_kind ev" and "se_tgid e = se_tgid ev"
    and "se_kind ev = k" and "event_ok ev \<Longrightarrow> event_ok e"
  shows "submits env slot k st (submit e st)"
  by (rule submitsI [OF assms(1)]) (use assms in \<open>auto simp: only_scratch_refl\<close>)

lemma init_module_effect: "exit_effect env M slot K_MODULE_INIT ret st (exit_init_module env M slot ret st)"
  by (rule exit_effectI)
    (auto simp: exit_init_module_def event_ok_def user_str_256 intro!: simple_submit)

lemma delete_module_effect: "exit_effect env M slot K_MODULE_DELETE ret st (exit_delete_module env M slot ret st)"
  by (rule exit_effectI)
    (auto simp: exit_delete_module_def event_ok_def user_str_256 intro!: simple_submit)

lemma ptrace_effect: "exit_effect env M slot K_PTRACE ret st (exit_ptrace env M slot ret st)"
  by (rule exit_effectI) (auto simp: exit_ptrace_def event_ok_def intro!: simple_submit)

lemma vm_access_effect: "exit_effect env M slot K_VM_ACCESS ret st (exit_vm_access env M slot ret st)"
  by (rule exit_effectI) (auto simp: exit_vm_access_def event_ok_def intro!: simple_submit)

lemma setid_effect: "exit_effect env M slot K_SETID ret st (setid_exit env M slot ret st)"
  by (rule exit_effectI) (auto simp: setid_exit_def event_ok_def intro!: simple_submit)

lemma capset_effect: "exit_effect env M slot K_CAPSET ret st (exit_capset env M slot ret st)"
  by (rule exit_effectI) (auto simp: exit_capset_def event_ok_def intro!: simple_submit)

lemma memfd_effect: "exit_effect env M slot K_MEMFD ret st (exit_memfd_create env M slot ret st)"
  by (rule exit_effectI)
    (auto simp: exit_memfd_create_def event_ok_def user_str_256 intro!: simple_submit)

text \<open>A record with a path, and its directory when the path is relative.\<close>

lemma dir_result:
  assumes "dir_of env st dfd d = (st', dir)"
  shows "only_scratch st st'" and "lin_ok st \<Longrightarrow> length d = PATH_LEN \<Longrightarrow> lin_ok st' \<and> length dir = PATH_LEN"
  using dir_of_only [of st env dfd d] dir_of_ok [of st d dfd] assms by auto

lemma event_ok_dir: "event_ok e \<Longrightarrow> length (se_dir e) = PATH_LEN \<and> length (se_dir2 e) = PATH_LEN"
  by (simp add: event_ok_def)

lemma open_effect: "exit_effect env M slot K_OPEN ret st (open_exit env M slot ret st)"
proof (rule exit_effectI)
  fix st1 p ev
  assume t: "take_args env M st K_OPEN ret = (st1, Some p)"
    and r: "reserve env slot st1 K_OPEN = (st1, Some ev)" and k: "se_kind ev = K_OPEN"
  obtain st2 dir where d: "dir_of env st1 (ucast (p_a p ! 0)) (se_dir ev) = (st2, dir)" by fastforce
  show "submits env slot K_OPEN st1 (open_exit env M slot ret st)"
    using dir_result [OF d] k
    by (simp add: open_exit_def t r d Let_def)
      (auto simp: event_ok_def user_str_256 only_scratch_refl intro!: submitsI [OF r])
qed (simp_all add: open_exit_def)

lemma unlink_effect: "exit_effect env M slot K_UNLINK ret st (unlink_exit env M slot ret st)"
proof (rule exit_effectI)
  fix st1 p ev
  assume t: "take_args env M st K_UNLINK ret = (st1, Some p)"
    and r: "reserve env slot st1 K_UNLINK = (st1, Some ev)" and k: "se_kind ev = K_UNLINK"
  obtain st2 dir where d: "dir_of env st1 (ucast (p_a p ! 0)) (se_dir ev) = (st2, dir)" by fastforce
  show "submits env slot K_UNLINK st1 (unlink_exit env M slot ret st)"
    using dir_result [OF d] k
    by (simp add: unlink_exit_def t r d Let_def)
      (auto simp: event_ok_def user_str_256 only_scratch_refl intro!: submitsI [OF r])
qed (simp_all add: unlink_exit_def)

lemma rename_effect: "exit_effect env M slot K_RENAME ret st (rename_exit env M slot ret st)"
proof (rule exit_effectI)
  fix st1 p ev
  assume t: "take_args env M st K_RENAME ret = (st1, Some p)"
    and r: "reserve env slot st1 K_RENAME = (st1, Some ev)" and k: "se_kind ev = K_RENAME"
  let ?dfd = "ucast (p_a p ! 0)" and ?dfd2 = "ucast (p_a p ! 2)"
  let ?path = "snd (probe_read_user_str env (p_a p ! 1) (se_path ev))"
  let ?path2 = "snd (probe_read_user_str env (p_a p ! 3) (se_path2 ev))"
  define st2 where "st2 = (if ?path ! 0 \<noteq> chr CHR ''/'' then fst (dir_of env st1 ?dfd (se_dir ev)) else st1)"
  define dir where "dir = (if ?path ! 0 \<noteq> chr CHR ''/'' then snd (dir_of env st1 ?dfd (se_dir ev)) else se_dir ev)"
  define st3 where "st3 = (if ?path2 ! 0 \<noteq> chr CHR ''/'' then fst (dir_of env st2 ?dfd2 (se_dir2 ev)) else st2)"
  define dir2 where "dir2 = (if ?path2 ! 0 \<noteq> chr CHR ''/'' then snd (dir_of env st2 ?dfd2 (se_dir2 ev)) else se_dir2 ev)"
  have eq: "rename_exit env M slot ret st = submit (ev\<lparr>se_ret := ret, se_dfd := ?dfd, se_dfd2 := ?dfd2,
      se_path := ?path, se_dir := dir, se_path2 := ?path2, se_dir2 := dir2\<rparr>) st3"
    by (cases "?path ! 0 = chr CHR ''/''"; cases "?path2 ! 0 = chr CHR ''/''")
      (simp_all add: rename_exit_def t r Let_def st2_def dir_def st3_def dir2_def split_beta)
  have s2: "only_scratch st1 st2" "lin_ok st1 \<Longrightarrow> length (se_dir ev) = PATH_LEN \<Longrightarrow> lin_ok st2 \<and> length dir = PATH_LEN"
    using dir_result [of st1 ?dfd "se_dir ev" st2 dir]
    by (auto simp: st2_def dir_def only_scratch_refl dir_of_only dir_of_ok)
  have s3: "only_scratch st2 st3" "lin_ok st2 \<Longrightarrow> length (se_dir2 ev) = PATH_LEN \<Longrightarrow> lin_ok st3 \<and> length dir2 = PATH_LEN"
    by (auto simp: st3_def dir2_def only_scratch_refl dir_of_only dir_of_ok)
  show "submits env slot K_RENAME st1 (rename_exit env M slot ret st)"
    unfolding eq
    by (rule submitsI [OF r _ _ only_scratch_trans [OF s2(1) s3(1)]])
      (use s2(2) s3(2) k in \<open>auto simp: event_ok_def user_str_256\<close>)
qed (simp_all add: rename_exit_def)

lemma finit_module_effect: "exit_effect env M slot K_MODULE_FINIT ret st (exit_finit_module env M slot ret st)"
proof (rule exit_effectI)
  fix st1 p ev
  assume t: "take_args env M st K_MODULE_FINIT ret = (st1, Some p)"
    and r: "reserve env slot st1 K_MODULE_FINIT = (st1, Some ev)" and k: "se_kind ev = K_MODULE_FINIT"
  let ?f = "fd_file env (ucast (p_a p ! 0))"
  let ?b = "build_path env st1 (core_ptr env ?f [(''file'', ''f_path.dentry'')])
              (core_ptr env ?f [(''file'', ''f_path.mnt'')]) (se_path ev)"
  define st2 where "st2 = (if ?f \<noteq> 0 then fst ?b else st1)"
  define path where "path = (if ?f \<noteq> 0 then snd ?b else se_path ev)"
  have eq: "exit_finit_module env M slot ret st =
      submit (ev\<lparr>se_dfd := ucast (p_a p ! 0), se_arg0 := p_a p ! 2, se_path := path,
        se_path2 := snd (probe_read_user_str env (p_a p ! 1) (se_path2 ev))\<rparr>) st2"
    by (simp add: exit_finit_module_def t r Let_def st2_def path_def split: prod.split)
  have s2: "only_scratch st1 st2" "lin_ok st1 \<Longrightarrow> length (se_path ev) = PATH_LEN \<Longrightarrow> lin_ok st2 \<and> length path = PATH_LEN"
    by (auto simp: st2_def path_def only_scratch_refl build_path_only build_path_ok)
  show "submits env slot K_MODULE_FINIT st1 (exit_finit_module env M slot ret st)"
    unfolding eq
    by (rule submitsI [OF r _ _ s2(1)]) (use s2(2) k in \<open>auto simp: event_ok_def user_str_256\<close>)
qed (simp_all add: exit_finit_module_def)

text \<open>The two scheduler programs submit without a stashed entry.\<close>

lemma exec_submits:
  assumes "\<not> skip_self env st"
  shows "\<exists>k \<in> {K_EXEC, K_FILELESS_EXEC}. submits env slot k st (handle_exec env slot ctx loc st)"
proof -
  define exe where "exe = core_ptr env (current_task env) [(''task_struct'', ''mm''), (''mm_struct'', ''exe_file'')]"
  define nlink where "nlink = core_u32 env exe [(''file'', ''f_inode''), (''inode'', ''__i_nlink'')]"
  define head where "head = snd (probe_read_kernel env
      (core_ptr env exe [(''file'', ''f_path.dentry''), (''dentry'', ''d_name.name'')]) (replicate 6 0))"
  define k where "k = (if (head ! 0 = chr CHR ''m'' \<and> head ! 1 = chr CHR ''e'' \<and> head ! 2 = chr CHR ''m'' \<and>
      head ! 3 = chr CHR ''f'' \<and> head ! 4 = chr CHR ''d'' \<and> head ! 5 = chr CHR '':'') \<or> nlink = 0
      then K_FILELESS_EXEC else K_EXEC)"
  have eq: "handle_exec env slot ctx loc st =
     (case reserve env slot st k of (st, None) \<Rightarrow> st
      | (st', Some ev) \<Rightarrow> submit (ev\<lparr>se_arg0 := ucast nlink, se_path := snd (build_path env st'
            (core_ptr env exe [(''file'', ''f_path.dentry'')]) (core_ptr env exe [(''file'', ''f_path.mnt'')]) (se_path ev)),
          se_path2 := snd (probe_read_kernel_str env (ctx + ucast (loc AND 0xFFFF)) (se_path2 ev))\<rparr>)
          (fst (build_path env st' (core_ptr env exe [(''file'', ''f_path.dentry'')])
              (core_ptr env exe [(''file'', ''f_path.mnt'')]) (se_path ev))))"
    using assms
    by (simp only: handle_exec_def Let_def exe_def [symmetric] nlink_def [symmetric] head_def [symmetric]
        k_def [symmetric] if_False) (simp split: option.split prod.split)
  have "submits env slot k st (handle_exec env slot ctx loc st)"
  proof (cases rule: reserve_cases [of slot env st k])
    case full
    then obtain st1 where "slot = None" "reserve env None st k = (st1, None)" by metis
    then show ?thesis unfolding eq by (simp add: submits_def)
  next
    case (room ev)
    show ?thesis
      unfolding eq room(1) prod.case option.case
      by (rule submitsI [OF room(1)]) (auto simp: room(2) build_path_only build_path_ok event_ok_def kernel_str_256)
  qed
  moreover have "k \<in> {K_EXEC, K_FILELESS_EXEC}" by (simp add: k_def)
  ultimately show ?thesis by blast
qed

lemma exec_effect:
  "handle_exec env slot ctx loc st = st \<or>
   (\<not> skip_self env st \<and>
    (\<exists>k \<in> {K_EXEC, K_FILELESS_EXEC}. submits env slot k st (handle_exec env slot ctx loc st)))"
  using exec_submits [of st slot ctx loc] by (cases "skip_self env st") (simp_all add: handle_exec_def)

text \<open>A process exits when its leader does: thread and process number agree.\<close>

lemma exit_process_submits:
  assumes "ucast (ucast (current_pid_tgid env) :: u32) = drop_bit 32 (current_pid_tgid env)"
    and "\<not> skip_self env st"
  shows "submits env slot K_EXIT st (handle_exit env slot st)"
proof (cases rule: reserve_cases [of slot env st K_EXIT])
  case full
  then obtain st1 where "slot = None" "reserve env None st K_EXIT = (st1, None)" by metis
  then show ?thesis using assms by (simp add: handle_exit_def submits_def Let_def)
next
  case (room ev)
  have "submits env slot K_EXIT st (submit (ev\<lparr>se_arg0 := a\<rparr>) st)" for a
    by (rule simple_submit [OF room(1)]) (simp_all add: room(2) event_ok_def)
  then show ?thesis using assms by (simp add: handle_exit_def room(1) Let_def)
qed

lemma exit_process_effect:
  "handle_exit env slot st = st \<or>
   (\<not> skip_self env st \<and> submits env slot K_EXIT st (handle_exit env slot st))"
  using exit_process_submits [of st slot] by (auto simp: handle_exit_def Let_def)

end

section \<open>Runs\<close>

text \<open>The kind an exit program takes.\<close>

fun exit_kind :: "syscall \<Rightarrow> u32" where
  "exit_kind Openat = K_OPEN" | "exit_kind Open = K_OPEN" | "exit_kind Creat = K_OPEN"
| "exit_kind Renameat = K_RENAME" | "exit_kind Renameat2 = K_RENAME" | "exit_kind Rename = K_RENAME"
| "exit_kind Unlinkat = K_UNLINK" | "exit_kind Unlink = K_UNLINK" | "exit_kind Rmdir = K_UNLINK"
| "exit_kind Init_module = K_MODULE_INIT" | "exit_kind Finit_module = K_MODULE_FINIT"
| "exit_kind Delete_module = K_MODULE_DELETE" | "exit_kind Ptrace = K_PTRACE"
| "exit_kind Process_vm_readv = K_VM_ACCESS" | "exit_kind Process_vm_writev = K_VM_ACCESS"
| "exit_kind Capset = K_CAPSET" | "exit_kind Memfd_create = K_MEMFD"
| "exit_kind s = K_SETID"

lemma exit_syscall_effect:
  "bpf_helpers env \<Longrightarrow> s \<noteq> Prctl \<Longrightarrow>
     exit_effect env M slot (exit_kind s) ret st (exit_syscall env M slot s ret st)"
  by (cases s) (simp_all add: bpf_helpers.open_effect bpf_helpers.rename_effect bpf_helpers.unlink_effect
      bpf_helpers.init_module_effect bpf_helpers.finit_module_effect bpf_helpers.delete_module_effect
      bpf_helpers.ptrace_effect bpf_helpers.vm_access_effect bpf_helpers.setid_effect
      bpf_helpers.capset_effect bpf_helpers.memfd_effect)

inductive lin_step :: "(u64, pending, 'm) map_ops \<Rightarrow> 'm lin_st \<Rightarrow> 'm lin_st \<Rightarrow> bool" for M where
  enter: "bpf_helpers (env :: bpf_env) \<Longrightarrow> lin_step M st (raw_sys_enter env M arm64 args st)"
| exit: "bpf_helpers (env :: bpf_env) \<Longrightarrow> (\<And>ev. slot = Some ev \<Longrightarrow> event_ok ev) \<Longrightarrow>
    lin_step M st (exit_syscall env M slot s ret st)"
| exec: "bpf_helpers (env :: bpf_env) \<Longrightarrow> (\<And>ev. slot = Some ev \<Longrightarrow> event_ok ev) \<Longrightarrow>
    lin_step M st (handle_exec env slot ctx loc st)"
| exit_process: "bpf_helpers (env :: bpf_env) \<Longrightarrow> (\<And>ev. slot = Some ev \<Longrightarrow> event_ok ev) \<Longrightarrow>
    lin_step M st (handle_exit env slot st)"

inductive lin_run :: "(u64, pending, 'm) map_ops \<Rightarrow> 'm lin_st \<Rightarrow> 'm lin_st \<Rightarrow> bool" for M where
  start: "lin_run M st st"
| more: "lin_run M st st' \<Longrightarrow> lin_step M st' st'' \<Longrightarrow> lin_run M st st''"

section \<open>Exactly the successful calls are reported\<close>

text \<open>Whether the exit finds what the call's entry stashed, and the call succeeded.\<close>

definition taken :: "'a bpf_env_scheme \<Rightarrow> (u64, pending, 'm) map_ops \<Rightarrow> 'm lin_st \<Rightarrow> u32 \<Rightarrow> u64 \<Rightarrow> bool" where
  "taken env M st k ret \<longleftrightarrow> 0 \<le> sint ret \<and>
     (case map_lookup_elem M (pending_args st) (current_pid_tgid env) of None \<Rightarrow> False | Some p \<Rightarrow> p_kind p = k)"

lemma take_taken:
  assumes "lin_ok st" and "take_args env M st k ret = (st1, r)"
  shows "(r \<noteq> None) = taken env M st k ret" "lin_ok st1" "sensor_events st1 = sensor_events st" "drops st1 = drops st"
    "stats st1 (cpu env) ! 1 = stats st (cpu env) ! 1 + (if taken env M st k ret then 1 else 0)"
proof -
  have len: "length (stats st (cpu env)) = 6" using assms(1) by (simp add: lin_ok_def ST_N_def)
  have c: "stats (count env i st) (cpu env) ! 1 = stats st (cpu env) ! 1 + (if i = ST_TAKE_OK then 1 else 0)"
    if "i \<in> {ST_TAKE_OK, ST_MISSING, ST_KIND, ST_FAILED}" for i
    using that len by (auto simp: count_stats st_defs)
  show "(r \<noteq> None) = taken env M st k ret"
    using assms(2) by (cases "map_lookup_elem M (pending_args st) (current_pid_tgid env)"; cases r)
      (auto simp: take_args_def taken_def Let_def split: if_splits)
  have "\<exists>i \<in> {ST_TAKE_OK, ST_MISSING, ST_KIND, ST_FAILED}.
      stats st1 = stats (count env i st) \<and> (i = ST_TAKE_OK) = taken env M st k ret"
  proof (cases "map_lookup_elem M (pending_args st) (current_pid_tgid env)")
    case None
    then show ?thesis using assms(2) by (auto simp: take_args_def taken_def st_defs)
  next
    case (Some p)
    then have "stats st1 = stats (count env (if taken env M st k ret then ST_TAKE_OK
        else if p_kind p \<noteq> k then ST_KIND else ST_FAILED) st)"
      using assms(2) by (auto simp: take_args_def taken_def Let_def)
    then show ?thesis by (cases "taken env M st k ret"; cases "p_kind p = k") (simp_all add: st_defs)
  qed
  then obtain i where i: "i \<in> {ST_TAKE_OK, ST_MISSING, ST_KIND, ST_FAILED}"
    "stats st1 = stats (count env i st)" "(i = ST_TAKE_OK) = taken env M st k ret" by blast
  show "stats st1 (cpu env) ! 1 = stats st (cpu env) ! 1 + (if taken env M st k ret then 1 else 0)"
    unfolding i(2) c [OF i(1)] i(3) ..
qed (use take_lin_ok [OF assms] take_simps [OF assms(2)] in simp_all)

lemma submits_once:
  assumes "submits env slot k st st'" and "lin_ok st"
  shows "if slot \<noteq> None
    then (\<exists>e. sensor_events st' = sensor_events st @ [e] \<and> se_kind e = k \<and>
            se_tgid e = ucast (drop_bit 32 (current_pid_tgid env))) \<and> drops st' = drops st
    else sensor_events st' = sensor_events st \<and>
         drops st' = (drops st)(cpu env := [drops st (cpu env) ! 0 + 1])"
    and "stats st' = stats st"
proof -
  have "length (drops st (cpu env)) = 1" using assms(2) by (simp add: lin_ok_def)
  then obtain n where n: "drops st (cpu env) = [n]" by (auto simp: length_Suc_conv)
  consider "slot = None" "st' = fst (reserve env None st k)"
    | ev0 ev e st2 where "slot = Some ev0" "reserve env slot st k = (st, Some ev)" "only_scratch st st2"
      "st' = submit e st2" "se_kind e = k" "se_tgid e = se_tgid ev"
    using assms(1) unfolding submits_def by (cases slot) (auto simp: reserve_def split: option.splits)
  note cases = this
  show "if slot \<noteq> None
    then (\<exists>e. sensor_events st' = sensor_events st @ [e] \<and> se_kind e = k \<and>
            se_tgid e = ucast (drop_bit 32 (current_pid_tgid env))) \<and> drops st' = drops st
    else sensor_events st' = sensor_events st \<and>
         drops st' = (drops st)(cpu env := [drops st (cpu env) ! 0 + 1])"
    by (cases rule: cases)
      (auto simp: reserve_def n arr_lookup_def arr_store_def Let_def only_scratch_def submit_def)
  show "stats st' = stats st"
    by (cases rule: cases) (auto simp: reserve_def n arr_lookup_def only_scratch_def submit_def)
qed

text \<open>
  C11: Exactly the successful calls are reported. The exit of a system call
  whose entry was stashed and that did not fail always ends in one record of
  its kind naming the process, or, without room in the ring buffer, in one
  drop counted on the processor; any other exit adds neither. The counter of
  successful pairings counts both, so no record is lost without trace.
\<close>

theorem exit_reports_exactly:
  assumes "bpf_helpers env" and "lin_ok st" and "s \<noteq> Prctl" and "st' = exit_syscall env M slot s ret st"
  shows "(if taken env M st (exit_kind s) ret \<and> slot \<noteq> None
      then \<exists>e. sensor_events st' = sensor_events st @ [e] \<and> se_kind e = exit_kind s \<and>
             se_tgid e = ucast (drop_bit 32 (current_pid_tgid env))
      else sensor_events st' = sensor_events st) \<and>
    drops st' = (if taken env M st (exit_kind s) ret \<and> slot = None
      then (drops st)(cpu env := [drops st (cpu env) ! 0 + 1]) else drops st) \<and>
    stats st' (cpu env) ! 1 =
      stats st (cpu env) ! 1 + (if taken env M st (exit_kind s) ret then 1 else 0)"
proof -
  obtain st1 r where t: "take_args env M st (exit_kind s) ret = (st1, r)" by fastforce
  note tk = take_taken [OF assms(2) t]
  have eff: "exit_effect env M slot (exit_kind s) ret st st'"
    unfolding assms(4) by (rule exit_syscall_effect [OF assms(1,3)])
  show ?thesis
  proof (cases r)
    case None
    then show ?thesis using eff tk t by (simp add: exit_effect_def)
  next
    case (Some p)
    then have "submits env slot (exit_kind s) st1 st'" using eff t by (simp add: exit_effect_def)
    from submits_once [OF this tk(2)] show ?thesis using Some tk by (auto split: if_splits)
  qed
qed

section \<open>Well-formedness\<close>

lemma enter_effect_ok: "enter_effect env M st st' \<Longrightarrow> lin_ok st \<Longrightarrow> lin_ok st'"
proof -
  assume e: "enter_effect env M st st'" and "lin_ok st"
  then have "length (self_map st') = length (self_map st)"
    unfolding enter_effect_def by (metis length_arr_store)
  with e \<open>lin_ok st\<close> show ?thesis by (simp add: enter_effect_def lin_ok_def)
qed

lemma submits_ok:
  assumes "bpf_helpers env" and "submits env slot k st st'" and "lin_ok st" and "\<And>ev. slot = Some ev \<Longrightarrow> event_ok ev"
  shows "lin_ok st'"
proof -
  obtain st1 r where r: "reserve env slot st k = (st1, r)" by fastforce
  note ok = bpf_helpers.reserve_ok [OF assms(1,3,4) r]
  consider "slot = None" "st' = fst (reserve env None st k)"
    | ev e st2 where "reserve env slot st k = (st, Some ev)" "st' = submit e st2"
      "event_ok ev \<longrightarrow> lin_ok st2 \<and> event_ok e"
    using assms(2,3) unfolding submits_def by blast
  then show ?thesis
  proof cases
    case 1
    then show ?thesis using ok(1) r by simp
  next
    case 2
    then have "event_ok ev" using ok(2) r by simp
    with 2 show ?thesis by (simp add: submit_lin_ok)
  qed
qed

lemma exit_effect_ok:
  assumes "bpf_helpers env" and "exit_effect env M slot k ret st st'" and "lin_ok st"
    and "\<And>ev. slot = Some ev \<Longrightarrow> event_ok ev"
  shows "lin_ok st'"
proof -
  obtain st1 p where t: "take_args env M st k ret = (st1, p)" by fastforce
  then have "lin_ok st1" by (rule take_lin_ok [OF assms(3)])
  then show ?thesis
    using assms(2) submits_ok [OF assms(1) _ _ assms(4)] t by (auto simp: exit_effect_def split: option.splits)
qed

lemma lin_step_ok: "lin_step M st st' \<Longrightarrow> lin_ok st \<Longrightarrow> lin_ok st'"
proof (induction rule: lin_step.induct)
  case (enter env st arm64 args)
  then show ?case by (metis enter_effect_ok raw_sys_enter_effect)
next
  case (exit env slot st s ret)
  show ?case
  proof (cases "s = Prctl")
    case True
    then show ?thesis using exit.prems by simp
  next
    case False
    then show ?thesis
      using exit_effect_ok [OF exit.hyps(1) exit_syscall_effect [OF exit.hyps(1) False] exit.prems exit.hyps(2)]
      by simp
  qed
next
  case (exec env slot st ctx loc)
  then show ?case
    using bpf_helpers.exec_effect [OF exec.hyps(1), of slot ctx loc st] submits_ok [OF exec.hyps(1) _ exec.prems exec.hyps(2)]
    by metis
next
  case (exit_process env slot st)
  then show ?case
    using bpf_helpers.exit_process_effect [OF exit_process.hyps(1), of slot st]
      submits_ok [OF exit_process.hyps(1) _ exit_process.prems exit_process.hyps(2)] by metis
qed

text \<open>
  Every run of the sensor's programs, in any interleaving, keeps the state
  well formed: all records keep their field sizes, the scratch area keeps its
  shape, and the counters stay in place.
\<close>

lemma lin_run_well_formed:
  assumes "lin_run M st st'" and "lin_ok st"
  shows "lin_ok st'"
  using assms by (induction rule: lin_run.induct) (auto intro: lin_step_ok)

section \<open>Records, drops and pairings\<close>

text \<open>An entry leaves the count of successful pairings, at index 1, as it is.\<close>

lemma count_stats1: "unat i \<noteq> 1 \<Longrightarrow> stats (count env i st) x ! 1 = stats st x ! 1"
  by (auto simp: count_def arr_store_def split: option.split)

lemma stash_stats1: "stats (stash env M k a b c d st) x ! 1 = stats st x ! 1"
  unfolding stash_def Let_def by (simp add: count_stats1 st_defs del: One_nat_def split: prod.split)

lemma enter_stats1: "stats (raw_sys_enter env M arm64 args st) x ! 1 = stats st x ! 1"
proof -
  have o: "stats (open_enter env M d n f st) x ! 1 = stats st x ! 1"
    "stats (rename_enter env M d n f g st) x ! 1 = stats st x ! 1"
    "stats (unlink_enter env M d n f st) x ! 1 = stats st x ! 1"
    "stats (enter_prctl env st l) x ! 1 = stats st x ! 1"
    "stats (setid_enter env M u t v w m st) x ! 1 = stats st x ! 1" for d n f g l u t v w m
    by (simp_all add: open_enter_def rename_enter_def unlink_enter_def enter_prctl_def setid_enter_def Let_def
        stash_stats1 del: One_nat_def split: option.split)
  have "stats (enter_syscall env M s a st) x ! 1 = stats st x ! 1" for s a
    by (cases s)
      (simp_all add: o stash_stats1 enter_open_def enter_creat_def enter_rename_def enter_unlink_def enter_rmdir_def
        enter_delete_module_def enter_ptrace_def enter_vm_access_def enter_setuid_def enter_setreuid_def
        enter_setresuid_def enter_setgid_def enter_setregid_def enter_setresgid_def enter_capset_def
        enter_memfd_create_def Let_def del: One_nat_def split: prod.split)
  then show ?thesis by (simp add: raw_sys_enter_def del: One_nat_def split: option.split)
qed

text \<open>What one program run adds: records, drops and successful pairings, summed over the processors.\<close>

definition total :: "nat \<Rightarrow> (nat \<Rightarrow> u64 list) \<Rightarrow> nat \<Rightarrow> u64" where
  "total n f i = (\<Sum>c<n. f c ! i)"

lemma total_upd:
  assumes "c < n"
  shows "total n (f(c := xs)) i = total n f i - f c ! i + xs ! i"
proof -
  have "finite {..<n}" "c \<in> {..<n}" using assms by simp_all
  note r = sum.remove [OF this]
  have "(\<Sum>k\<in>{..<n} - {c}. (f(c := xs)) k ! i) = (\<Sum>k\<in>{..<n} - {c}. f k ! i)"
    by (rule sum.cong) auto
  then show ?thesis unfolding total_def r [of "\<lambda>k. (f(c := xs)) k ! i"] r [of "\<lambda>k. f k ! i"] by simp
qed

lemma total_cong: "(\<And>c. f c ! i = g c ! i) \<Longrightarrow> total n f i = total n g i"
  by (simp add: total_def)

definition balanced :: "nat \<Rightarrow> nat \<Rightarrow> 'm lin_st \<Rightarrow> 'm lin_st \<Rightarrow> bool" where
  "balanced n k st st' \<longleftrightarrow> (\<exists>es. sensor_events st' = sensor_events st @ es \<and>
     of_nat (length es) + (total n (drops st') 0 - total n (drops st) 0) =
     (total n (stats st') 1 - total n (stats st) 1) + of_nat k)"

lemma balanced_refl: "balanced n 0 st st"
  by (simp add: balanced_def)

lemma balanced_trans:
  assumes "balanced n j a b" and "balanced n k b c"
  shows "balanced n (j + k) a c"
proof -
  obtain es fs where e: "sensor_events b = sensor_events a @ es" "sensor_events c = sensor_events b @ fs"
    "of_nat (length es) + (total n (drops b) 0 - total n (drops a) 0) = (total n (stats b) 1 - total n (stats a) 1) + of_nat j"
    "of_nat (length fs) + (total n (drops c) 0 - total n (drops b) 0) = (total n (stats c) 1 - total n (stats b) 1) + of_nat k"
    using assms unfolding balanced_def by blast
  have "of_nat (length (es @ fs)) + (total n (drops c) 0 - total n (drops a) 0) =
      (total n (stats c) 1 - total n (stats a) 1) + of_nat (j + k)"
    using arg_cong2 [OF e(3,4), of "(+)"] by (simp add: algebra_simps)
  then show ?thesis using e(1,2) unfolding balanced_def by (intro exI [of _ "es @ fs"]) simp
qed

lemma submits_balanced:
  assumes "submits env slot k st st'" and "lin_ok st" and "cpu env < n"
  shows "balanced n 1 st st'"
proof (cases slot)
  case None
  then show ?thesis
    using submits_once [OF assms(1,2)] total_upd [OF assms(3), of "drops st"]
    by (simp add: balanced_def)
next
  case (Some ev)
  then show ?thesis using submits_once [OF assms(1,2)] by (auto simp: balanced_def)
qed

lemma exit_balanced:
  assumes "exit_effect env M slot k ret st st'" and "lin_ok st" and "cpu env < n"
  shows "balanced n 0 st st'"
proof -
  obtain st1 r where t: "take_args env M st k ret = (st1, r)" by fastforce
  note tk = take_taken [OF assms(2) t]
  have "stats st1 c = stats st c" if "c \<noteq> cpu env" for c
    using t that by (auto simp: take_args_def count_def Let_def split: option.splits)
  then have "stats st1 = (stats st)(cpu env := stats st1 (cpu env))" by (auto simp: fun_eq_iff)
  then have "total n (stats st1) 1 = total n (stats st) 1 + (if r = None then 0 else 1)"
    using total_upd [OF assms(3), of "stats st" "stats st1 (cpu env)" 1] tk(1,5) by (cases r) simp_all
  note s = this
  show ?thesis
  proof (cases r)
    case None
    then show ?thesis using assms(1) t tk s by (simp add: exit_effect_def balanced_def)
  next
    case (Some p)
    then have "submits env slot k st1 st'" using assms(1) t by (simp add: exit_effect_def)
    from submits_balanced [OF this tk(2) assms(3)] show ?thesis
      using s tk(3,4) Some by (simp add: balanced_def algebra_simps)
  qed
qed


lemma submits_self: "submits env slot k st st' \<Longrightarrow> self_map st' = self_map st"
  by (auto simp: submits_def reserve_def only_scratch_def submit_def split: option.splits)

lemma exit_effect_self:
  assumes "exit_effect env M slot k ret st st'"
  shows "self_map st' = self_map st"
proof -
  obtain st1 r where t: "take_args env M st k ret = (st1, r)" by fastforce
  then show ?thesis
    using assms take_simps(1) [OF t] submits_self by (cases r) (fastforce simp: exit_effect_def)+
qed

lemma enter_self:
  assumes "lin_ok st" and "hd (self_map st) \<noteq> 0"
  shows "self_map (raw_sys_enter env M arm64 args st) = self_map st"
proof -
  obtain t where "self_map st = [t]" using assms(1) by (auto simp: lin_ok_def length_Suc_conv)
  then show ?thesis
    using raw_sys_enter_effect [of env M st arm64 args] assms(2) by (auto simp: enter_effect_def arr_lookup_def)
qed

section \<open>Nothing is lost without trace\<close>

text \<open>A run as the list of what happens, with the environment, the answer of the ring buffer and the arguments of each.\<close>

datatype lin_input =
    SysEnter bpf_env bool "u64 list"
  | SysExit bpf_env "sensor_event option" syscall u64
  | SchedExec bpf_env "sensor_event option" u64 u32
  | SchedExit bpf_env "sensor_event option"

fun lin_do :: "(u64, pending, 'm) map_ops \<Rightarrow> lin_input \<Rightarrow> 'm lin_st \<Rightarrow> 'm lin_st" where
  "lin_do M (SysEnter env arm64 args) st = raw_sys_enter env M arm64 args st"
| "lin_do M (SysExit env slot s ret) st = exit_syscall env M slot s ret st"
| "lin_do M (SchedExec env slot ctx loc) st = handle_exec env slot ctx loc st"
| "lin_do M (SchedExit env slot) st = handle_exit env slot st"

fun input_ok :: "nat \<Rightarrow> lin_input \<Rightarrow> bool" where
  "input_ok n (SysEnter env arm64 args) \<longleftrightarrow> bpf_helpers env \<and> cpu env < n"
| "input_ok n (SysExit env slot s ret) \<longleftrightarrow> bpf_helpers env \<and> cpu env < n \<and> pred_option event_ok slot"
| "input_ok n (SchedExec env slot ctx loc) \<longleftrightarrow> bpf_helpers env \<and> cpu env < n \<and> pred_option event_ok slot"
| "input_ok n (SchedExit env slot) \<longleftrightarrow> bpf_helpers env \<and> cpu env < n \<and> pred_option event_ok slot"

text \<open>The executions, and the exits of whole processes, outside the agent.\<close>

fun sched_report :: "lin_input \<Rightarrow> 'm lin_st \<Rightarrow> nat" where
  "sched_report (SchedExec env slot ctx loc) st = (if skip_self env st then 0 else 1)"
| "sched_report (SchedExit env slot) st =
     (if ucast (ucast (current_pid_tgid env) :: u32) = drop_bit 32 (current_pid_tgid env) \<and> \<not> skip_self env st
      then 1 else 0)"
| "sched_report i st = 0"

fun sched_reports :: "(u64, pending, 'm) map_ops \<Rightarrow> lin_input list \<Rightarrow> 'm lin_st \<Rightarrow> nat" where
  "sched_reports M [] st = 0"
| "sched_reports M (i # is) st = sched_report i st + sched_reports M is (lin_do M i st)"

lemma lin_do_step: "input_ok n i \<Longrightarrow> lin_step M st (lin_do M i st)"
  by (cases i) (auto intro: lin_step.intros)

lemma lin_do_balanced:
  assumes "input_ok n i" and "lin_ok st"
  shows "balanced n (sched_report i st) st (lin_do M i st) \<and>
    (hd (self_map st) \<noteq> 0 \<longrightarrow> self_map (lin_do M i st) = self_map st)"
proof (cases i)
  case (SysEnter env arm64 args)
  have "balanced n 0 st (raw_sys_enter env M arm64 args st)"
    using raw_sys_enter_effect [of env M st arm64 args] enter_stats1 [of env M arm64 args st]
    by (simp add: balanced_def enter_effect_def total_def)
  then show ?thesis using SysEnter enter_self [OF assms(2), of env M arm64 args] by simp
next
  case (SysExit env slot s ret)
  show ?thesis
  proof (cases "s = Prctl")
    case True
    then show ?thesis using SysExit by (simp add: balanced_refl)
  next
    case False
    then have "exit_effect env M slot (exit_kind s) ret st (exit_syscall env M slot s ret st)"
      using assms(1) SysExit by (intro exit_syscall_effect) simp_all
    then show ?thesis
      using exit_balanced [OF _ assms(2)] exit_effect_self assms(1) SysExit by auto
  qed
next
  case (SchedExec env slot ctx loc)
  show ?thesis
  proof (cases "skip_self env st")
    case True
    then show ?thesis using SchedExec by (simp add: balanced_refl handle_exec_def)
  next
    case False
    then obtain k where "submits env slot k st (handle_exec env slot ctx loc st)"
      using bpf_helpers.exec_submits assms(1) SchedExec by (metis input_ok.simps(3))
    then show ?thesis
      using submits_balanced [OF _ assms(2)] submits_self assms(1) SchedExec False by auto
  qed
next
  case (SchedExit env slot)
  show ?thesis
  proof (cases "sched_report i st = 0")
    case True
    then have "handle_exit env slot st = st" using SchedExit by (auto simp: handle_exit_def Let_def split: if_splits)
    then show ?thesis using True SchedExit by (simp add: balanced_refl)
  next
    case False
    then have "submits env slot K_EXIT st (handle_exit env slot st)"
      using bpf_helpers.exit_process_submits assms(1) SchedExit by (simp split: if_splits)
    then show ?thesis
      using submits_balanced [OF _ assms(2)] submits_self assms(1) SchedExit False by (auto split: if_splits)
  qed
qed

text \<open>
  C24: Over any interleaving of the sensor's programs nothing is lost without
  trace: records are only ever added, and the records added together with the
  drops counted on all processors are exactly the successful pairings of
  entries and exits counted in the statistics and the executions and process
  exits outside the agent. The state stays well formed, and the agent, once
  registered, stays registered. The counters are 64-bit words and so is the
  equation.
\<close>

theorem lin_run_accounts:
  assumes "list_all (input_ok n) inputs" and "lin_ok st" and "st' = fold (lin_do M) inputs st"
  shows "lin_ok st' \<and> (hd (self_map st) \<noteq> 0 \<longrightarrow> self_map st' = self_map st) \<and>
    (\<exists>es. sensor_events st' = sensor_events st @ es \<and>
       of_nat (length es) + (total n (drops st') 0 - total n (drops st) 0) =
       (total n (stats st') (unat ST_TAKE_OK) - total n (stats st) (unat ST_TAKE_OK)) +
       of_nat (sched_reports M inputs st))"
proof -
  have "lin_ok (fold (lin_do M) inputs st) \<and>
      (hd (self_map st) \<noteq> 0 \<longrightarrow> self_map (fold (lin_do M) inputs st) = self_map st) \<and>
      balanced n (sched_reports M inputs st) st (fold (lin_do M) inputs st)"
    using assms(1,2)
  proof (induction inputs arbitrary: st)
    case (Cons i inputs)
    have i: "input_ok n i" and rest: "list_all (input_ok n) inputs" using Cons.prems(1) by simp_all
    have ok: "lin_ok (lin_do M i st)" by (rule lin_step_ok [OF lin_do_step [OF i] Cons.prems(2)])
    note b = lin_do_balanced [OF i Cons.prems(2), of M]
    show ?case
      using Cons.IH [OF rest ok] b balanced_trans [OF conjunct1 [OF b]] by simp
  qed (simp add: balanced_refl)
  moreover have "unat ST_TAKE_OK = 1" by (simp add: st_defs)
  ultimately show ?thesis unfolding assms(3) balanced_def by simp
qed


section \<open>The agent does not observe itself\<close>

text \<open>
  Registered as \<open>t\<close>, and no entry of one of the agent's threads is pending
  that a guarded program stashed.
\<close>

definition quiet :: "u32 \<Rightarrow> (u64, pending, 'm) map_ops \<Rightarrow> 'm lin_st \<Rightarrow> bool" where
  "quiet t M st \<longleftrightarrow> self_map st = [t] \<and> t \<noteq> 0 \<and>
     (\<forall>id p. map_lookup_elem M (pending_args st) id = Some p \<longrightarrow> drop_bit 32 id = ucast t \<longrightarrow> unguarded (p_kind p))"

definition about_self :: "u32 \<Rightarrow> sensor_event \<Rightarrow> bool" where
  "about_self t e \<longleftrightarrow> se_tgid e = t \<and> \<not> unguarded (se_kind e)"

lemma skip_self_quiet:
  "self_map st = [t] \<Longrightarrow> skip_self env st \<longleftrightarrow> ucast t = drop_bit 32 (current_pid_tgid env)"
  by (simp add: skip_self_def arr_lookup_def)

lemma tgid_word: "(ucast (drop_bit 32 (x :: u64)) :: u32) = t \<longleftrightarrow> ucast t = drop_bit 32 x"
proof -
  have "(ucast (ucast (drop_bit 32 x) :: u32) :: u64) = drop_bit 32 x"
    by (rule bit_word_eqI) (auto simp: bit_simps dest: bit_imp_le_length)
  moreover have "(ucast (ucast t :: u64) :: u32) = t"
    by (rule bit_word_eqI) (auto simp: bit_simps)
  ultimately show ?thesis by metis
qed

lemma enter_effect_quiet:
  assumes "bpf_map M" and "quiet t M st" and "enter_effect env M st st'"
  shows "quiet t M st' \<and> sensor_events st' = sensor_events st"
proof -
  have self: "self_map st' = [t]"
    using assms(2,3) by (auto simp: quiet_def enter_effect_def arr_lookup_def)
  have "unguarded (p_kind p)"
    if "map_lookup_elem M (pending_args st') id = Some p" "drop_bit 32 id = ucast t" for id p
  proof (cases "pending_args st' = pending_args st")
    case True
    then show ?thesis using that assms(2) by (simp add: quiet_def)
  next
    case False
    then obtain q where q: "pending_args st' = snd (map_update_elem M (pending_args st) (current_pid_tgid env) q BPF_ANY)"
      "unguarded (p_kind q) \<or> \<not> skip_self env st"
      using assms(3) unfolding enter_effect_def by blast
    from bpf_map.update_sub [OF assms(1)] that(1) q(1)
    consider "id = current_pid_tgid env" "p = q" | "map_lookup_elem M (pending_args st) id = Some p"
      by metis
    then show ?thesis
    proof cases
      case 1
      then have "skip_self env st"
        using that(2) assms(2) by (simp add: skip_self_quiet quiet_def)
      then show ?thesis using q(2) 1 by simp
    next
      case 2
      then show ?thesis using that(2) assms(2) by (simp add: quiet_def)
    qed
  qed
  then show ?thesis using self assms(2,3) by (simp add: quiet_def enter_effect_def)
qed

lemma submits_quiet:
  assumes "submits env slot k st st'" and "quiet t M st"
    and "unguarded k \<or> \<not> skip_self env st"
  shows "quiet t M st' \<and> (\<exists>es. sensor_events st' = sensor_events st @ es \<and> (\<forall>e \<in> set es. \<not> about_self t e))"
proof -
  consider "st' = fst (reserve env None st k)"
    | ev e st2 where "reserve env slot st k = (st, Some ev)" "only_scratch st st2" "st' = submit e st2"
        "se_kind e = k" "se_tgid e = se_tgid ev"
    using assms(1) unfolding submits_def by blast
  then show ?thesis
  proof cases
    case 1
    obtain r where "reserve env None st k = (st', r)" using 1 by (metis prod.collapse)
    from reserve_simps [OF this] assms(2) show ?thesis by (simp add: quiet_def)
  next
    case 2
    have "\<not> about_self t e"
      using 2(4,5) reserve_tgid [OF 2(1)] assms(2,3)
      by (auto simp: about_self_def skip_self_quiet quiet_def tgid_word)
    then show ?thesis using 2(2,3) assms(2) by (auto simp: quiet_def only_scratch_def submit_def)
  qed
qed

lemma exit_effect_quiet:
  assumes "bpf_map M" and "exit_effect env M slot k ret st st'" and "quiet t M st"
  shows "quiet t M st' \<and> (\<exists>es. sensor_events st' = sensor_events st @ es \<and> (\<forall>e \<in> set es. \<not> about_self t e))"
proof -
  obtain st1 p where t: "take_args env M st k ret = (st1, p)" by fastforce
  have keep: "sensor_events st1 = sensor_events st" "self_map st1 = self_map st"
    using take_simps(1,2) [OF t] by simp_all
  have "pending_args st1 = pending_args st \<or>
      pending_args st1 = snd (map_delete_elem M (pending_args st) (current_pid_tgid env))"
    using t by (auto simp: take_args_def Let_def split: option.splits)
  then have "map_lookup_elem M (pending_args st) id = Some q"
    if "map_lookup_elem M (pending_args st1) id = Some q" for id q
    using that bpf_map.delete_sub [OF assms(1)] by metis
  then have "quiet t M st1" using assms(3) keep unfolding quiet_def by metis
  note q1 = this keep
  show ?thesis
  proof (cases p)
    case None
    then show ?thesis using assms(2) t q1 by (simp add: exit_effect_def)
  next
    case (Some pd)
    then have s: "submits env slot k st1 st'" using assms(2) t by (simp add: exit_effect_def)
    have "map_lookup_elem M (pending_args st) (current_pid_tgid env) = Some pd" "p_kind pd = k"
      using t Some by (auto simp: take_args_def Let_def split: option.splits if_splits)
    then have "unguarded k \<or> \<not> skip_self env st1"
      using assms(3) q1(3) by (auto simp: quiet_def skip_self_quiet)
    from submits_quiet [OF s q1(1) this] show ?thesis using q1(2) by simp
  qed
qed

lemma lin_step_quiet:
  assumes "bpf_map M" and "lin_step M st st'" and "quiet t M st"
  shows "quiet t M st' \<and> (\<exists>es. sensor_events st' = sensor_events st @ es \<and> (\<forall>e \<in> set es. \<not> about_self t e))"
  using assms(2,3)
proof (induction rule: lin_step.induct)
  case (enter env st arm64 args)
  then show ?case
    using enter_effect_quiet [OF assms(1) enter.prems raw_sys_enter_effect [of env M st arm64 args]]
    by (intro conjI exI [of _ "[]"]) simp_all
next
  case (exit env slot st s ret)
  show ?case
  proof (cases "s = Prctl")
    case True
    then show ?thesis using exit.prems by simp
  next
    case False
    from exit_effect_quiet [OF assms(1) exit_syscall_effect [OF exit.hyps(1) False] exit.prems]
    show ?thesis .
  qed
next
  case (exec env slot st ctx loc)
  from bpf_helpers.exec_effect [OF exec.hyps(1), of slot ctx loc st] show ?case
  proof (elim disjE conjE bexE)
    assume "handle_exec env slot ctx loc st = st"
    then show ?thesis using exec.prems by simp
  next
    fix k assume "\<not> skip_self env st" and "submits env slot k st (handle_exec env slot ctx loc st)"
    then show ?thesis using submits_quiet [OF _ exec.prems] by blast
  qed
next
  case (exit_process env slot st)
  from bpf_helpers.exit_process_effect [OF exit_process.hyps(1), of slot st] show ?case
  proof (elim disjE conjE)
    assume "handle_exit env slot st = st"
    then show ?thesis using exit_process.prems by simp
  next
    assume "\<not> skip_self env st" and "submits env slot K_EXIT st (handle_exit env slot st)"
    then show ?thesis using submits_quiet [OF _ exit_process.prems] by blast
  qed
qed

text \<open>
  C3: Once the agent has registered its process and none of its threads has a
  guarded call under way, no run ever reports the agent's own file, ptrace,
  memory, memfd, exec or exit activity, whatever all threads do in whatever
  order; and the registration stays.
\<close>

theorem agent_not_reported:
  assumes "bpf_map M" and "lin_run M st st'" and "quiet t M st"
  shows "self_map st' = [t] \<and>
    (\<exists>es. sensor_events st' = sensor_events st @ es \<and> (\<forall>e \<in> set es. \<not> about_self t e))"
proof -
  have "quiet t M st' \<and> (\<exists>es. sensor_events st' = sensor_events st @ es \<and> (\<forall>e \<in> set es. \<not> about_self t e))"
    using assms(2,3)
  proof (induction rule: lin_run.induct)
    case (more st st' st'')
    then obtain es where es: "quiet t M st'" "sensor_events st' = sensor_events st @ es"
      "\<forall>e \<in> set es. \<not> about_self t e" by blast
    from lin_step_quiet [OF assms(1) more.hyps(2) es(1)] obtain fs where
      "quiet t M st''" "sensor_events st'' = sensor_events st' @ fs" "\<forall>e \<in> set fs. \<not> about_self t e" by blast
    with es show ?case by (intro conjI exI [of _ "es @ fs"]) auto
  qed (simp add: quiet_def)
  then show ?thesis by (simp add: quiet_def)
qed

section \<open>A concrete run\<close>

text \<open>Process 9 exits, then the agent, process 42.\<close>

definition sample_run :: "(u64 \<times> pending) list lin_st" where
  "sample_run =
     handle_exit (sample_env [] (push_bit 32 42 + 42) 0) (Some sample_event)
       (handle_exit (sample_env [] (push_bit 32 9 + 9) 0) (Some sample_event) sample_lin)"

lemma sample_run: "lin_run pend_ops sample_lin sample_run"
proof -
  have "lin_step pend_ops st (handle_exit (sample_env [] pt 0) (Some sample_event) st)" for st pt
    by (rule lin_step.exit_process [OF sample_helpers]) (simp add: sample_lin_ok)
  then show ?thesis unfolding sample_run_def by (blast intro: lin_run.intros)
qed

lemma lin_run_well_formed_witness: "lin_ok sample_run"
  by (rule lin_run_well_formed [OF sample_run sample_lin_ok(1)])

theorem agent_not_reported_witness:
  "self_map sample_run = [42] \<and> map se_tgid (sensor_events sample_run) = [9] \<and>
   list_all (\<lambda>e. \<not> about_self 42 e) (sensor_events sample_run)"
proof -
  have "quiet 42 pend_ops sample_lin" by (simp add: quiet_def lru_ops_def)
  moreover have "map se_tgid (sensor_events sample_run) = [9]"
    by (simp add: sample_run_def handle_exit_def skip_self_def reserve_def submit_def arr_lookup_def)
  ultimately show ?thesis
    using agent_not_reported [OF lru.bpf_map_axioms sample_run, of 42] by (auto simp: list_all_iff)
qed

text \<open>A successful \<open>unlink\<close> of thread 9, whose entry is in the map.\<close>

theorem exit_reports_exactly_witness:
  "map se_kind (sensor_events (exit_syscall (sample_env [] 9 0) pend_ops (Some sample_event) Unlink 0
     (sample_lin\<lparr>pending_args := [(9, \<lparr>p_kind = K_UNLINK, p_pad = 0, p_a = [0, 1, 2, 3], p_uid = 0, p_euid = 0\<rparr>)]\<rparr>))) =
   [K_UNLINK]"
proof -
  let ?st = "sample_lin\<lparr>pending_args := [(9, \<lparr>p_kind = K_UNLINK, p_pad = 0, p_a = [0, 1, 2, 3], p_uid = 0, p_euid = 0\<rparr>)]\<rparr>"
  have ok: "lin_ok ?st" using sample_lin_ok(1) by (simp add: lin_ok_def)
  have t: "taken (sample_env [] 9 0) pend_ops ?st (exit_kind Unlink) 0" by (simp add: taken_def lru_ops_def)
  from exit_reports_exactly [where env = "sample_env [] 9 0" and s = Unlink and M = pend_ops and ret = 0
      and slot = "Some sample_event", OF sample_helpers ok _ refl] t
  show ?thesis by auto
qed

text \<open>The run again as a list, with the exit of another process that found no room.\<close>

definition sample_inputs :: "lin_input list" where
  "sample_inputs = [SchedExit (sample_env [] (push_bit 32 9 + 9) 0) (Some sample_event),
     SchedExit (sample_env [] (push_bit 32 42 + 42) 0) (Some sample_event),
     SchedExit (sample_env [] (push_bit 32 8 + 8) 0) None]"

theorem lin_run_accounts_witness:
  "\<exists>es. sensor_events (fold (lin_do pend_ops) sample_inputs sample_lin) = es \<and>
     of_nat (length es) + total 1 (drops (fold (lin_do pend_ops) sample_inputs sample_lin)) 0 =
     total 1 (stats (fold (lin_do pend_ops) sample_inputs sample_lin)) 1 + 2"
proof -
  have ok: "list_all (input_ok 1) sample_inputs"
    by (simp add: sample_inputs_def sample_helpers sample_lin_ok)
  have n: "sched_reports pend_ops sample_inputs sample_lin = 2"
    by (simp add: sample_inputs_def handle_exit_def skip_self_def reserve_def submit_def arr_lookup_def)
  have "unat ST_TAKE_OK = 1" "total 1 (drops sample_lin) 0 = 0" "total 1 (stats sample_lin) 1 = 0"
    by (simp_all add: st_defs total_def sample_lin_def)
  with lin_run_accounts [OF ok sample_lin_ok(1) HOL.refl, of pend_ops] show ?thesis
    unfolding n by (auto simp del: One_nat_def)
qed

end
