(* ===== verification/Linsensor_Calls.thy ===== *)
theory Linsensor_Calls
  imports Linsensor
begin

text \<open>
  What the host sensor reports of a system call: the record of a call from
  its entry to its exit, which calls are reported at all, and the dispatch
  from system call numbers to handlers.
\<close>

section \<open>Sensitive reads\<close>

lemma mem_loop_iff:
  "mem_loop b (int m + 1) [i..<j] \<longleftrightarrow>
     i \<le> m \<and> m < j \<and> b ! (m - 4) = chr CHR ''/'' \<and> b ! (m - 3) = chr CHR ''m'' \<and>
     b ! (m - 2) = chr CHR ''e'' \<and> b ! (m - 1) = chr CHR ''m''"
proof (induction "j - i" arbitrary: i)
  case 0
  then show ?case by simp
next
  case (Suc k)
  then have "[i..<j] = i # [Suc i..<j]" by (simp add: upt_conv_Cons)
  then show ?case using Suc.hyps(1) [of "Suc i"] Suc.hyps(2) by (cases "i = m") auto
qed

text \<open>The memory of another process, as far as 19 bytes show it.\<close>

definition mem_path :: "bytes \<Rightarrow> bool" where
  "mem_path t \<longleftrightarrow> 11 \<le> length t \<and> take 6 t = str ''/proc/'' \<and>
     chr CHR ''0'' \<le> t ! 6 \<and> t ! 6 \<le> chr CHR ''9'' \<and> drop (length t - 4) t = str ''/mem''"

lemma take6_iff:
  assumes "11 \<le> length t"
  shows "take 6 t = str ''/proc/'' \<longleftrightarrow>
     t ! 0 = chr CHR ''/'' \<and> t ! 1 = chr CHR ''p'' \<and> t ! 2 = chr CHR ''r'' \<and>
     t ! 3 = chr CHR ''o'' \<and> t ! 4 = chr CHR ''c'' \<and> t ! 5 = chr CHR ''/''"
proof -
  have "take 6 t = str ''/proc/'' \<longleftrightarrow> (\<forall>i < 6. t ! i = str ''/proc/'' ! i)"
    using assms by (auto simp: list_eq_iff_nth_eq str_def)
  moreover have "(\<forall>i < 6. P i) \<longleftrightarrow> P 0 \<and> P 1 \<and> P 2 \<and> P 3 \<and> P 4 \<and> P (5 :: nat)" for P
    by (simp add: eval_nat_numeral All_less_Suc) blast
  ultimately show ?thesis by (simp add: str_def)
qed

lemma drop4_iff:
  assumes "11 \<le> length t"
  shows "drop (length t - 4) t = str ''/mem'' \<longleftrightarrow>
     t ! (length t - 4) = chr CHR ''/'' \<and> t ! (length t - 3) = chr CHR ''m'' \<and>
     t ! (length t - 2) = chr CHR ''e'' \<and> t ! (length t - 1) = chr CHR ''m''"
proof -
  have "length t - 4 + 1 = length t - 3" "length t - 4 + 2 = length t - 2" "length t - 4 + 3 = length t - 1"
    using assms by auto
  moreover have "drop (length t - 4) t = str ''/mem'' \<longleftrightarrow>
      (\<forall>i < 4. t ! (length t - 4 + i) = str ''/mem'' ! i)"
    using assms by (auto simp: list_eq_iff_nth_eq str_def)
  moreover have "(\<forall>i < 4. P i) \<longleftrightarrow> P 0 \<and> P 1 \<and> P 2 \<and> P (3 :: nat)" for P
    by (auto simp: less_Suc_eq numeral_eq_Suc)
  ultimately show ?thesis by (simp add: str_def)
qed

lemma shadow_iff:
  "s = str ''/etc/shadow'' \<longleftrightarrow> length s = 11 \<and>
     s ! 0 = chr CHR ''/'' \<and> s ! 1 = chr CHR ''e'' \<and> s ! 2 = chr CHR ''t'' \<and> s ! 3 = chr CHR ''c'' \<and>
     s ! 4 = chr CHR ''/'' \<and> s ! 5 = chr CHR ''s'' \<and> s ! 6 = chr CHR ''h'' \<and> s ! 7 = chr CHR ''a'' \<and>
     s ! 8 = chr CHR ''d'' \<and> s ! 9 = chr CHR ''o'' \<and> s ! 10 = chr CHR ''w''"
  by (auto simp: list_eq_iff_nth_eq str_def eval_nat_numeral less_Suc_eq)

lemma gshadow_iff:
  "s = str ''/etc/gshadow'' \<longleftrightarrow> length s = 12 \<and>
     s ! 0 = chr CHR ''/'' \<and> s ! 1 = chr CHR ''e'' \<and> s ! 2 = chr CHR ''t'' \<and> s ! 3 = chr CHR ''c'' \<and>
     s ! 4 = chr CHR ''/'' \<and> s ! 5 = chr CHR ''g'' \<and> s ! 6 = chr CHR ''s'' \<and> s ! 7 = chr CHR ''h'' \<and>
     s ! 8 = chr CHR ''a'' \<and> s ! 9 = chr CHR ''d'' \<and> s ! 10 = chr CHR ''o'' \<and> s ! 11 = chr CHR ''w''"
  by (auto simp: list_eq_iff_nth_eq str_def eval_nat_numeral less_Suc_eq)

lemma chr_nonzero:
  "chr CHR ''/'' \<noteq> 0" "chr CHR ''e'' \<noteq> 0" "chr CHR ''c'' \<noteq> 0" "chr CHR ''t'' \<noteq> 0" "chr CHR ''p'' \<noteq> 0"
  "chr CHR ''e'' \<noteq> chr CHR ''p''"
  by (simp_all add: chr_def)

text \<open>
  C28: A read-only open is reported exactly when it names \<open>/etc/shadow\<close>,
  \<open>/etc/gshadow\<close> or, as far as the first 19 bytes tell, \<open>/proc/\<close> followed by
  a digit and ending in \<open>/mem\<close>.
\<close>

theorem sensitive_read_exact:
  assumes "holds_user_str env name s"
  shows "sensitive_read env name \<longleftrightarrow>
    s = str ''/etc/shadow'' \<or> s = str ''/etc/gshadow'' \<or> mem_path (take 19 s)"
proof -
  define t where "t = take 19 s"
  define b where "b = t @ replicate (20 - length t) 0"
  have rd: "probe_read_user_str env name (replicate 20 0) = (int (length t) + 1, b)"
  proof -
    have "20 - length t = Suc (20 - Suc (length t))" by (simp add: t_def)
    then have "replicate (20 - length t) (0 :: u8) = 0 # replicate (20 - Suc (length t)) 0"
      by (metis replicate_Suc)
    then show ?thesis
      using assms by (simp add: holds_user_str_def str_copy_def Let_def blit_0 b_def t_def)
  qed
  have b: "b ! i = (if i < length t then t ! i else 0)" if "i < 20" for i
    using that by (auto simp: b_def nth_append)
  show ?thesis
  proof (cases "11 \<le> length s")
    case False
    then have l: "length t = length s" "length s \<le> 10" by (auto simp: t_def)
    then show ?thesis
      using False by (auto simp: sensitive_read_def rd mem_loop_iff mem_path_def shadow_iff gshadow_iff t_def [symmetric])
  next
    case True
    then have l: "11 \<le> length t" "length t \<le> 19" by (auto simp: t_def)
    have pre: "b ! i = t ! i" if "i < 11" for i using that l by (simp add: b)
    have loop: "mem_loop b (int (length t) + 1) [11..<20] \<longleftrightarrow> drop (length t - 4) t = str ''/mem''"
    proof -
      have "b ! (length t - k) = t ! (length t - k)" if "k \<in> {1, 2, 3, 4}" for k
        using that l by (auto simp: b)
      then show ?thesis unfolding mem_loop_iff drop4_iff [OF l(1)] using l by simp
    qed
    have mem: "mem_path t \<longleftrightarrow> b ! 0 = chr CHR ''/'' \<and> b ! 1 = chr CHR ''p'' \<and> b ! 2 = chr CHR ''r'' \<and>
        b ! 3 = chr CHR ''o'' \<and> b ! 4 = chr CHR ''c'' \<and> b ! 5 = chr CHR ''/'' \<and>
        \<not> (b ! 6 < chr CHR ''0'' \<or> chr CHR ''9'' < b ! 6) \<and> mem_loop b (int (length t) + 1) [11..<20]"
    proof -
      have "b ! 0 = t ! 0" "b ! 1 = t ! 1" "b ! 2 = t ! 2" "b ! 3 = t ! 3" "b ! 4 = t ! 4" "b ! 5 = t ! 5" "b ! 6 = t ! 6"
        by (rule pre, simp)+
      then show ?thesis unfolding mem_path_def take6_iff [OF l(1)] loop not_less de_Morgan_disj
        using l(1) by metis
    qed
    have sh: "s = str ''/etc/shadow'' \<longleftrightarrow> int (length t) + 1 = 12 \<and>
        b ! 0 = chr CHR ''/'' \<and> b ! 1 = chr CHR ''e'' \<and> b ! 2 = chr CHR ''t'' \<and> b ! 3 = chr CHR ''c'' \<and>
        b ! 4 = chr CHR ''/'' \<and> b ! 5 = chr CHR ''s'' \<and> b ! 6 = chr CHR ''h'' \<and> b ! 7 = chr CHR ''a'' \<and>
        b ! 8 = chr CHR ''d'' \<and> b ! 9 = chr CHR ''o'' \<and> b ! 10 = chr CHR ''w''"
    proof -
      have "int (length t) + 1 = 12 \<longleftrightarrow> length s = 11" by (auto simp: t_def)
      then show ?thesis unfolding shadow_iff by (auto simp: pre t_def simp del: One_nat_def)
    qed
    have gs: "s = str ''/etc/gshadow'' \<longleftrightarrow> int (length t) + 1 = 13 \<and>
        b ! 0 = chr CHR ''/'' \<and> b ! 1 = chr CHR ''e'' \<and> b ! 2 = chr CHR ''t'' \<and> b ! 3 = chr CHR ''c'' \<and>
        b ! 4 = chr CHR ''/'' \<and> b ! 5 = chr CHR ''g'' \<and> b ! 6 = chr CHR ''s'' \<and> b ! 7 = chr CHR ''h'' \<and>
        b ! 8 = chr CHR ''a'' \<and> b ! 9 = chr CHR ''d'' \<and> b ! 10 = chr CHR ''o'' \<and> b ! 11 = chr CHR ''w''"
    proof -
      have "int (length t) + 1 = 13 \<longleftrightarrow> length s = 12" by (auto simp: t_def)
      then show ?thesis unfolding gshadow_iff by (auto simp: pre b t_def simp del: One_nat_def)
    qed
    have pos: "\<not> int (length t) + 1 \<le> 0" by simp
    show ?thesis
      unfolding sensitive_read_def rd Let_def prod.case sh gs t_def [symmetric] mem using chr_nonzero(6)
      by (simp only: pos if_False) (cases "b ! 1 = chr CHR ''e''"; auto simp del: One_nat_def upt.simps)
  qed
qed

theorem sensitive_read_exact_witness:
  "sensitive_read (sample_env [(300, str ''/proc/7/mem'' @ [0])] 0 0) 300"
proof -
  have "holds_user_str (sample_env [(300, str ''/proc/7/mem'' @ [0])] 0 0) 300 (str ''/proc/7/mem'')"
    by (simp add: holds_user_str_def sample_env_def cell_env_def cell_read_str_def str_def chr_def cstr_def)
  moreover have "mem_path (take 19 (str ''/proc/7/mem''))"
    by (simp add: mem_path_def str_def chr_def)
  ultimately show ?thesis using sensitive_read_exact by blast
qed

section \<open>A call from its entry to its exit\<close>

definition current_dir :: "'a bpf_env_scheme \<Rightarrow> u64 \<times> u64" where
  "current_dir env =
     (let fs = core_ptr env (current_task env) [(''task_struct'', ''fs'')]
      in (core_ptr env fs [(''fs_struct'', ''pwd.dentry'')], core_ptr env fs [(''fs_struct'', ''pwd.mnt'')]))"

text \<open>The directory a relative name given with \<open>dfd\<close> starts at, if that is an open file.\<close>

definition start_dir :: "'a bpf_env_scheme \<Rightarrow> u32 \<Rightarrow> (u64 \<times> u64) option" where
  "start_dir env dfd =
     (if dfd = AT_FDCWD then Some (current_dir env)
      else if fd_file env dfd = 0 then None
      else Some (core_ptr env (fd_file env dfd) [(''file'', ''f_path.dentry'')],
                 core_ptr env (fd_file env dfd) [(''file'', ''f_path.mnt'')]))"

definition reported_open :: "u64 \<Rightarrow> bool" where
  "reported_open flags \<longleftrightarrow> flags AND (O_WRONLY OR O_RDWR OR O_CREAT OR O_TRUNC) \<noteq> 0"

lemma take_stashed:
  assumes "bpf_map M" and "current_pid_tgid env' = current_pid_tgid env" and "0 \<le> sint ret"
    and "fst (map_update_elem M (pending_args st) (current_pid_tgid env)
           \<lparr>p_kind = k, p_pad = 0, p_a = [a, b, c, d], p_uid = 0, p_euid = 0\<rparr> BPF_ANY) = 0"
  shows "snd (take_args env' M (stash env M k a b c d st) k ret) =
      Some \<lparr>p_kind = k, p_pad = 0, p_a = [a, b, c, d], p_uid = 0, p_euid = 0\<rparr>"
proof -
  let ?p = "\<lparr>p_kind = k, p_pad = 0, p_a = [a, b, c, d], p_uid = 0, p_euid = 0\<rparr>"
  obtain m where "map_update_elem M (pending_args st) (current_pid_tgid env) ?p BPF_ANY = (0, m)"
    using assms(4) by (metis prod.collapse)
  then have "map_lookup_elem M (pending_args (stash env M k a b c d st)) (current_pid_tgid env) = Some ?p"
    using bpf_map.update_key [OF assms(1)] by (simp add: pending_stash)
  then show ?thesis using assms(2,3) by (simp add: take_args_def Let_def)
qed

text \<open>What \<open>open_exit\<close> reports of an entry \<open>p\<close> it took.\<close>

lemma open_exit_reports:
  assumes "bpf_helpers env" and "lin_ok st" and "event_ok ev"
    and "snd (take_args env M st K_OPEN ret) = Some p" and "holds_user_str env (p_a p ! 1) s"
  shows "\<exists>e. sensor_events (open_exit env M (Some ev) ret st) = sensor_events st @ [e] \<and>
    se_kind e = K_OPEN \<and> se_ret e = ret \<and> se_dfd e = ucast (p_a p ! 0) \<and> se_arg0 e = p_a p ! 2 \<and>
    se_tgid e = ucast (drop_bit 32 (current_pid_tgid env)) \<and>
    cstr (se_path e) = take (PATH_LEN - 1) s \<and>
    se_dir e = (if s \<noteq> [] \<and> hd s = chr CHR ''/'' then (se_dir ev)[0 := 0]
                else snd (dir_of env (fst (take_args env M st K_OPEN ret)) (ucast (p_a p ! 0)) ((se_dir ev)[0 := 0])))"
proof -
  obtain st1 where t: "take_args env M st K_OPEN ret = (st1, Some p)"
    using assms(4) by (metis prod.collapse)
  obtain e0 where r: "reserve env (Some ev) st1 K_OPEN = (st1, Some e0)"
    and e0: "se_kind e0 = K_OPEN" "se_dir e0 = (se_dir ev)[0 := 0]" "length (se_path e0) = PATH_LEN"
      "se_tgid e0 = ucast (drop_bit 32 (current_pid_tgid env))"
    using assms(3) by (auto simp: reserve_def Let_def event_ok_def)
  let ?path = "snd (probe_read_user_str env (p_a p ! 1) (se_path e0))"
  have path: "?path = snd (str_copy s (se_path e0))"
    using assms(5) e0(3) unfolding holds_user_str_def by (metis path_consts(4) zero_less_numeral)
  have "0 \<notin> set s" using assms(5) by (simp add: holds_user_str_def)
  then have c: "cstr ?path = take (PATH_LEN - 1) s" using e0(3) unfolding path by simp
  have first: "?path ! 0 = chr CHR ''/'' \<longleftrightarrow> s \<noteq> [] \<and> hd s = chr CHR ''/''"
    using e0(3) unfolding path by (cases s) (auto simp: str_copy_def Let_def blit_0)
  obtain st2 dir where d: "dir_of env st1 (ucast (p_a p ! 0)) (se_dir e0) = (st2, dir)" by fastforce
  have "sensor_events st2 = sensor_events st1"
    using dir_of_only [of st1 env "ucast (p_a p ! 0)" "se_dir e0"] d by (simp add: only_scratch_def)
  moreover have "sensor_events st1 = sensor_events st" using take_simps(2) [OF t] .
  moreover have "open_exit env M (Some ev) ret st =
      submit (e0\<lparr>se_ret := ret, se_dfd := ucast (p_a p ! 0), se_arg0 := p_a p ! 2, se_path := ?path,
        se_dir := (if ?path ! 0 = chr CHR ''/'' then se_dir e0 else dir)\<rparr>)
        (if ?path ! 0 = chr CHR ''/'' then st1 else st2)"
    by (simp add: open_exit_def t r d Let_def)
  ultimately show ?thesis using c d e0 by (simp add: submit_def t first [unfolded chr_slash] del: One_nat_def)
qed

lemma dir_of_value:
  assumes "bpf_helpers env" and "lin_ok st" and "length out = PATH_LEN"
    and "\<And>d vm. start_dir env dfd = Some (d, vm) \<Longrightarrow> d \<noteq> 0 \<and> vm \<noteq> 0 \<and> vfs_path env d vm cs"
  shows "cstr (snd (dir_of env st dfd out)) =
    (if start_dir env dfd = None then cstr out else take (PATH_LEN - 1) (path_of cs))"
proof (cases "start_dir env dfd")
  case None
  then show ?thesis by (auto simp: start_dir_def dir_of_def Let_def split: if_splits)
next
  case (Some x)
  obtain d vm where x: "x = (d, vm)" by fastforce
  have "dir_of env st dfd out = build_path env st d vm out"
    using Some by (auto simp: x start_dir_def dir_of_def current_dir_def Let_def split: if_splits)
  then show ?thesis
    using bpf_helpers.build_path_value [OF assms(1-3)] assms(4) [OF Some [unfolded x]] Some by simp
qed

text \<open>
  C13: The round trip of an open that writes. If it was stashed at its entry
  and succeeded, its exit adds one record with the descriptor, the flags, the
  name the caller passed (cut to 255 bytes) and the directory the name starts
  at: for a name that is not absolute the path of the current directory or of
  the open directory the caller named, whichever the call used; none for an
  absolute name, and none when the descriptor is not open any more.
\<close>

theorem open_reported:
  assumes "bpf_helpers env'" and "bpf_map M" and "lin_ok st" and "event_ok ev"
    and "\<not> skip_self env st" and "reported_open flags"
    and "fst (map_update_elem M (pending_args st) (current_pid_tgid env)
           \<lparr>p_kind = K_OPEN, p_pad = 0, p_a = [dfd, name, flags, 0], p_uid = 0, p_euid = 0\<rparr> BPF_ANY) = 0"
    and "current_pid_tgid env' = current_pid_tgid env" and "0 \<le> sint ret"
    and "holds_user_str env' name s"
    and "\<And>d vm. start_dir env' (ucast dfd) = Some (d, vm) \<Longrightarrow> d \<noteq> 0 \<and> vm \<noteq> 0 \<and> vfs_path env' d vm cs"
  shows "\<exists>e. sensor_events (open_exit env' M (Some ev) ret (open_enter env M dfd name flags st)) =
      sensor_events st @ [e] \<and> se_kind e = K_OPEN \<and> se_ret e = ret \<and> se_dfd e = ucast dfd \<and> se_arg0 e = flags \<and>
      cstr (se_path e) = take (PATH_LEN - 1) s \<and>
      cstr (se_dir e) =
        (if (s \<noteq> [] \<and> hd s = chr CHR ''/'') \<or> start_dir env' (ucast dfd) = None then []
         else take (PATH_LEN - 1) (path_of cs))"
proof -
  let ?p = "\<lparr>p_kind = K_OPEN, p_pad = 0, p_a = [dfd, name, flags, 0], p_uid = 0, p_euid = 0\<rparr>"
  let ?st = "stash env M K_OPEN dfd name flags 0 st"
  have enter: "open_enter env M dfd name flags st = ?st"
    using assms(5,6) by (simp add: open_enter_def reported_open_def)
  have ok: "lin_ok ?st" by (rule stash_lin_ok [OF assms(3)])
  have t: "snd (take_args env' M ?st K_OPEN ret) = Some ?p"
    by (rule take_stashed [OF assms(2,8,9,7)])
  have ok1: "lin_ok (fst (take_args env' M ?st K_OPEN ret))"
    using take_lin_ok [OF ok] by (metis prod.collapse)
  have len: "length ((se_dir ev)[0 := 0]) = PATH_LEN" using assms(4) by (simp add: event_ok_def)
  have empty: "cstr ((se_dir ev)[0 := 0]) = []"
    using len by (cases "se_dir ev") (simp_all add: cstr_def)
  have dir: "cstr (snd (dir_of env' (fst (take_args env' M ?st K_OPEN ret)) (ucast dfd) ((se_dir ev)[0 := 0]))) =
      (if start_dir env' (ucast dfd) = None then [] else take (PATH_LEN - 1) (path_of cs))"
    using dir_of_value [OF assms(1) ok1 len, of "ucast dfd" cs] assms(11) empty by simp
  have "holds_user_str env' (p_a ?p ! 1) s" using assms(10) by simp
  from open_exit_reports [OF assms(1) ok assms(4) t this] show ?thesis
    unfolding enter using dir empty by auto
qed

text \<open>
  C33: An open that only reads is not stashed, so an entry its thread still has
  from an earlier open is taken instead: the exit of the read-only open adds a
  record with the flags and the descriptor of the earlier call.
\<close>

theorem stale_entry_reported:
  assumes "bpf_helpers env'" and "bpf_map M" and "lin_ok st" and "event_ok ev"
    and "\<not> reported_open flags" and "\<not> sensitive_read env name"
    and "map_lookup_elem M (pending_args st) (current_pid_tgid env') = Some p" and "p_kind p = K_OPEN"
    and "0 \<le> sint ret" and "holds_user_str env' (p_a p ! 1) s"
  shows "\<exists>e. sensor_events (open_exit env' M (Some ev) ret (open_enter env M dfd name flags st)) =
      sensor_events st @ [e] \<and> se_arg0 e = p_a p ! 2 \<and> se_dfd e = ucast (p_a p ! 0) \<and>
      cstr (se_path e) = take (PATH_LEN - 1) s"
proof -
  have enter: "open_enter env M dfd name flags st = st"
    using assms(5,6) by (simp add: open_enter_def reported_open_def)
  have "snd (take_args env' M st K_OPEN ret) = Some p"
    using assms(7,8,9) by (simp add: take_args_def Let_def)
  from open_exit_reports [OF assms(1,3,4) this assms(10)] show ?thesis unfolding enter by blast
qed

section \<open>Identity changes\<close>

text \<open>
  C32: The round trip of a \<open>set*id\<close> call that asks for root. A caller that
  is not root and names 0 among the ids of the call gets, when the call
  succeeds, one record with the ids it asked for and with the identity it had
  before the call. Unlike every other entry, the stashing of such a call is
  not counted in the statistics.
\<close>

theorem setid_reported:
  assumes "bpf_map M" and "event_ok ev"
    and "(ucast (current_uid_gid env) :: u32) \<noteq> 0" and "a = 0 \<or> (1 < n \<and> b = 0) \<or> (2 < n \<and> c = 0)"
    and "\<And>p. fst (map_update_elem M (pending_args st) (current_pid_tgid env) p BPF_ANY) = 0"
    and "current_pid_tgid env' = current_pid_tgid env" and "0 \<le> sint ret"
  shows "\<exists>e. sensor_events (setid_exit env' M (Some ev) ret (setid_enter env M which a b c n st)) =
      sensor_events st @ [e] \<and> se_kind e = K_SETID \<and> se_arg0 e = which \<and>
      ucast (se_arg1 e) = a \<and> ucast (drop_bit 32 (se_arg1 e)) = b \<and> ucast (se_arg2 e) = c \<and>
      se_uid e = ucast (current_uid_gid env) \<and>
      se_euid e = core_u32 env (current_task env) [(''task_struct'', ''cred''), (''cred'', ''euid.val'')] \<and>
      stats (setid_enter env M which a b c n st) = stats st"
proof -
  let ?euid = "core_u32 env (current_task env) [(''task_struct'', ''cred''), (''cred'', ''euid.val'')]"
  let ?p = "\<lparr>p_kind = K_SETID, p_pad = 0, p_a = [which, ucast a, ucast b, ucast c],
      p_uid = ucast (current_uid_gid env), p_euid = ?euid\<rparr>"
  obtain m where m: "map_update_elem M (pending_args st) (current_pid_tgid env) ?p BPF_ANY = (0, m)"
    using assms(5) by (metis prod.collapse)
  have enter: "setid_enter env M which a b c n st = st\<lparr>pending_args := m\<rparr>"
    using assms(3,4) m by (auto simp: setid_enter_def Let_def)
  have "map_lookup_elem M m (current_pid_tgid env') = Some ?p"
    using bpf_map.update_key [OF assms(1) m] assms(6) by simp
  then obtain st1 where t: "take_args env' M (st\<lparr>pending_args := m\<rparr>) K_SETID ret = (st1, Some ?p)"
    using assms(7) by (simp add: take_args_def Let_def)
  have "sensor_events st1 = sensor_events st" using take_simps(2) [OF t] by simp
  moreover have "ucast (ucast a OR push_bit 32 (ucast b) :: u64) = a"
    "ucast (drop_bit 32 (ucast a OR push_bit 32 (ucast b) :: u64)) = b"
    "ucast (ucast c :: u64) = c"
    by (auto simp: bit_eq_iff bit_simps dest: bit_imp_le_length)
  ultimately show ?thesis
    unfolding enter by (simp add: setid_exit_def t reserve_def Let_def submit_def)
qed

section \<open>Executions\<close>

text \<open>The executable of the current task, and its entry and mount.\<close>

definition exe_of :: "'a bpf_env_scheme \<Rightarrow> u64" where
  "exe_of env = core_ptr env (current_task env) [(''task_struct'', ''mm''), (''mm_struct'', ''exe_file'')]"

lemma exec_event:
  assumes "bpf_helpers env" and "lin_ok st" and "event_ok ev" and "\<not> skip_self env st"
    and "d = core_ptr env (exe_of env) [(''file'', ''f_path.dentry'')]"
    and "vm = core_ptr env (exe_of env) [(''file'', ''f_path.mnt'')]" and "d \<noteq> 0" and "vm \<noteq> 0"
    and "vfs_path env d vm cs"
    and "nlink = core_u32 env (exe_of env) [(''file'', ''f_inode''), (''inode'', ''__i_nlink'')]"
    and "head = snd (probe_read_kernel env
           (core_ptr env (exe_of env) [(''file'', ''f_path.dentry''), (''dentry'', ''d_name.name'')]) (replicate 6 0))"
  shows "\<exists>e. sensor_events (handle_exec env (Some ev) ctx loc st) = sensor_events st @ [e] \<and>
    se_kind e = (if head = str ''memfd:'' \<or> nlink = 0 then K_FILELESS_EXEC else K_EXEC) \<and>
    se_arg0 e = ucast nlink \<and> cstr (se_path e) = take (PATH_LEN - 1) (path_of cs) \<and>
    se_tgid e = ucast (drop_bit 32 (current_pid_tgid env))"
proof -
  let ?memfd = "head ! 0 = chr CHR ''m'' \<and> head ! 1 = chr CHR ''e'' \<and> head ! 2 = chr CHR ''m'' \<and>
      head ! 3 = chr CHR ''f'' \<and> head ! 4 = chr CHR ''d'' \<and> head ! 5 = chr CHR '':''"
  have len: "length head = 6"
    using bpf_helpers.read_kernel_length [OF assms(1)] assms(11) by simp
  have memfd: "?memfd \<longleftrightarrow> head = str ''memfd:''"
  proof -
    have "head = str ''memfd:'' \<longleftrightarrow> (\<forall>i < 6. head ! i = str ''memfd:'' ! i)"
      using len by (auto simp: list_eq_iff_nth_eq str_def)
    moreover have "(\<forall>i < 6. P i) \<longleftrightarrow> P 0 \<and> P 1 \<and> P 2 \<and> P 3 \<and> P 4 \<and> P (5 :: nat)" for P
      by (simp add: eval_nat_numeral All_less_Suc) blast
    ultimately show ?thesis by (simp add: str_def)
  qed
  define k where "k = (if head = str ''memfd:'' \<or> nlink = 0 then K_FILELESS_EXEC else K_EXEC)"
  obtain e0 where r: "reserve env (Some ev) st k = (st, Some e0)"
    and e0: "se_kind e0 = k" "length (se_path e0) = PATH_LEN" "se_tgid e0 = ucast (drop_bit 32 (current_pid_tgid env))"
    using assms(3) by (auto simp: reserve_def Let_def event_ok_def)
  obtain st2 path where b: "build_path env st d vm (se_path e0) = (st2, path)" by fastforce
  have path: "cstr path = take (PATH_LEN - 1) (path_of cs)"
    using bpf_helpers.build_path_value [OF assms(1,2) e0(2) assms(7-9)] b by simp
  have ev: "sensor_events st2 = sensor_events st"
    using build_path_only [of st env d vm "se_path e0"] b by (simp add: only_scratch_def)
  have "handle_exec env (Some ev) ctx loc st =
      submit (e0\<lparr>se_arg0 := ucast nlink, se_path := path,
        se_path2 := snd (probe_read_kernel_str env (ctx + ucast (loc AND 0xFFFF)) (se_path2 e0))\<rparr>) st2"
    unfolding handle_exec_def Let_def exe_of_def [symmetric] assms(5,6) [symmetric] assms(10,11) [symmetric]
      memfd k_def [symmetric] r
    using assms(4) b by simp
  then show ?thesis using e0 path ev by (simp add: submit_def k_def)
qed

lemma exec_dropped:
  assumes "lin_ok st" and "\<not> skip_self env st"
  shows "handle_exec env None ctx loc st = st\<lparr>drops := (drops st)(cpu env := [hd (drops st (cpu env)) + 1])\<rparr>"
  using assms(2) by (simp add: handle_exec_def Let_def reserve_counts_drops [OF assms(1), THEN conjunct1])

text \<open>
  C30: Every execution outside the agent is reported with the process and the
  path of the new executable, and as fileless exactly when the executable's
  name starts with \<open>memfd:\<close> or no directory entry links to it any more. The
  path of a memfd, a disconnected entry, is its name. Without room in the ring
  buffer the execution is counted as lost.
\<close>

theorem exec_reported:
  assumes "bpf_helpers env" and "lin_ok st" and "event_ok ev" and "\<not> skip_self env st"
    and "d = core_ptr env (exe_of env) [(''file'', ''f_path.dentry'')]"
    and "vm = core_ptr env (exe_of env) [(''file'', ''f_path.mnt'')]" and "d \<noteq> 0" and "vm \<noteq> 0"
    and "vfs_path env d vm cs"
    and "nlink = core_u32 env (exe_of env) [(''file'', ''f_inode''), (''inode'', ''__i_nlink'')]"
    and "head = snd (probe_read_kernel env
           (core_ptr env (exe_of env) [(''file'', ''f_path.dentry''), (''dentry'', ''d_name.name'')]) (replicate 6 0))"
  shows "(\<exists>e. sensor_events (handle_exec env (Some ev) ctx loc st) = sensor_events st @ [e] \<and>
      se_kind e = (if head = str ''memfd:'' \<or> nlink = 0 then K_FILELESS_EXEC else K_EXEC) \<and>
      se_arg0 e = ucast nlink \<and> cstr (se_path e) = take (PATH_LEN - 1) (path_of cs) \<and>
      se_tgid e = ucast (drop_bit 32 (current_pid_tgid env))) \<and>
    handle_exec env None ctx loc st = st\<lparr>drops := (drops st)(cpu env := [hd (drops st (cpu env)) + 1])\<rparr>"
  using exec_event [OF assms] exec_dropped [OF assms(2,4)] by blast

section \<open>Dispatch\<close>

lemma nr_inj: "nr_arm64 s = nr_arm64 s' \<longleftrightarrow> s = s'" "nr_x86 s = nr_x86 s' \<longleftrightarrow> s = s'"
  by (cases s; cases s'; simp)+

lemma in_syscalls: "s \<in> set syscalls"
  by (cases s) (simp_all add: syscalls_def)

lemma syscall_of_iff:
  "(syscall_of arm64 nr = Some s) = ((if arm64 then nr_arm64 s else nr_x86 s) = nr)"
proof
  assume "syscall_of arm64 nr = Some s"
  then show "(if arm64 then nr_arm64 s else nr_x86 s) = nr"
    by (auto simp: syscall_of_def find_Some_iff)
next
  assume n: "(if arm64 then nr_arm64 s else nr_x86 s) = nr"
  have "syscall_of arm64 nr \<noteq> None"
    using n in_syscalls [of s] by (auto simp: syscall_of_def find_None_iff)
  then obtain s' where s': "syscall_of arm64 nr = Some s'" by blast
  then have "(if arm64 then nr_arm64 s' else nr_x86 s') = nr"
    by (auto simp: syscall_of_def find_Some_iff)
  then have "s' = s" using n nr_inj by (auto split: if_splits)
  then show "syscall_of arm64 nr = Some s" using s' by simp
qed

text \<open>
  The dispatch by number: on each architecture a number selects a
  handler exactly when it is that system call's number, so no two cases share
  one, and every other number is ignored.
\<close>

lemma dispatch_exact:
  "(syscall_of arm64 nr = Some s) = ((if arm64 then nr_arm64 s else nr_x86 s) = nr)"
  by (rule syscall_of_iff)

text \<open>
  On arm64 the placeholder numbers are reachable: a program that issues
  the number -2 gets the entry handler of \<open>open\<close> run on its first two arguments.
\<close>

lemma arm64_placeholder_number:
  "raw_sys_enter env M True [regs, - 2] st =
     open_enter env M AT_FDCWD_long
       (core_ptr env regs [(''pt_regs___siem'', ''regs[0]'')])
       (core_ptr env regs [(''pt_regs___siem'', ''regs[1]'')]) st"
proof -
  have "syscall_of True (- 2) = Some Open" by (simp add: syscall_of_iff)
  then show ?thesis by (simp add: raw_sys_enter_def enter_open_def syscall_regs_def)
qed

section \<open>Concrete calls\<close>

abbreviation sample_call_env :: bpf_env where
  "sample_call_env \<equiv> sample_env [(300, str ''x'' @ [0])] 77 5"

lemma sample_holds_x: "holds_user_str sample_call_env 300 (str ''x'')"
  by (simp add: holds_user_str_def sample_env_def cell_env_def cell_read_str_def str_def chr_def cstr_def)

lemma sample_cwd: "current_dir (sample_env um pt ug) = (4096, 8192)"
  by (simp add: current_dir_def sample_defs)

lemma sample_start:
  "start_dir sample_call_env (ucast AT_FDCWD_long) = Some (d, vm) \<Longrightarrow>
     d \<noteq> 0 \<and> vm \<noteq> 0 \<and> vfs_path sample_call_env d vm [str ''a'']"
proof -
  have "ucast AT_FDCWD_long = AT_FDCWD" by (simp add: AT_FDCWD_long_def AT_FDCWD_def)
  then show "start_dir sample_call_env (ucast AT_FDCWD_long) = Some (d, vm) \<Longrightarrow>
     d \<noteq> 0 \<and> vm \<noteq> 0 \<and> vfs_path sample_call_env d vm [str ''a'']"
    using sample_vfs_path by (simp add: start_dir_def sample_cwd)
qed

lemma sample_not_self: "\<not> skip_self sample_call_env sample_lin"
  by (simp add: skip_self_def arr_lookup_def)

lemma pend_update [simp]: "fst (map_update_elem pend_ops m k v BPF_ANY) = 0"
  by (simp add: lru_ops_def)

theorem open_reported_witness:
  "\<exists>e. sensor_events (open_exit sample_call_env pend_ops (Some sample_event) 3
      (open_enter sample_call_env pend_ops AT_FDCWD_long 300 O_WRONLY sample_lin)) = [e] \<and>
     cstr (se_path e) = str ''x'' \<and> cstr (se_dir e) = str ''/a''"
proof -
  have "reported_open O_WRONLY"
    by (simp add: reported_open_def O_WRONLY_def O_RDWR_def O_CREAT_def O_TRUNC_def)
  note w = open_reported [OF sample_helpers lru.bpf_map_axioms sample_lin_ok sample_not_self this pend_update _ _
      sample_holds_x sample_start, where ret = 3 and dfd = AT_FDCWD_long]
  have "ucast AT_FDCWD_long = AT_FDCWD" "str ''x'' \<noteq> []" "hd (str ''x'') \<noteq> chr CHR ''/''"
    by (simp_all add: AT_FDCWD_long_def AT_FDCWD_def str_def chr_def)
  moreover have "take (PATH_LEN - 1) (str ''x'') = str ''x''"
    "take (PATH_LEN - 1) (path_of [str ''a'']) = str ''/a''"
    unfolding sample_path by (simp_all add: str_def)
  moreover have "start_dir sample_call_env AT_FDCWD \<noteq> None" by (simp add: start_dir_def)
  ultimately show ?thesis using w by auto
qed

text \<open>An entry left over from a write to \<open>x\<close>, then a read of a name that cannot be read.\<close>

definition sample_stale :: pending where
  "sample_stale = \<lparr>p_kind = K_OPEN, p_pad = 0, p_a = [AT_FDCWD_long, 300, O_WRONLY, 0], p_uid = 0, p_euid = 0\<rparr>"

theorem stale_entry_reported_witness:
  "\<exists>e. sensor_events (open_exit sample_call_env pend_ops (Some sample_event) 4
      (open_enter sample_call_env pend_ops AT_FDCWD_long 999 0
        (sample_lin\<lparr>pending_args := [(77, sample_stale)]\<rparr>))) = [e] \<and>
     se_arg0 e = O_WRONLY \<and> cstr (se_path e) = str ''x''"
proof -
  let ?st = "sample_lin\<lparr>pending_args := [(77, sample_stale)]\<rparr>"
  have p: "\<not> reported_open 0" "p_kind sample_stale = K_OPEN" "p_a sample_stale ! 1 = 300"
    "p_a sample_stale ! 2 = O_WRONLY"
    "map_lookup_elem pend_ops (pending_args ?st) (current_pid_tgid sample_call_env) = Some sample_stale"
    by (simp_all add: reported_open_def sample_stale_def lru_ops_def)
  have r: "\<not> sensitive_read sample_call_env 999"
    by (simp add: sensitive_read_def sample_env_def cell_env_def cell_read_str_def)
  have ok: "lin_ok ?st" using sample_lin_ok(1) by (simp add: lin_ok_def)
  have x: "take (PATH_LEN - 1) (str ''x'') = str ''x''" by (simp add: str_def)
  have ret: "0 \<le> sint (4 :: u64)" by simp
  have h: "holds_user_str sample_call_env (p_a sample_stale ! 1) (str ''x'')"
    unfolding p(3) by (rule sample_holds_x)
  from stale_entry_reported [OF sample_helpers lru.bpf_map_axioms ok sample_lin_ok(2) p(1) r p(5,2) ret h,
      of AT_FDCWD_long]
  show ?thesis unfolding p(4) x by auto
qed

theorem setid_reported_witness:
  "\<exists>e. sensor_events (setid_exit sample_call_env pend_ops (Some sample_event) 0
      (enter_setresuid sample_call_env pend_ops [7, 0, 9, 0] sample_lin)) = [e] \<and>
     se_uid e = 5 \<and> ucast (se_arg1 e) = (7 :: u32)"
  using setid_reported [OF lru.bpf_map_axioms sample_lin_ok(2), of sample_call_env 7 3 0 9 16384 sample_lin
      sample_call_env 0 ID_SETRESUID]
  by (auto simp: enter_setresuid_def)

theorem exec_reported_witness:
  "\<exists>e. sensor_events (handle_exec sample_call_env (Some sample_event) 500 8 sample_lin) = [e] \<and>
     se_kind e = K_EXEC \<and> cstr (se_path e) = str ''/sh''"
proof -
  have exe: "exe_of sample_call_env = 10752" by (simp add: exe_of_def sample_defs)
  have d: "11264 = core_ptr sample_call_env (exe_of sample_call_env) [(''file'', ''f_path.dentry'')]"
    "8192 = core_ptr sample_call_env (exe_of sample_call_env) [(''file'', ''f_path.mnt'')]"
    "1 = core_u32 sample_call_env (exe_of sample_call_env) [(''file'', ''f_inode''), (''inode'', ''__i_nlink'')]"
    "replicate 6 0 = snd (probe_read_kernel sample_call_env (core_ptr sample_call_env (exe_of sample_call_env)
       [(''file'', ''f_path.dentry''), (''dentry'', ''d_name.name'')]) (replicate 6 0))"
    unfolding exe by (simp_all add: sample_defs str_def)
  have p: "take (PATH_LEN - 1) (path_of [str ''sh'']) = str ''/sh''"
    by (simp add: path_of_def str_def chr_def)
  have k: "(replicate 6 0 :: bytes) \<noteq> str ''memfd:''"
    by (rule notI, drule arg_cong [of _ _ hd]) (simp add: str_def chr_def)
  from exec_reported [OF sample_helpers sample_lin_ok sample_not_self d(1,2) _ _ sample_exe_path d(3,4), of 500 8]
  show ?thesis unfolding p using k by auto
qed

end
