(* ===== verification/Go_Strings.thy ===== *)
theory Go_Strings
  imports Prelude
begin

text \<open>
  The functions of Go's standard library that the agent's rule compiler calls:
  \<open>strings.TrimSpace\<close>, \<open>strings.Split\<close>, \<open>strings.ToLower\<close>, \<open>strings.TrimSuffix\<close>,
  \<open>strings.HasPrefix\<close>, and the Unix versions of \<open>filepath.Base\<close>,
  \<open>filepath.IsAbs\<close> and \<open>filepath.Clean\<close>. A Go string is its list of bytes.
\<close>

abbreviation sep_byte :: u8 where "sep_byte \<equiv> chr CHR ''/''"

section \<open>Prefixes and suffixes\<close>

fun has_prefix :: "bytes \<Rightarrow> bytes \<Rightarrow> bool" where
  "has_prefix s [] \<longleftrightarrow> True"
| "has_prefix [] (p # ps) \<longleftrightarrow> False"
| "has_prefix (b # s) (p # ps) \<longleftrightarrow> b = p \<and> has_prefix s ps"

lemma has_prefix_iff: "has_prefix s p \<longleftrightarrow> (\<exists>r. s = p @ r)"
  by (induction s p rule: has_prefix.induct) auto

lemma has_prefix_length: "has_prefix s p \<Longrightarrow> length p \<le> length s"
  by (auto simp: has_prefix_iff)

definition trim_suffix :: "bytes \<Rightarrow> bytes \<Rightarrow> bytes" where
  "trim_suffix s t =
     (if has_prefix (rev s) (rev t) then take (length s - length t) s else s)"

section \<open>White space\<close>

text \<open>The UTF-8 encodings of the code points \<open>unicode.IsSpace\<close> accepts.\<close>

definition go_spaces :: "bytes list" where
  "go_spaces =
     [[9], [10], [11], [12], [13], [32], [0xC2, 0x85], [0xC2, 0xA0], [0xE1, 0x9A, 0x80],
      [0xE2, 0x80, 0x80], [0xE2, 0x80, 0x81], [0xE2, 0x80, 0x82], [0xE2, 0x80, 0x83],
      [0xE2, 0x80, 0x84], [0xE2, 0x80, 0x85], [0xE2, 0x80, 0x86], [0xE2, 0x80, 0x87],
      [0xE2, 0x80, 0x88], [0xE2, 0x80, 0x89], [0xE2, 0x80, 0x8A], [0xE2, 0x80, 0xA8],
      [0xE2, 0x80, 0xA9], [0xE2, 0x80, 0xAF], [0xE2, 0x81, 0x9F], [0xE3, 0x80, 0x80]]"

text \<open>Strip any of the given words from the front, as long as one is there.\<close>

function trim_words :: "bytes list \<Rightarrow> bytes \<Rightarrow> bytes" where
  "trim_words ws s =
     (case find (\<lambda>w. w \<noteq> [] \<and> has_prefix s w) ws of None \<Rightarrow> s
      | Some w \<Rightarrow> trim_words ws (drop (length w) s))"
  by pat_completeness auto
termination
proof (relation "measure (\<lambda>(ws, s). length s)", goal_cases)
  case (2 ws s w)
  then have "w \<noteq> []" and "has_prefix s w" by (auto simp: find_Some_iff)
  then show ?case by (auto simp: has_prefix_iff)
qed simp

declare trim_words.simps [simp del]

definition trim_space :: "bytes \<Rightarrow> bytes" where
  "trim_space s = rev (trim_words (map rev go_spaces) (rev (trim_words go_spaces s)))"

section \<open>Splitting and case\<close>

fun split_on :: "u8 \<Rightarrow> bytes \<Rightarrow> bytes list" where
  "split_on c [] = [[]]"
| "split_on c (b # s) =
     (if b = c then [] # split_on c s
      else (case split_on c s of [] \<Rightarrow> [[b]] | w # ws \<Rightarrow> (b # w) # ws))"

lemma split_on_not_Nil [simp]: "split_on c s \<noteq> []"
  by (induction s) (auto split: list.split)

lemma split_on_no_sep: "w \<in> set (split_on c s) \<Longrightarrow> c \<notin> set w"
  by (induction s arbitrary: w) (auto split: list.splits if_splits)

text \<open>\<open>strings.Join\<close>.\<close>

fun join_with :: "bytes \<Rightarrow> bytes list \<Rightarrow> bytes" where
  "join_with sep [] = []"
| "join_with sep [s] = s"
| "join_with sep (s # t # ss) = s @ sep @ join_with sep (t # ss)"

definition to_lower :: "bytes \<Rightarrow> bytes" where
  "to_lower s = map (\<lambda>b. if 65 \<le> b \<and> b \<le> 90 then b + 32 else b) s"

definition is_hex :: "u8 \<Rightarrow> bool" where
  "is_hex b \<longleftrightarrow> (48 \<le> b \<and> b \<le> 57) \<or> (97 \<le> b \<and> b \<le> 102) \<or> (65 \<le> b \<and> b \<le> 70)"

text \<open>\<open>hex.DecodeString\<close> succeeds and yields \<open>n\<close> bytes.\<close>

definition hex_of_size :: "nat \<Rightarrow> bytes \<Rightarrow> bool" where
  "hex_of_size n s \<longleftrightarrow> length s = 2 * n \<and> list_all is_hex s"

section \<open>Paths\<close>

definition path_is_abs :: "bytes \<Rightarrow> bool" where
  "path_is_abs p \<longleftrightarrow> has_prefix p [sep_byte]"

definition path_base :: "bytes \<Rightarrow> bytes" where
  "path_base p =
     (if p = [] then str ''.''
      else
        let q = rev (dropWhile (\<lambda>b. b = sep_byte) (rev p));
            r = rev (takeWhile (\<lambda>b. b \<noteq> sep_byte) (rev q))
        in if r = [] then [sep_byte] else r)"

text \<open>
  \<open>filepath.Clean\<close> of a rooted path: empty and \<open>.\<close> elements go, \<open>..\<close> takes
  the element before it away, and the root has no parent. The accumulator
  holds the elements kept so far, last first.
\<close>

fun clean_parts :: "bytes list \<Rightarrow> bytes list \<Rightarrow> bytes list" where
  "clean_parts acc [] = rev acc"
| "clean_parts acc (w # ws) =
     (if w = [] \<or> w = str ''.'' then clean_parts acc ws
      else if w = str ''..'' then clean_parts (tl acc) ws
      else clean_parts (w # acc) ws)"

definition join_path :: "bytes list \<Rightarrow> bytes" where
  "join_path ws = (if ws = [] then [sep_byte] else concat (map (\<lambda>w. sep_byte # w) ws))"

definition path_clean :: "bytes \<Rightarrow> bytes" where
  "path_clean p = join_path (clean_parts [] (split_on sep_byte p))"

text \<open>A clean element: not empty, no slash, neither \<open>.\<close> nor \<open>..\<close>.\<close>

definition plain_part :: "bytes \<Rightarrow> bool" where
  "plain_part w \<longleftrightarrow> w \<noteq> [] \<and> sep_byte \<notin> set w \<and> w \<noteq> str ''.'' \<and> w \<noteq> str ''..''"

lemma list_all_tl: "list_all P xs \<Longrightarrow> list_all P (tl xs)"
  by (cases xs) simp_all

lemma clean_parts_plain:
  "list_all plain_part acc \<Longrightarrow> list_all (\<lambda>w. sep_byte \<notin> set w) ws \<Longrightarrow>
     list_all plain_part (clean_parts acc ws)"
  by (induction acc ws rule: clean_parts.induct) (simp_all add: plain_part_def list_all_tl)

lemma clean_parts_id: "list_all plain_part ws \<Longrightarrow> clean_parts acc ws = rev acc @ ws"
  by (induction ws arbitrary: acc) (auto simp: plain_part_def)

lemma split_on_word: "c \<notin> set w \<Longrightarrow> split_on c w = [w]"
  by (induction w) auto

lemma split_on_append: "c \<notin> set w \<Longrightarrow> split_on c (w @ c # s) = w # split_on c s"
  by (induction w) auto

lemma split_join:
  "ws \<noteq> [] \<Longrightarrow> list_all (\<lambda>w. c \<notin> set w) ws \<Longrightarrow>
     split_on c (concat (map (\<lambda>w. c # w) ws)) = [] # ws"
proof (induction ws)
  case (Cons w ws)
  then show ?case
  proof (cases "ws = []")
    case True
    then show ?thesis using Cons.prems by (simp add: split_on_word)
  next
    case False
    then obtain v vs where vs: "ws = v # vs" by (cases ws) auto
    have "split_on c (w @ c # v @ concat (map (\<lambda>w. c # w) vs)) = w # split_on c (v @ concat (map (\<lambda>w. c # w) vs))"
      using Cons.prems by (simp add: split_on_append)
    moreover have "[] # split_on c (v @ concat (map (\<lambda>w. c # w) vs)) = [] # ws"
      using Cons vs by simp
    ultimately show ?thesis using vs by simp
  qed
qed simp

lemma path_clean_parts: "list_all plain_part (clean_parts [] (split_on sep_byte p))"
  by (rule clean_parts_plain) (auto simp: list_all_iff dest: split_on_no_sep)

text \<open>Cleaning is idempotent, and its result is absolute.\<close>

lemma path_clean_idem: "path_clean (path_clean p) = path_clean p"
proof -
  define ws where "ws = clean_parts [] (split_on sep_byte p)"
  have plain: "list_all plain_part ws" unfolding ws_def by (rule path_clean_parts)
  have "clean_parts [] (split_on sep_byte (join_path ws)) = ws"
  proof (cases "ws = []")
    case True
    then show ?thesis by (simp add: join_path_def)
  next
    case False
    have "list_all (\<lambda>w. sep_byte \<notin> set w) ws"
      using plain by (auto simp: list_all_iff plain_part_def)
    then show ?thesis
      using False plain by (simp add: join_path_def split_join clean_parts_id)
  qed
  then show ?thesis by (simp add: path_clean_def ws_def)
qed

lemma path_clean_abs: "path_is_abs (path_clean p)"
  by (cases "clean_parts [] (split_on sep_byte p)")
    (auto simp: path_is_abs_def path_clean_def join_path_def)

lemma path_base_no_slash: "path_base p = [sep_byte] \<or> sep_byte \<notin> set (path_base p)"
  by (auto simp: path_base_def Let_def str_def chr_def dest: set_takeWhileD)

end
