(* ===== verification/C_Layout.thy ===== *)
theory C_Layout
  imports Prelude
begin

text \<open>
  The layout of C types on the 64-bit targets the programs are compiled for
  (System V: a member starts at the next multiple of its alignment, a
  bitfield stays inside one unit of its declared type). Positions are counted
  in bits. Field names reach through anonymous members, as in C.
\<close>

section \<open>Types and their sizes\<close>

text \<open>
  \<open>CInt n\<close> is any scalar of \<open>n\<close> bytes, \<open>CPtr\<close> a pointer. \<open>Bits f s w\<close> is the
  bitfield \<open>f\<close> of \<open>w\<close> bits in a type of \<open>s\<close> bytes; an unnamed one is padding, and
  one of width 0 ends the unit. An anonymous structure or union has the empty name.
\<close>

datatype cty =
    CInt nat
  | CPtr
  | CArr nat cty
  | CStruct "member list"
  | CUnion "member list"
and member =
    Field string cty
  | Bits string nat nat

definition align_up :: "nat \<Rightarrow> nat \<Rightarrow> nat" where
  "align_up p a = (p + a - 1) div a * a"

text \<open>Where a bitfield of \<open>w\<close> bits in units of \<open>s\<close> bytes starts, at the earliest from \<open>p\<close>.\<close>

definition bits_start :: "nat \<Rightarrow> nat \<Rightarrow> nat \<Rightarrow> nat" where
  "bits_start p s w =
     (if w = 0 \<or> p div (8 * s) \<noteq> (p + w - 1) div (8 * s) then align_up p (8 * s) else p)"

fun csize :: "cty \<Rightarrow> nat"
  and calign :: "cty \<Rightarrow> nat"
  and struct_end :: "nat \<Rightarrow> member list \<Rightarrow> nat"
  and union_end :: "member list \<Rightarrow> nat"
  and members_align :: "member list \<Rightarrow> nat" where
  "csize (CInt n) = n"
| "csize CPtr = 8"
| "csize (CArr k t) = k * csize t"
| "csize (CStruct ms) = align_up (struct_end 0 ms) (8 * members_align ms) div 8"
| "csize (CUnion ms) = align_up (union_end ms) (8 * members_align ms) div 8"
| "calign (CInt n) = n"
| "calign CPtr = 8"
| "calign (CArr k t) = calign t"
| "calign (CStruct ms) = members_align ms"
| "calign (CUnion ms) = members_align ms"
| "struct_end p [] = p"
| "struct_end p (Field f t # ms) = struct_end (align_up p (8 * calign t) + 8 * csize t) ms"
| "struct_end p (Bits f s w # ms) = struct_end (bits_start p s w + w) ms"
| "union_end [] = 0"
| "union_end (Field f t # ms) = max (8 * csize t) (union_end ms)"
| "union_end (Bits f s w # ms) = max w (union_end ms)"
| "members_align [] = 1"
| "members_align (Field f t # ms) = max (calign t) (members_align ms)"
| "members_align (Bits f s w # ms) = (if f = [] then members_align ms else max s (members_align ms))"

text \<open>Induction along the positions of the members.\<close>

lemma struct_end_induct [case_names Nil Field Bits]:
  assumes "\<And>p. P p []"
    and "\<And>p f t ms. P (align_up p (8 * calign t) + 8 * csize t) ms \<Longrightarrow> P p (Field f t # ms)"
    and "\<And>p f s w ms. P (bits_start p s w + w) ms \<Longrightarrow> P p (Bits f s w # ms)"
  shows "P p ms"
proof (induction ms arbitrary: p)
  case (Cons m ms)
  then show ?case using assms(2,3) by (cases m) simp_all
qed (simp add: assms(1))

section \<open>Fields\<close>

text \<open>Bit position and type of a field, through anonymous members.\<close>

fun field :: "string \<Rightarrow> cty \<Rightarrow> (nat \<times> cty) option"
  and struct_field :: "string \<Rightarrow> nat \<Rightarrow> member list \<Rightarrow> (nat \<times> cty) option"
  and union_field :: "string \<Rightarrow> member list \<Rightarrow> (nat \<times> cty) option" where
  "field f (CStruct ms) = struct_field f 0 ms"
| "field f (CUnion ms) = union_field f ms"
| "field f t = None"
| "struct_field f p [] = None"
| "struct_field f p (Bits g s w # ms) = struct_field f (bits_start p s w + w) ms"
| "struct_field f p (Field g t # ms) =
     (if g = f then Some (align_up p (8 * calign t), t)
      else case (if g = [] then field f t else None) of
          Some (q, u) \<Rightarrow> Some (align_up p (8 * calign t) + q, u)
        | None \<Rightarrow> struct_field f (align_up p (8 * calign t) + 8 * csize t) ms)"
| "union_field f [] = None"
| "union_field f (Bits g s w # ms) = union_field f ms"
| "union_field f (Field g t # ms) =
     (if g = f then Some (0, t)
      else case (if g = [] then field f t else None) of
          Some (q, u) \<Rightarrow> Some (q, u)
        | None \<Rightarrow> union_field f ms)"

fun split_dots :: "string \<Rightarrow> string list" where
  "split_dots [] = [[]]"
| "split_dots (c # cs) =
     (if c = CHR ''.'' then [] # split_dots cs
      else (case split_dots cs of [] \<Rightarrow> [[c]] | s # ss \<Rightarrow> (c # s) # ss))"

text \<open>A designator such as \<open>f_path.dentry\<close>: the fields one inside the other.\<close>

fun fields :: "string list \<Rightarrow> cty \<Rightarrow> (nat \<times> cty) option" where
  "fields [] t = Some (0, t)"
| "fields (f # fs) t =
     (case field f t of None \<Rightarrow> None
      | Some (p, u) \<Rightarrow> (case fields fs u of None \<Rightarrow> None | Some (q, v) \<Rightarrow> Some (p + q, v)))"

definition designator :: "string \<Rightarrow> cty \<Rightarrow> (nat \<times> cty) option" where
  "designator f t = fields (split_dots f) t"

definition offsetof :: "cty \<Rightarrow> string \<Rightarrow> nat" where
  "offsetof t f = (case designator f t of None \<Rightarrow> 0 | Some (p, u) \<Rightarrow> p div 8)"

lemma struct_end_append: "struct_end p (xs @ ys) = struct_end (struct_end p xs) ys"
  by (induction p xs rule: struct_end_induct) simp_all

lemma struct_field_append:
  "struct_field f p (xs @ ys) =
     (case struct_field f p xs of None \<Rightarrow> struct_field f (struct_end p xs) ys | Some r \<Rightarrow> Some r)"
  by (induction p xs rule: struct_end_induct) (simp_all split: option.split)

section \<open>Fields lie inside their structure\<close>

text \<open>Scalars have one of the sizes the targets have.\<close>

fun cty_ok :: "cty \<Rightarrow> bool" and members_ok :: "member list \<Rightarrow> bool" where
  "cty_ok (CInt n) \<longleftrightarrow> n \<in> {1, 2, 4, 8}"
| "cty_ok CPtr \<longleftrightarrow> True"
| "cty_ok (CArr k t) \<longleftrightarrow> cty_ok t"
| "cty_ok (CStruct ms) \<longleftrightarrow> members_ok ms"
| "cty_ok (CUnion ms) \<longleftrightarrow> members_ok ms"
| "members_ok [] \<longleftrightarrow> True"
| "members_ok (Field f t # ms) \<longleftrightarrow> cty_ok t \<and> members_ok ms"
| "members_ok (Bits f s w # ms) \<longleftrightarrow> s \<in> {1, 2, 4, 8} \<and> w \<le> 8 * s \<and> members_ok ms"

lemma align_up_ge: "0 < a \<Longrightarrow> p \<le> align_up p a"
  using div_mult_mod_eq [of "p + a - 1" a] mod_less_divisor [of a "p + a - 1"]
  unfolding align_up_def by linarith

lemma align_up_dvd [simp]: "a dvd align_up p a"
  by (simp add: align_up_def)

lemma bits_start_ge: "0 < s \<Longrightarrow> p \<le> bits_start p s w"
  by (simp add: bits_start_def align_up_ge)

text \<open>Alignments are powers of two up to 8, so the larger of two is a multiple of the smaller.\<close>

lemma align_dvd:
  assumes "a \<in> {1, 2, 4, 8 :: nat}" and "b \<in> {1, 2, 4, 8}"
  shows "a dvd max a b" "b dvd max a b" "max a b \<in> {1, 2, 4, 8}"
  using assms by auto

lemma align_ok:
  "cty_ok t \<longrightarrow> calign t \<in> {1, 2, 4, 8}"
  "members_ok ms \<longrightarrow> members_align ms \<in> {1, 2, 4, 8}"
proof (induction t and ms rule: cty_ok_members_ok.induct)
  case (7 f t ms)
  then show ?case using align_dvd(3) [of "calign t" "members_align ms"] by simp
next
  case (8 f s w ms)
  then show ?case using align_dvd(3) [of s "members_align ms"] by simp
qed simp_all

lemma dvd_align:
  assumes "x \<in> {1, 2, 4, 8 :: nat}" and "y \<in> {1, 2, 4, 8}"
  shows "x dvd max x y" "y dvd max x y"
  using align_dvd [OF assms] by auto

lemma calign_dvd_csize: "cty_ok t \<Longrightarrow> calign t dvd csize t"
proof (induction t rule: cty.induct [where ?P2.0 = "\<lambda>_. True"])
  case (CStruct ms)
  then show ?case by (simp add: align_up_def mult.assoc mult.commute [of 8])
next
  case (CUnion ms)
  then show ?case by (simp add: align_up_def mult.assoc mult.commute [of 8])
qed auto

lemma align_pos: "cty_ok t \<Longrightarrow> 0 < calign t" "members_ok ms \<Longrightarrow> 0 < members_align ms"
  using align_ok(1) [of t] align_ok(2) [of ms] by auto

lemma struct_end_ge: "members_ok ms \<Longrightarrow> p \<le> struct_end p ms"
proof (induction p ms rule: struct_end_induct)
  case (Field p f t ms)
  then show ?case using align_pos(1) [of t] align_up_ge [of "8 * calign t" p] by simp
next
  case (Bits p f s w ms)
  then show ?case using bits_start_ge [of s p w] by auto
qed simp

text \<open>
  What holds of a field found at \<open>q\<close> in members that reach from \<open>p\<close> to \<open>e\<close>
  and have alignment \<open>a\<close>.
\<close>

definition field_in :: "nat \<Rightarrow> nat \<Rightarrow> nat \<Rightarrow> nat \<times> cty \<Rightarrow> bool" where
  "field_in p e a r \<longleftrightarrow> (case r of (q, u) \<Rightarrow>
     cty_ok u \<and> 8 * calign u dvd q \<and> p \<le> q \<and> q + 8 * csize u \<le> e \<and> calign u dvd a)"

lemma field_in_weaken:
  "field_in p e a r \<Longrightarrow> p' \<le> p \<Longrightarrow> e \<le> e' \<Longrightarrow> a dvd a' \<Longrightarrow> field_in p' e' a' r"
  by (auto simp: field_in_def split: prod.splits intro: dvd_trans)

lemma field_in_shift:
  assumes "field_in 0 e a (q, u)" and "8 * a dvd d"
  shows "field_in d (d + e) a (d + q, u)"
proof -
  have "8 * calign u dvd d"
    using assms dvd_trans [of "8 * calign u" "8 * a" d] by (simp add: field_in_def)
  then show ?thesis using assms by (simp add: field_in_def)
qed

lemma field_bounds:
  "cty_ok t \<Longrightarrow> field f t = Some r \<Longrightarrow> field_in 0 (8 * csize t) (calign t) r"
  "members_ok ms \<Longrightarrow> struct_field f p ms = Some r \<Longrightarrow> field_in p (struct_end p ms) (members_align ms) r"
  "members_ok ms \<Longrightarrow> union_field f ms = Some r \<Longrightarrow> field_in 0 (union_end ms) (members_align ms) r"
proof (induction f t and f p ms and f ms arbitrary: r and r and r rule: field_struct_field_union_field.induct)
  case (1 f ms)
  then show ?case
    using align_up_ge [of "8 * members_align ms" "struct_end 0 ms"] align_pos(2) [of ms]
    by (auto elim!: field_in_weaken simp: align_up_def mult.assoc mult.commute [of 8])
next
  case (2 f ms)
  then show ?case
    using align_up_ge [of "8 * members_align ms" "union_end ms"] align_pos(2) [of ms]
    by (auto elim!: field_in_weaken simp: align_up_def mult.assoc mult.commute [of 8])
next
  case (5 f p g s w ms)
  have "p \<le> bits_start p s w" using 5(2) by (auto simp: bits_start_ge)
  moreover have "members_align ms dvd members_align (Bits g s w # ms)"
    using 5(2) align_ok(2) [of ms] dvd_align(2) [of s "members_align ms"] by simp
  ultimately show ?case using 5 by (auto elim!: field_in_weaken)
next
  case (6 f p g t ms)
  let ?q = "align_up p (8 * calign t)"
  have q: "p \<le> ?q" "8 * calign t dvd ?q" using 6(3) align_pos(1) [of t] by (simp_all add: align_up_ge)
  have d: "calign t dvd members_align (Field g t # ms)" "members_align ms dvd members_align (Field g t # ms)"
    using 6(3) align_ok(1) [of t] align_ok(2) [of ms] dvd_align [of "calign t" "members_align ms"] by auto
  have e: "?q + 8 * csize t \<le> struct_end (?q + 8 * csize t) ms" using 6(3) by (simp add: struct_end_ge)
  consider "g = f" | r' where "g \<noteq> f" "g = []" "field f t = Some r'"
    | "g \<noteq> f" "(if g = [] then field f t else None) = None"
    by (cases "g = f"; cases "g = []"; cases "field f t") auto
  then show ?case
  proof cases
    case 1
    then show ?thesis using 6(3,4) q d e by (auto simp: field_in_def)
  next
    case 2
    then have "field_in ?q (?q + 8 * csize t) (calign t) (?q + fst r', snd r')"
      using field_in_shift [of "8 * csize t" "calign t" "fst r'" "snd r'" ?q] 6(1) [of r'] 6(3) q by simp
    then have "field_in p (struct_end (?q + 8 * csize t) ms) (members_align (Field g t # ms)) (?q + fst r', snd r')"
      using q(1) e d(1) by (rule field_in_weaken)
    then show ?thesis using 2 6(4) by (auto split: prod.splits)
  next
    case 3
    then have "field_in (?q + 8 * csize t) (struct_end (?q + 8 * csize t) ms) (members_align ms) r"
      using 6(2) [of r] 6(3,4) by simp
    then show ?thesis using field_in_weaken [OF _ _ order_refl d(2)] q(1) by simp
  qed
next
  case (8 f g s w ms)
  have "members_align ms dvd members_align (Bits g s w # ms)"
    using 8(2) align_ok(2) [of ms] dvd_align(2) [of s "members_align ms"] by simp
  then show ?case using 8 by (auto elim!: field_in_weaken)
next
  case (9 f g t ms)
  have d: "calign t dvd members_align (Field g t # ms)" "members_align ms dvd members_align (Field g t # ms)"
    using 9(3) align_ok(1) [of t] align_ok(2) [of ms] dvd_align [of "calign t" "members_align ms"] by auto
  consider "g = f" | r' where "g \<noteq> f" "g = []" "field f t = Some r'"
    | "g \<noteq> f" "(if g = [] then field f t else None) = None"
    by (cases "g = f"; cases "g = []"; cases "field f t") auto
  then show ?case
  proof cases
    case 1
    then show ?thesis using 9(3,4) d by (auto simp: field_in_def)
  next
    case 2
    then have "field_in 0 (8 * csize t) (calign t) r'" using 9(1) [of r'] 9(3) by simp
    then have "field_in 0 (union_end (Field g t # ms)) (members_align (Field g t # ms)) r'"
      using d(1) by (elim field_in_weaken) simp_all
    then show ?thesis using 2 9(4) by (auto split: prod.splits)
  next
    case 3
    then have "field_in 0 (union_end ms) (members_align ms) r" using 9(2) [of r] 9(3,4) by simp
    then show ?thesis using d(2) by (elim field_in_weaken) simp_all
  qed
qed simp_all

lemma fields_bounds:
  "cty_ok t \<Longrightarrow> fields fs t = Some r \<Longrightarrow> field_in 0 (8 * csize t) (calign t) r"
proof (induction fs arbitrary: t r)
  case Nil
  then show ?case by (auto simp: field_in_def)
next
  case (Cons f fs)
  then obtain p u q v where f: "field f t = Some (p, u)" "fields fs u = Some (q, v)" "r = (p + q, v)"
    by (auto split: option.splits prod.splits)
  from field_bounds(1) [OF Cons.prems(1) f(1)] have
    b: "cty_ok u" "8 * calign u dvd p" "p + 8 * csize u \<le> 8 * csize t" "calign u dvd calign t"
    by (simp_all add: field_in_def)
  have "field_in p (p + 8 * csize u) (calign u) r"
    using field_in_shift [OF _ b(2)] Cons.IH [OF b(1) f(2)] f(3) by simp
  then show ?case using b(3,4) by (elim field_in_weaken) simp_all
qed

lemmas designator_bounds = fields_bounds [of _ "split_dots f" for f, folded designator_def]

end
