(* ===== verification/Prevent_Rules.thy ===== *)
theory Prevent_Rules
  imports Go_Strings
begin

text \<open>
  \<open>rules.go\<close> of the agent's prevention package, as it is built for Linux:
  the rules the server sends, their validation and compilation into a policy
  (\<open>Compile\<close>), the guard that keeps block rules off the executables the host
  needs, and the decision the agent takes itself (\<open>match\<close>) where the kernel
  does not. The file system is the record \<open>go_os\<close> of parameters: the paths
  symbolic links resolve to, the hash of a file, \<open>stat\<close>.
\<close>

record go_os =
  os_executable :: "bytes option"
  eval_symlinks :: "bytes \<Rightarrow> bytes option"
  hash_file :: "bytes \<Rightarrow> bytes option"
  os_stat :: "bytes \<Rightarrow> (u64 \<times> u64) option"
  unix_major :: "u64 \<Rightarrow> u32"
  unix_minor :: "u64 \<Rightarrow> u32"

section \<open>Rules and policies\<close>

definition TypeHash :: bytes where "TypeHash = str ''hash''"
definition TypePath :: bytes where "TypePath = str ''path''"
definition TypeDir :: bytes where "TypeDir = str ''dir''"
definition TypeParent :: bytes where "TypeParent = str ''parent''"
definition ActionDetect :: bytes where "ActionDetect = str ''detect''"
definition ActionBlock :: bytes where "ActionBlock = str ''block''"

lemma rule_types_distinct [simp]:
  "distinct [TypeHash, TypePath, TypeDir, TypeParent]"
  "TypeHash \<noteq> TypePath" "TypeHash \<noteq> TypeDir" "TypeHash \<noteq> TypeParent" "TypePath \<noteq> TypeHash"
  "TypePath \<noteq> TypeDir" "TypePath \<noteq> TypeParent" "TypeDir \<noteq> TypeHash" "TypeDir \<noteq> TypePath"
  "TypeDir \<noteq> TypeParent" "TypeParent \<noteq> TypeHash" "TypeParent \<noteq> TypePath" "TypeParent \<noteq> TypeDir"
  by (simp_all add: TypeHash_def TypePath_def TypeDir_def TypeParent_def str_def chr_def)

definition maxRules :: nat where "maxRules = 1024"
definition maxParentRules :: nat where "maxParentRules = 64"
definition nameLen :: nat where "nameLen = 32"

record rule =
  r_id :: bytes
  r_name :: bytes
  r_type :: bytes
  r_value :: bytes
  r_parent :: bytes
  r_action :: bytes

record compiled = rule +
  c_index :: nat
  c_block :: bool
  c_parents :: "bytes list"
  c_children :: "bytes list"

record go_policy =
  pol_rules :: "compiled list"
  pol_hashes :: "bytes \<Rightarrow> compiled option"
  pol_paths :: "bytes \<Rightarrow> compiled option"
  pol_dirs :: "compiled list"
  pol_parents :: "compiled list"
  pol_off :: bool
  pol_guard_hashes :: "bytes \<Rightarrow> bytes option"

datatype compile_error =
    UnknownAction bytes bytes
  | NotSHA256 bytes bytes
  | NotAbsolute bytes bytes
  | NoNames bytes
  | TooManyParents bytes
  | UnknownType bytes bytes
  | TooManyRules
  | NotBlocking bytes bytes

section \<open>The guard\<close>

definition protectedPaths :: "bytes list" where
  "protectedPaths = map str
     [''/sbin/init'', ''/usr/sbin/init'', ''/lib/systemd/systemd'', ''/usr/lib/systemd/systemd'',
      ''/bin/sh'', ''/usr/bin/sh'', ''/bin/bash'', ''/usr/bin/bash'', ''/bin/dash'', ''/usr/bin/dash'',
      ''/usr/sbin/sshd'', ''/usr/bin/sudo'', ''/usr/bin/login'', ''/usr/sbin/nft'', ''/usr/sbin/iptables'']"

text \<open>\<open>foldCase\<close> is set on Windows only.\<close>

definition foldCase :: bool where "foldCase = False"

definition fold_case :: "bytes \<Rightarrow> bytes" where
  "fold_case s = (if foldCase then to_lower s else s)"

lemma fold_case_linux [simp]: "fold_case s = s"
  by (simp add: fold_case_def foldCase_def)

record guard =
  g_paths :: "bytes list"
  g_hashes :: "bytes \<Rightarrow> bytes option"

definition guard_add :: "go_os \<Rightarrow> bytes \<Rightarrow> guard \<Rightarrow> guard" where
  "guard_add os p g =
     (case eval_symlinks os p of None \<Rightarrow> g
      | Some real \<Rightarrow>
          let g = g\<lparr>g_paths := g_paths g @ [fold_case real]\<rparr>
          in (case hash_file os real of None \<Rightarrow> g
              | Some h \<Rightarrow> g\<lparr>g_hashes := (g_hashes g)(h \<mapsto> real)\<rparr>))"

definition guarded_paths :: "go_os \<Rightarrow> bytes list" where
  "guarded_paths os =
     protectedPaths @ (case os_executable os of None \<Rightarrow> [] | Some exe \<Rightarrow> [exe])"

definition newGuard :: "go_os \<Rightarrow> guard" where
  "newGuard os = fold (guard_add os) (guarded_paths os) \<lparr>g_paths = [], g_hashes = Map.empty\<rparr>"

definition under :: "bytes \<Rightarrow> bytes \<Rightarrow> bool" where
  "under path dir =
     (let dir = trim_suffix dir [sep_byte]
      in path = dir \<or> has_prefix path (dir @ [sep_byte]) \<or> dir = [])"

text \<open>Why a block rule must not be enforced; empty when nothing speaks against it.\<close>

definition refuse :: "go_os \<Rightarrow> guard \<Rightarrow> compiled \<Rightarrow> bytes" where
  "refuse os g c =
     (if r_type c = TypeHash then
        (case g_hashes g (r_value c) of None \<Rightarrow> [] | Some p \<Rightarrow> str ''the hash is '' @ p)
      else if r_type c = TypePath \<or> r_type c = TypeDir then
        let target = (case eval_symlinks os (r_value c) of None \<Rightarrow> r_value c | Some real \<Rightarrow> fold_case real)
        in (case find (\<lambda>p. (r_type c = TypePath \<and> p = target) \<or> (r_type c = TypeDir \<and> under p target))
                   (g_paths g) of
              None \<Rightarrow> [] | Some p \<Rightarrow> str ''it covers '' @ p)
      else [])"

section \<open>Compilation\<close>

definition splitNames :: "bytes \<Rightarrow> bytes list" where
  "splitNames s =
     map path_base (filter (\<lambda>n. n \<noteq> []) (map trim_space (split_on (chr CHR '','') s)))"

text \<open>The checks of one rule, up to the end of the switch over its type.\<close>

definition check_rule :: "go_policy \<Rightarrow> rule \<Rightarrow> compile_error + compiled" where
  "check_rule p r =
     (let c = rule.extend r \<lparr>c_index = 0, c_block = (r_action r = ActionBlock),
                c_parents = [], c_children = []\<rparr> in
      if r_action r \<noteq> ActionBlock \<and> r_action r \<noteq> ActionDetect
      then Inl (UnknownAction (r_name r) (r_action r))
      else if r_type r = TypeHash then
        let v = to_lower (trim_space (r_value r))
        in if hex_of_size 32 v then Inr (c\<lparr>r_value := v\<rparr>) else Inl (NotSHA256 (r_name r) (r_value r))
      else if r_type r = TypePath \<or> r_type r = TypeDir then
        if \<not> path_is_abs (r_value r) then Inl (NotAbsolute (r_name r) (r_type r))
        else Inr (c\<lparr>r_value := fold_case (path_clean (r_value r))\<rparr>)
      else if r_type r = TypeParent then
        let ps = splitNames (fold_case (r_parent r)); cs = splitNames (fold_case (r_value r))
        in if ps = [] \<or> cs = [] then Inl (NoNames (r_name r))
           else if length (pol_parents p) = maxParentRules then Inl (TooManyParents (r_name r))
           else Inr (c\<lparr>c_parents := ps, c_children := cs\<rparr>)
      else Inl (UnknownType (r_name r) (r_type r)))"

text \<open>Whether a checked rule stays a block rule, and the error when it does not.\<close>

definition guard_rule :: "go_os \<Rightarrow> guard \<Rightarrow> compiled \<Rightarrow> compiled \<times> compile_error list" where
  "guard_rule os g c =
     (if c_block c \<and> refuse os g c \<noteq> []
      then (c\<lparr>c_block := False\<rparr>, [NotBlocking (r_name c) (refuse os g c)])
      else (c, []))"

definition add_rule :: "go_policy \<Rightarrow> compiled \<Rightarrow> go_policy" where
  "add_rule p c =
     (let c = c\<lparr>c_index := length (pol_rules p)\<rparr>;
          p = p\<lparr>pol_rules := pol_rules p @ [c]\<rparr>
      in if r_type c = TypeHash then p\<lparr>pol_hashes := (pol_hashes p)(r_value c \<mapsto> c)\<rparr>
         else if r_type c = TypePath then p\<lparr>pol_paths := (pol_paths p)(r_value c \<mapsto> c)\<rparr>
         else if r_type c = TypeDir then p\<lparr>pol_dirs := pol_dirs p @ [c]\<rparr>
         else if r_type c = TypeParent then p\<lparr>pol_parents := pol_parents p @ [c]\<rparr>
         else p)"

fun compile_rules ::
  "go_os \<Rightarrow> guard \<Rightarrow> go_policy \<Rightarrow> rule list \<Rightarrow> go_policy \<times> compile_error list" where
  "compile_rules os g p [] = (p, [])"
| "compile_rules os g p (r # rs) =
     (case check_rule p r of
        Inl e \<Rightarrow> (case compile_rules os g p rs of (q, es) \<Rightarrow> (q, e # es))
      | Inr c \<Rightarrow>
          if length (pol_rules p) = maxRules then (p, [TooManyRules])
          else
            (case guard_rule os g c of (c, ws) \<Rightarrow>
               (case compile_rules os g (add_rule p c) rs of (q, es) \<Rightarrow> (q, ws @ es))))"

definition empty_policy :: "(bytes \<Rightarrow> bytes option) \<Rightarrow> go_policy" where
  "empty_policy hs =
     \<lparr>pol_rules = [], pol_hashes = Map.empty, pol_paths = Map.empty, pol_dirs = [], pol_parents = [],
      pol_off = False, pol_guard_hashes = hs\<rparr>"

definition compileWith :: "go_os \<Rightarrow> guard \<Rightarrow> rule list \<Rightarrow> go_policy \<times> compile_error list" where
  "compileWith os g rs = compile_rules os g (empty_policy (g_hashes g)) rs"

definition Compile :: "go_os \<Rightarrow> rule list \<Rightarrow> go_policy \<times> compile_error list" where
  "Compile os rs = compileWith os (newGuard os) rs"

section \<open>The decision in user space\<close>

record exec =
  x_path :: bytes
  x_parent :: bytes
  x_hash :: "bytes option option"

text \<open>
  \<open>match\<close> of a policy without a known-malware set, as \<open>Compile\<close> returns it. A
  lookup in an empty table finds nothing, so the length test before the hash
  lookup only saves reading the file.
\<close>

definition match_hash :: "go_policy \<Rightarrow> exec \<Rightarrow> compiled option" where
  "match_hash p e = (case x_hash e of Some (Some h) \<Rightarrow> pol_hashes p h | _ \<Rightarrow> None)"

definition match_names :: "go_policy \<Rightarrow> exec \<Rightarrow> compiled option" where
  "match_names p e =
     (case pol_paths p (fold_case (x_path e)) of Some c \<Rightarrow> Some c
      | None \<Rightarrow>
        (case find (\<lambda>c. under (fold_case (x_path e)) (r_value c) \<and> fold_case (x_path e) \<noteq> r_value c)
                (pol_dirs p) of Some c \<Rightarrow> Some c
         | None \<Rightarrow>
             find (\<lambda>c. path_base (fold_case (x_path e)) \<in> set (c_children c) \<and>
                       path_base (fold_case (x_parent e)) \<in> set (c_parents c))
               (pol_parents p)))"

definition match_rule :: "go_policy \<Rightarrow> exec \<Rightarrow> bool \<Rightarrow> compiled option" where
  "match_rule p e kernel_decides =
     (case (if kernel_decides then None else match_names p e) of Some c \<Rightarrow> Some c
      | None \<Rightarrow> match_hash p e)"

text \<open>\<open>Match\<close> of a policy without exclusions.\<close>

definition Match :: "go_policy \<Rightarrow> exec \<Rightarrow> bool \<Rightarrow> compiled option" where
  "Match p e kernel_decides = (if pol_off p then None else match_rule p e kernel_decides)"

section \<open>The invariant of a policy\<close>

text \<open>The last rule of a type with a value: later entries of a Go map replace earlier ones.\<close>

definition last_with :: "bytes \<Rightarrow> compiled list \<Rightarrow> bytes \<Rightarrow> compiled option" where
  "last_with t rs v = find (\<lambda>c. r_type c = t \<and> r_value c = v) (rev rs)"

lemma last_with_Nil [simp]: "last_with t [] = Map.empty"
  by (simp add: last_with_def fun_eq_iff)

lemma last_with_snoc [simp]:
  "last_with t (rs @ [c]) = (if r_type c = t then (last_with t rs)(r_value c \<mapsto> c) else last_with t rs)"
  by (auto simp: last_with_def fun_eq_iff)

definition value_ok :: "compiled \<Rightarrow> bool" where
  "value_ok c \<longleftrightarrow>
     (r_type c = TypeHash \<and> hex_of_size 32 (r_value c)) \<or>
     (r_type c \<in> {TypePath, TypeDir} \<and> path_is_abs (r_value c) \<and> path_clean (r_value c) = r_value c) \<or>
     (r_type c = TypeParent \<and> c_parents c \<noteq> [] \<and> c_children c \<noteq> [])"

definition enforceable :: "go_os \<Rightarrow> guard \<Rightarrow> compiled \<Rightarrow> bool" where
  "enforceable os g c \<longleftrightarrow> r_action c = ActionBlock \<and> refuse os g c = []"

definition policy_ok :: "go_os \<Rightarrow> guard \<Rightarrow> go_policy \<Rightarrow> bool" where
  "policy_ok os g p \<longleftrightarrow>
     map c_index (pol_rules p) = [0..<length (pol_rules p)] \<and>
     length (pol_rules p) \<le> maxRules \<and> length (pol_parents p) \<le> maxParentRules \<and>
     pol_hashes p = last_with TypeHash (pol_rules p) \<and>
     pol_paths p = last_with TypePath (pol_rules p) \<and>
     pol_dirs p = filter (\<lambda>c. r_type c = TypeDir) (pol_rules p) \<and>
     pol_parents p = filter (\<lambda>c. r_type c = TypeParent) (pol_rules p) \<and>
     list_all value_ok (pol_rules p) \<and>
     list_all (\<lambda>c. c_block c \<longrightarrow> enforceable os g c) (pol_rules p)"

lemma refuse_update [simp]:
  "refuse os g (c\<lparr>c_index := i\<rparr>) = refuse os g c" "refuse os g (c\<lparr>c_block := b\<rparr>) = refuse os g c"
  by (cases "eval_symlinks os (r_value c)", simp_all add: refuse_def)+

lemma value_ok_update [simp]:
  "value_ok (c\<lparr>c_index := i\<rparr>) = value_ok c" "value_ok (c\<lparr>c_block := b\<rparr>) = value_ok c"
  by (simp_all add: value_ok_def)

lemma enforceable_update [simp]:
  "enforceable os g (c\<lparr>c_index := i\<rparr>) = enforceable os g c"
  by (simp add: enforceable_def)

lemma extend_select [simp]:
  "r_type (rule.extend r x) = r_type r" "r_action (rule.extend r x) = r_action r"
  "r_value (rule.extend r x) = r_value r" "r_name (rule.extend r x) = r_name r"
  by (simp_all add: rule.defs)

lemma extend_compiled [simp]:
  "c_index (rule.extend r \<lparr>c_index = i, c_block = b, c_parents = ps, c_children = cs\<rparr>) = i"
  "c_block (rule.extend r \<lparr>c_index = i, c_block = b, c_parents = ps, c_children = cs\<rparr>) = b"
  "c_parents (rule.extend r \<lparr>c_index = i, c_block = b, c_parents = ps, c_children = cs\<rparr>) = ps"
  "c_children (rule.extend r \<lparr>c_index = i, c_block = b, c_parents = ps, c_children = cs\<rparr>) = cs"
  by (simp_all add: rule.defs)

lemma check_rule_result:
  assumes "check_rule p r = Inr c"
  shows "value_ok c" and "c_block c \<longleftrightarrow> r_action c = ActionBlock" and "r_type c = r_type r"
    and "r_type c = TypeParent \<Longrightarrow> length (pol_parents p) \<noteq> maxParentRules"
  using assms path_clean_idem path_clean_abs
  by (auto simp: check_rule_def value_ok_def Let_def split: if_splits)

lemma guard_rule_result:
  assumes "guard_rule os g c = (c', ws)"
  shows "r_type c' = r_type c" "value_ok c' = value_ok c" "r_action c' = r_action c"
    "c_block c' \<longleftrightarrow> c_block c \<and> refuse os g c = []" "refuse os g c' = refuse os g c"
  using assms by (auto simp: guard_rule_def split: if_splits)

lemma add_rule_ok:
  assumes "policy_ok os g p" and "value_ok c" and "c_block c \<Longrightarrow> enforceable os g c"
    and "length (pol_rules p) \<noteq> maxRules"
    and "r_type c = TypeParent \<Longrightarrow> length (pol_parents p) \<noteq> maxParentRules"
  shows "policy_ok os g (add_rule p c)"
  using assms by (auto simp: policy_ok_def add_rule_def Let_def)

lemma compile_rules_ok:
  "policy_ok os g p \<Longrightarrow> policy_ok os g (fst (compile_rules os g p rs))"
proof (induction os g p rs rule: compile_rules.induct)
  case (2 os g p r rs)
  show ?case
  proof (cases "check_rule p r")
    case (Inl e)
    then show ?thesis using 2 by (auto split: prod.splits)
  next
    case (Inr c)
    note c = check_rule_result [OF Inr]
    obtain c' ws where g: "guard_rule os g c = (c', ws)" by fastforce
    note c' = guard_rule_result [OF g]
    have "policy_ok os g (add_rule p c')" if "length (pol_rules p) \<noteq> maxRules"
      using 2(3) that c c' by (intro add_rule_ok) (auto simp: enforceable_def)
    then have "policy_ok os g (fst (compile_rules os g (add_rule p c') rs))"
      if "length (pol_rules p) \<noteq> maxRules"
      using 2(2) [OF Inr that g [symmetric]] that by simp
    then show ?thesis using Inr g 2(3) by (simp add: case_prod_unfold)
  qed
qed simp

lemma empty_policy_ok: "policy_ok os g (empty_policy hs)"
  by (simp add: policy_ok_def empty_policy_def)

lemma compiled_policy_ok: "policy_ok os g (fst (compileWith os g rs))"
  unfolding compileWith_def by (intro compile_rules_ok empty_policy_ok)

text \<open>
  C16: Whatever rules the server sends, the compiled policy is well formed: the
  number of a rule is its position, at most 1024 rules and 64 parent rules are
  kept, the tables hold exactly the rules of their type (the last one where a
  value repeats), every value is normalised, and a rule that still blocks is a
  block rule the guard does not refuse.
\<close>

theorem compile_policy_ok: "policy_ok os g (fst (compileWith os g rs))"
  by (rule compiled_policy_ok)

lemma add_rule_on [simp]: "pol_off (add_rule p c) = pol_off p"
  by (simp add: add_rule_def Let_def)

lemma compile_rules_on: "pol_off (fst (compile_rules os g p rs)) = pol_off p"
  by (induction os g p rs rule: compile_rules.induct)
    (auto simp: case_prod_unfold split: sum.split, (metis prod.collapse)+)

lemma compileWith_on: "\<not> pol_off (fst (compileWith os g rs))"
  by (simp add: compileWith_def compile_rules_on empty_policy_def)

section \<open>Protected executables\<close>

lemma guard_add_paths:
  "g_paths (guard_add os p g) =
     g_paths g @ (case eval_symlinks os p of None \<Rightarrow> [] | Some real \<Rightarrow> [real])"
  by (simp add: guard_add_def Let_def split: option.split)

lemma fold_guard_paths:
  "set (g_paths (fold (guard_add os) ps g)) =
     set (g_paths g) \<union> {real. \<exists>p \<in> set ps. eval_symlinks os p = Some real}"
  by (induction ps arbitrary: g) (auto simp: guard_add_paths split: option.splits)

lemma newGuard_paths:
  "real \<in> set (g_paths (newGuard os)) \<longleftrightarrow> (\<exists>p \<in> set (guarded_paths os). eval_symlinks os p = Some real)"
  by (auto simp: newGuard_def fold_guard_paths)

text \<open>What the value of a rule resolves to when the guard looks at it.\<close>

definition rule_target :: "go_os \<Rightarrow> compiled \<Rightarrow> bytes" where
  "rule_target os c = (case eval_symlinks os (r_value c) of None \<Rightarrow> r_value c | Some real \<Rightarrow> real)"

lemma refuse_Nil:
  assumes "refuse os g c = []" and "p \<in> set (g_paths g)"
  shows "r_type c = TypePath \<Longrightarrow> p \<noteq> rule_target os c"
    and "r_type c = TypeDir \<Longrightarrow> \<not> under p (rule_target os c)"
  using assms
  by (auto simp: refuse_def rule_target_def find_None_iff str_def Let_def split: option.splits)

end
