(* ===== verification/Prevent.thy ===== *)
theory Prevent
  imports Sample
begin

text \<open>
  \<open>prevent.bpf.c\<close>: execution prevention. \<open>check_exec\<close> runs before every
  program start, matches the executable against the agent's path, directory
  and parent/child rules, reports a match through a ring buffer and refuses
  the start with \<open>-EPERM\<close> when the matched rule's action is to block.
\<close>

section \<open>Data\<close>

definition EPERM :: int where "EPERM = 1"
definition NAME_LEN :: nat where "NAME_LEN = 32"
definition MAX_RULES :: nat where "MAX_RULES = 1024"
definition MAX_PARENT :: nat where "MAX_PARENT = 64"
definition ACT_DETECT :: u32 where "ACT_DETECT = 1"
definition ACT_BLOCK :: u32 where "ACT_BLOCK = 2"
definition HAS_PATH :: u32 where "HAS_PATH = 1"
definition HAS_DIR :: u32 where "HAS_DIR = 2"
definition HAS_PARENT :: u32 where "HAS_PARENT = 4"
definition PREV_MAGIC :: u64 where "PREV_MAGIC = 0x50524556"

record dir_key =
  dk_ino :: u64
  dk_dev :: u32
  dk_pad :: u32

record decision =
  dc_ts :: u64
  dc_pid :: u32
  dc_tgid :: u32
  dc_ppid :: u32
  dc_uid :: u32
  dc_rule :: u32
  dc_action :: u32
  dc_comm :: bytes
  dc_path :: bytes
  dc_parent :: bytes

record scratch = path_parts +
  sc_key :: bytes
  sc_base :: bytes
  sc_pbase :: bytes

text \<open>
  The maps. Rules are written by the agent; \<open>decisions\<close> lists the records
  submitted to the ring buffer, oldest first; \<open>scratch_map\<close> is per processor.
\<close>

record prevent_st =
  rule_action :: "u32 list"
  deny_path :: "bytes \<Rightarrow> u32 option"
  deny_dir :: "dir_key \<Rightarrow> u32 option"
  parent_mask :: "bytes \<Rightarrow> u64 option"
  child_mask :: "bytes \<Rightarrow> u64 option"
  parent_rule :: "u32 list"
  prevent_config :: "u32 list"
  scratch_map :: "nat \<Rightarrow> scratch list"
  decisions :: "decision list"

section \<open>Operations\<close>

definition build_path_prevent ::
  "'a bpf_env_scheme \<Rightarrow> scratch \<Rightarrow> u64 \<Rightarrow> u64 \<Rightarrow> scratch \<times> bytes" where
  "build_path_prevent env s d vm =
     (let (s, pos) = emit_names env (collect_names env s d vm);
          out = replicate PATH_LEN 0
      in if pos = DIR_BUF then (s, out[0 := chr CHR ''/''])
         else (s, snd (own_str env (drop (unat (pos AND (DIR_BUF - 1))) (pp_buf s)) out)))"

definition basename_of :: "'a bpf_env_scheme \<Rightarrow> u64 \<Rightarrow> bytes" where
  "basename_of env d =
     (let out = replicate NAME_LEN 0;
          name = core_ptr env d [(''dentry'', ''d_name.name'')]
      in snd (probe_read_kernel_str env name out))"

definition dir_key_of :: "'a bpf_env_scheme \<Rightarrow> u64 \<Rightarrow> dir_key" where
  "dir_key_of env d =
     \<lparr>dk_ino = core_ptr env d [(''dentry'', ''d_inode''), (''inode'', ''i_ino'')],
      dk_dev = core_u32 env d [(''dentry'', ''d_sb''), (''super_block'', ''s_dev'')],
      dk_pad = 0\<rparr>"

text \<open>The loop of \<open>in_denied_dir\<close>; the first argument is the number of rounds left.\<close>

fun denied_loop :: "nat \<Rightarrow> 'a bpf_env_scheme \<Rightarrow> prevent_st \<Rightarrow> u64 \<Rightarrow> u64 \<Rightarrow> u64 \<Rightarrow> int" where
  "denied_loop 0 env st d mnt vm = -1"
| "denied_loop (Suc n) env st d mnt vm =
     (case deny_dir st (dir_key_of env d) of
        Some rule \<Rightarrow> uint rule
      | None \<Rightarrow>
          let root = mnt_root env vm; parent = d_parent env d in
          if d = root then
            let mp = mnt_parent env mnt in
            if mp = mnt then -1
            else denied_loop n env st (mnt_mountpoint env mnt) mp (vfsmount_of env mp)
          else if d = parent then -1
          else denied_loop n env st parent mnt vm)"

definition in_denied_dir :: "'a bpf_env_scheme \<Rightarrow> prevent_st \<Rightarrow> u64 \<Rightarrow> u64 \<Rightarrow> int" where
  "in_denied_dir env st d vm = denied_loop MAX_DEPTH env st (d_parent env d) (mount_of env vm) vm"

text \<open>The loop of \<open>parent_child_rule\<close> over the bit numbers left.\<close>

fun mask_loop :: "prevent_st \<Rightarrow> u64 \<Rightarrow> nat list \<Rightarrow> int" where
  "mask_loop st m [] = -1"
| "mask_loop st m (k # ks) =
     (if drop_bit k m AND 1 \<noteq> 0 then
        (case arr_lookup (parent_rule st) (word_of_nat k) of Some r \<Rightarrow> uint r | None \<Rightarrow> -1)
      else mask_loop st m ks)"

definition parent_child_rule :: "prevent_st \<Rightarrow> scratch \<Rightarrow> int" where
  "parent_child_rule st s =
     (case child_mask st (sc_base s) of None \<Rightarrow> -1
      | Some cm \<Rightarrow>
          (case parent_mask st (sc_pbase s) of None \<Rightarrow> -1
           | Some pm \<Rightarrow> mask_loop st (cm AND pm) [0..<MAX_PARENT]))"

text \<open>The part of \<open>check_exec\<close> that fills the scratch area.\<close>

definition fill_scratch :: "'a bpf_env_scheme \<Rightarrow> scratch \<Rightarrow> u64 \<Rightarrow> u64 \<Rightarrow> u64 \<Rightarrow> scratch" where
  "fill_scratch env s d vm pd =
     (let (s, key) = build_path_prevent env s d vm;
          s = s\<lparr>sc_key := key\<rparr>;
          s = s\<lparr>sc_base := basename_of env d\<rparr>
      in s\<lparr>sc_pbase := basename_of env pd\<rparr>)"

text \<open>The part of \<open>check_exec\<close> that picks a rule: path first, then directory, then parent.\<close>

definition select_rule ::
  "'a bpf_env_scheme \<Rightarrow> prevent_st \<Rightarrow> u32 \<Rightarrow> scratch \<Rightarrow> u64 \<Rightarrow> u64 \<Rightarrow> int" where
  "select_rule env st has s d vm =
     (let rule = (if has AND HAS_PATH \<noteq> 0
                  then (case deny_path st (sc_key s) of Some r \<Rightarrow> uint r | None \<Rightarrow> -1) else -1);
          rule = (if rule < 0 \<and> has AND HAS_DIR \<noteq> 0 then in_denied_dir env st d vm else rule);
          rule = (if rule < 0 \<and> has AND HAS_PARENT \<noteq> 0 then parent_child_rule st s else rule)
      in rule)"

definition fill_decision ::
  "'a bpf_env_scheme \<Rightarrow> u32 \<Rightarrow> u32 \<Rightarrow> scratch \<Rightarrow> decision \<Rightarrow> decision" where
  "fill_decision env idx action s ev =
     ev\<lparr>dc_ts := ktime_ns env,
        dc_pid := ucast (current_pid_tgid env),
        dc_tgid := ucast (drop_bit 32 (current_pid_tgid env)),
        dc_ppid := core_u32 env (current_task env)
          [(''task_struct'', ''real_parent''), (''task_struct'', ''tgid'')],
        dc_uid := ucast (current_uid_gid env),
        dc_rule := idx,
        dc_action := action,
        dc_comm := snd (current_comm env (dc_comm ev)),
        dc_path := sc_key s,
        dc_parent := sc_pbase s\<rparr>"

text \<open>
  \<open>slot\<close> is the ring buffer's answer to the reservation: memory with whatever
  it held, or NULL when there is no room.
\<close>

definition check_exec ::
  "'a bpf_env_scheme \<Rightarrow> decision option \<Rightarrow> prevent_st \<Rightarrow> u64 \<Rightarrow> int \<times> prevent_st" where
  "check_exec env slot st bprm =
     (case arr_lookup (prevent_config st) 0 of None \<Rightarrow> (0, st)
      | Some has \<Rightarrow>
        if has = 0 then (0, st)
        else
          if (case arr_lookup (prevent_config st) 1 of None \<Rightarrow> False
              | Some self \<Rightarrow> ucast self = drop_bit 32 (current_pid_tgid env)) then (0, st)
          else
            (case arr_lookup (scratch_map st (cpu env)) 0 of None \<Rightarrow> (0, st)
             | Some s \<Rightarrow>
               let f = core_ptr env bprm [(''linux_binprm'', ''file'')];
                   d = core_ptr env f [(''file'', ''f_path.dentry'')];
                   vm = core_ptr env f [(''file'', ''f_path.mnt'')];
                   task = current_task env;
                   pd = core_ptr env task [(''task_struct'', ''mm''), (''mm_struct'', ''exe_file''),
                          (''file'', ''f_path.dentry'')];
                   s = fill_scratch env s d vm pd;
                   st = st\<lparr>scratch_map := (scratch_map st)(cpu env := arr_store (scratch_map st (cpu env)) 0 s)\<rparr>;
                   rule = select_rule env st has s d vm
               in if rule < 0 then (0, st)
                  else
                    let idx = word_of_int rule;
                        action = (case arr_lookup (rule_action st) idx of Some a \<Rightarrow> a | None \<Rightarrow> ACT_DETECT);
                        st = (case slot of None \<Rightarrow> st
                              | Some ev \<Rightarrow> st\<lparr>decisions := decisions st @ [fill_decision env idx action s ev]\<rparr>)
                    in (if action = ACT_BLOCK then - EPERM else 0, st)))"

definition enter_prctl_prevent :: "'a bpf_env_scheme \<Rightarrow> prevent_st \<Rightarrow> u64 list \<Rightarrow> int \<times> prevent_st" where
  "enter_prctl_prevent env st args =
     (if args ! 0 \<noteq> PREV_MAGIC then (0, st)
      else
        (case arr_lookup (prevent_config st) 1 of None \<Rightarrow> (0, st)
         | Some self \<Rightarrow>
             if self = 0
             then (0, st\<lparr>prevent_config :=
                     arr_store (prevent_config st) 1 (ucast (drop_bit 32 (current_pid_tgid env)))\<rparr>)
             else (0, st)))"

section \<open>Directory rules\<close>

text \<open>The rule of the directory \<open>k\<close> steps above a position.\<close>

definition rule_at :: "'a bpf_env_scheme \<Rightarrow> prevent_st \<Rightarrow> u64 \<times> u64 \<Rightarrow> nat \<Rightarrow> u32 option" where
  "rule_at env st p k =
     (case up_n env k p of None \<Rightarrow> None | Some (d, vm) \<Rightarrow> deny_dir st (dir_key_of env d))"

lemma rule_at_0: "rule_at env st (d, vm) 0 = deny_dir st (dir_key_of env d)"
  by (simp add: rule_at_def)

lemma rule_at_Suc:
  "rule_at env st p (Suc k) = (case up env p of None \<Rightarrow> None | Some q \<Rightarrow> rule_at env st q k)"
  by (simp add: rule_at_def split: option.split)

lemma find_map: "find P (map f xs) = map_option f (find (\<lambda>x. P (f x)) xs)"
  by (induction xs) auto

lemma upt_Suc_shift: "[0..<Suc n] = 0 # map Suc [0..<n]"
  by (simp add: upt_conv_Cons map_Suc_upt del: upt_Suc)

lemma denied_loop_nearest:
  "denied_loop n env st d (mount_of env vm) vm =
     (case find (\<lambda>k. rule_at env st (d, vm) k \<noteq> None) [0..<n] of
        None \<Rightarrow> -1 | Some k \<Rightarrow> uint (the (rule_at env st (d, vm) k)))"
proof (induction n arbitrary: d vm)
  case 0
  then show ?case by simp
next
  case (Suc n)
  show ?case
  proof (cases "deny_dir st (dir_key_of env d)")
    case (Some r)
    then show ?thesis by (simp add: upt_Suc_shift rule_at_0 del: upt_Suc)
  next
    case None
    have stop: "up env (d, vm) = None \<Longrightarrow> find (\<lambda>k. \<exists>y. rule_at env st (d, vm) (Suc k) = Some y) [0..<n] = None"
      by (simp add: find_None_iff rule_at_Suc)
    show ?thesis
      using None stop Suc.IH [of "d_parent env d" vm]
        Suc.IH [of "mnt_mountpoint env (mount_of env vm)" "vfsmount_of env (mnt_parent env (mount_of env vm))"]
      by (auto simp: upt_Suc_shift rule_at_0 rule_at_Suc find_map up_def Let_def
          simp del: upt_Suc split: option.split)
  qed
qed

text \<open>
  \<open>in_denied_dir\<close> returns the rule of the nearest denied directory
  among the first \<open>MAX_DEPTH\<close> directories above the file, climbing across
  mount points, and -1 when none of them is denied.
\<close>

lemma in_denied_dir_nearest:
  "in_denied_dir env st d vm =
     (case find (\<lambda>k. rule_at env st (d_parent env d, vm) k \<noteq> None) [0..<MAX_DEPTH] of
        None \<Rightarrow> -1 | Some k \<Rightarrow> uint (the (rule_at env st (d_parent env d, vm) k)))"
  unfolding in_denied_dir_def by (rule denied_loop_nearest)

definition nearest_dir_rule :: "'a bpf_env_scheme \<Rightarrow> prevent_st \<Rightarrow> u64 \<Rightarrow> u64 \<Rightarrow> u32 option" where
  "nearest_dir_rule env st d vm =
     (case find (\<lambda>k. rule_at env st (d_parent env d, vm) k \<noteq> None) [0..<MAX_DEPTH] of
        None \<Rightarrow> None | Some k \<Rightarrow> rule_at env st (d_parent env d, vm) k)"

text \<open>A rule number as the \<open>long\<close> the C code computes with: -1 for no rule.\<close>

definition rule_long :: "u32 option \<Rightarrow> int" where
  "rule_long r = (case r of None \<Rightarrow> -1 | Some x \<Rightarrow> uint x)"

lemma rule_long_simps [simp]: "rule_long None = -1" "rule_long (Some x) = uint x"
  by (simp_all add: rule_long_def)

lemma rule_long_neg [simp]: "rule_long r < 0 \<longleftrightarrow> r = None"
  by (cases r) (auto simp: not_less)

lemma in_denied_dir_long: "in_denied_dir env st d vm = rule_long (nearest_dir_rule env st d vm)"
proof (cases "find (\<lambda>k. rule_at env st (d_parent env d, vm) k \<noteq> None) [0..<MAX_DEPTH]")
  case None
  then show ?thesis
    unfolding in_denied_dir_def denied_loop_nearest nearest_dir_rule_def by simp
next
  case (Some k)
  then have "rule_at env st (d_parent env d, vm) k \<noteq> None" by (auto simp: find_Some_iff)
  then show ?thesis
    using Some unfolding in_denied_dir_def denied_loop_nearest nearest_dir_rule_def by auto
qed

section \<open>Parent and child rules\<close>

lemma shifted_bit: "drop_bit k m AND 1 \<noteq> 0 \<longleftrightarrow> bit (m :: u64) k"
  by (simp add: bit_iff_odd_drop_bit and_one_eq odd_iff_mod_2_eq_one)

lemma mask_loop_find:
  "mask_loop st m ks =
     (case find (bit m) ks of None \<Rightarrow> -1
      | Some k \<Rightarrow> rule_long (arr_lookup (parent_rule st) (word_of_nat k)))"
  by (induction ks) (auto simp: shifted_bit rule_long_def)

lemma find_upt_Least:
  assumes "\<And>k. P k \<Longrightarrow> k < n"
  shows "find P [0..<n] = (if \<exists>k. P k then Some (LEAST k. P k) else None)"
proof (cases "\<exists>k. P k")
  case True
  define l where "l = (LEAST k. P k)"
  have "P l" using True unfolding l_def by (metis LeastI)
  then have n: "l < n" by (rule assms)
  have first: "\<not> P ([0..<n] ! j)" if "j < l" for j
    using not_less_Least [of j P] that n by (simp add: l_def [symmetric])
  have "l < length [0..<n]" and "P ([0..<n] ! l)" and "l = [0..<n] ! l"
    using n \<open>P l\<close> by simp_all
  with first have "find P [0..<n] = Some l"
    unfolding find_Some_iff by blast
  then show ?thesis using True by (simp add: l_def)
next
  case False
  then show ?thesis by (simp add: find_None_iff)
qed

lemma find_lowest_bit:
  "find (bit (m :: u64)) [0..<64] = (if m = 0 then None else Some (LEAST k. bit m k))"
proof -
  have "\<And>k. bit m k \<Longrightarrow> k < 64" using bit_imp_le_length by fastforce
  moreover have "m \<noteq> 0 \<longleftrightarrow> (\<exists>k. bit m k)" by (metis bit_0_eq bot_apply bot_bool_def bit_eqI)
  ultimately show ?thesis by (simp add: find_upt_Least)
qed

definition parent_spec :: "prevent_st \<Rightarrow> bytes \<Rightarrow> bytes \<Rightarrow> u32 option" where
  "parent_spec st base pbase =
     (case (child_mask st base, parent_mask st pbase) of
        (Some cm, Some pm) \<Rightarrow>
          if cm AND pm = 0 then None else Some (parent_rule st ! (LEAST k. bit (cm AND pm) k))
      | _ \<Rightarrow> None)"

lemma parent_child_long:
  assumes "length (parent_rule st) = MAX_PARENT"
  shows "parent_child_rule st s = rule_long (parent_spec st (sc_base s) (sc_pbase s))"
proof -
  have "mask_loop st m [0..<MAX_PARENT] =
      rule_long (if m = 0 then None else Some (parent_rule st ! (LEAST k. bit m k)))" for m
  proof (cases "m = 0")
    case True
    then show ?thesis
      using find_lowest_bit [of 0] by (simp add: mask_loop_find MAX_PARENT_def)
  next
    case False
    then have "\<exists>k. bit m k" by (metis bit_0_eq bot_apply bot_bool_def bit_eqI)
    then have "bit m (LEAST k. bit m k)" by (metis LeastI)
    then have "(LEAST k. bit m k) < 64" using bit_imp_le_length by fastforce
    then show ?thesis
      using False assms
      by (simp add: mask_loop_find find_lowest_bit MAX_PARENT_def arr_lookup_def unat_of_nat)
  qed
  then show ?thesis
    by (auto simp: parent_child_rule_def parent_spec_def split: option.split)
qed

text \<open>
  A parent/child rule fires exactly when the child's and the parent's
  name share a bit, and the lowest shared bit selects the rule.
\<close>

lemma parent_child_rule_lowest_bit:
  assumes "length (parent_rule st) = MAX_PARENT"
  shows "parent_child_rule st s = rule_long (parent_spec st (sc_base s) (sc_pbase s))"
  using assms by (rule parent_child_long)

section \<open>The invariant of the maps\<close>

definition scratch_ok :: "scratch \<Rightarrow> bool" where
  "scratch_ok s \<longleftrightarrow> parts_ok s \<and> length (sc_key s) = PATH_LEN \<and>
     length (sc_base s) = NAME_LEN \<and> length (sc_pbase s) = NAME_LEN"

definition prevent_ok :: "prevent_st \<Rightarrow> bool" where
  "prevent_ok st \<longleftrightarrow>
     length (rule_action st) = MAX_RULES \<and> length (parent_rule st) = MAX_PARENT \<and>
     length (prevent_config st) = 2 \<and>
     (\<forall>c. \<exists>s. scratch_map st c = [s] \<and> scratch_ok s)"

definition pad_to :: "nat \<Rightarrow> bytes \<Rightarrow> bytes" where
  "pad_to n p = take (n - 1) p @ replicate (n - min (n - 1) (length p)) 0"

lemma str_copy_zeros: "0 < n \<Longrightarrow> snd (str_copy p (replicate n 0)) = pad_to n p"
proof -
  assume n: "0 < n"
  let ?t = "take (n - 1) p"
  have "n - length ?t = Suc (n - Suc (length ?t))" using n by auto
  then have "replicate (n - length ?t) (0 :: u8) = 0 # replicate (n - Suc (length ?t)) 0" by simp
  then show ?thesis
    by (simp add: str_copy_def Let_def blit_0 pad_to_def min.commute)
qed

context bpf_helpers
begin

lemma build_path_prevent_value:
  assumes "parts_ok s" "vfs_path env d vm cs"
  shows "snd (build_path_prevent env s d vm) = pad_to PATH_LEN (path_of cs)"
proof -
  obtain s' pos where em: "emit_names env (collect_names env s d vm) = (s', pos)" by fastforce
  have len: "0 < length (replicate PATH_LEN (0 :: u8))" by simp
  note w = walk_copies_path [OF assms em len]
  show ?thesis
  proof (cases "cs = []")
    case True
    then have "pad_to PATH_LEN (path_of cs) = (replicate PATH_LEN 0)[0 := chr CHR ''/'']"
      by (simp add: pad_to_def path_of_def numeral_eq_Suc)
    with True w(1) show ?thesis by (simp add: build_path_prevent_def em)
  next
    case False
    with w have "pos \<noteq> DIR_BUF"
      and "snd (own_str env (drop (unat (pos AND (DIR_BUF - 1))) (pp_buf s')) (replicate PATH_LEN 0))
        = pad_to PATH_LEN (path_of cs)"
      using str_copy_zeros [of PATH_LEN "path_of cs"] by simp_all
    then show ?thesis by (simp add: build_path_prevent_def em)
  qed
qed

lemma basename_length: "length (basename_of env d) = NAME_LEN"
  using kernel_str_result [of "replicate NAME_LEN 0"]
  by (simp add: basename_of_def Let_def NAME_LEN_def str_result_def)

lemma build_path_prevent_ok:
  assumes "parts_ok s"
  shows "parts_ok (fst (build_path_prevent env s d vm))"
    and "length (snd (build_path_prevent env s d vm)) = PATH_LEN"
  using walk_ok [OF assms, of d vm] own_str_length [of "replicate PATH_LEN 0"]
  by (auto simp: build_path_prevent_def Let_def split: prod.splits)

lemma fill_scratch_ok: "scratch_ok s \<Longrightarrow> scratch_ok (fill_scratch env s d vm pd)"
  using build_path_prevent_ok [of s d vm]
  by (auto simp: fill_scratch_def scratch_ok_def basename_length parts_ok_def split: prod.splits)

end

lemma enter_prctl_ok: "prevent_ok st \<Longrightarrow> prevent_ok (snd (enter_prctl_prevent env st args))"
  by (auto simp: enter_prctl_prevent_def prevent_ok_def split: option.splits)

section \<open>The verdict\<close>

text \<open>The policy the rules express: the first kind of rule that matches decides.\<close>

definition policy ::
  "prevent_st \<Rightarrow> u32 \<Rightarrow> bytes \<Rightarrow> u32 option \<Rightarrow> bytes \<Rightarrow> bytes \<Rightarrow> u32 option" where
  "policy st has path dir base pbase =
     (case (if has AND HAS_PATH \<noteq> 0 then deny_path st path else None) of Some r \<Rightarrow> Some r
      | None \<Rightarrow>
        (case (if has AND HAS_DIR \<noteq> 0 then dir else None) of Some r \<Rightarrow> Some r
         | None \<Rightarrow> if has AND HAS_PARENT \<noteq> 0 then parent_spec st base pbase else None))"

definition action_of :: "prevent_st \<Rightarrow> u32 \<Rightarrow> u32" where
  "action_of st r = (case arr_lookup (rule_action st) r of Some a \<Rightarrow> a | None \<Rightarrow> ACT_DETECT)"

lemma select_rule_policy:
  assumes "length (parent_rule st) = MAX_PARENT"
  shows "select_rule env st has s d vm =
     rule_long (policy st has (sc_key s) (nearest_dir_rule env st d vm) (sc_base s) (sc_pbase s))"
  using parent_child_long [OF assms]
  by (auto simp: select_rule_def policy_def in_denied_dir_long Let_def not_less split: option.split)

abbreviation exec_dentry :: "'a bpf_env_scheme \<Rightarrow> u64 \<Rightarrow> u64" where
  "exec_dentry env bprm \<equiv>
     core_ptr env (core_ptr env bprm [(''linux_binprm'', ''file'')]) [(''file'', ''f_path.dentry'')]"

abbreviation exec_mnt :: "'a bpf_env_scheme \<Rightarrow> u64 \<Rightarrow> u64" where
  "exec_mnt env bprm \<equiv>
     core_ptr env (core_ptr env bprm [(''linux_binprm'', ''file'')]) [(''file'', ''f_path.mnt'')]"

abbreviation parent_dentry :: "'a bpf_env_scheme \<Rightarrow> u64" where
  "parent_dentry env \<equiv>
     core_ptr env (current_task env)
       [(''task_struct'', ''mm''), (''mm_struct'', ''exe_file''), (''file'', ''f_path.dentry'')]"

text \<open>The rule the policy gives for the program being started.\<close>

definition exec_rule :: "'a bpf_env_scheme \<Rightarrow> prevent_st \<Rightarrow> u64 \<Rightarrow> scratch \<Rightarrow> u32 option" where
  "exec_rule env st bprm s =
     policy st (prevent_config st ! 0) (sc_key s)
       (nearest_dir_rule env st (exec_dentry env bprm) (exec_mnt env bprm)) (sc_base s) (sc_pbase s)"

text \<open>Whether \<open>check_exec\<close> looks at the start at all.\<close>

definition watching :: "'a bpf_env_scheme \<Rightarrow> prevent_st \<Rightarrow> bool" where
  "watching env st \<longleftrightarrow> prevent_config st ! 0 \<noteq> 0 \<and>
     ucast (prevent_config st ! 1) \<noteq> drop_bit 32 (current_pid_tgid env)"

definition exec_scratch :: "'a bpf_env_scheme \<Rightarrow> prevent_st \<Rightarrow> u64 \<Rightarrow> scratch" where
  "exec_scratch env st bprm =
     fill_scratch env (hd (scratch_map st (cpu env))) (exec_dentry env bprm) (exec_mnt env bprm)
       (parent_dentry env)"

lemma rule_at_scratch [simp]: "rule_at env (st\<lparr>scratch_map := x\<rparr>) p k = rule_at env st p k"
  by (auto simp: rule_at_def split: option.split)

lemma parent_spec_scratch [simp]: "parent_spec (st\<lparr>scratch_map := x\<rparr>) a b = parent_spec st a b"
  by (auto simp: parent_spec_def split: option.split)

lemma nearest_dir_rule_scratch [simp]:
  "nearest_dir_rule env (st\<lparr>scratch_map := x\<rparr>) d vm = nearest_dir_rule env st d vm"
  by (auto simp: nearest_dir_rule_def split: option.split)

lemma policy_scratch [simp]: "policy (st\<lparr>scratch_map := x\<rparr>) = policy st"
  by (auto simp: fun_eq_iff policy_def split: option.split)

lemma check_exec_cases:
  assumes "prevent_ok st"
  shows "check_exec env slot st bprm =
    (if \<not> watching env st then (0, st)
     else
       let s = exec_scratch env st bprm;
           st' = st\<lparr>scratch_map := (scratch_map st)(cpu env := [s])\<rparr> in
       case exec_rule env st bprm s of None \<Rightarrow> (0, st')
       | Some r \<Rightarrow>
           (if action_of st r = ACT_BLOCK then - EPERM else 0,
            case slot of None \<Rightarrow> st'
            | Some ev \<Rightarrow> st'\<lparr>decisions := decisions st @ [fill_decision env r (action_of st r) s ev]\<rparr>))"
proof -
  obtain s where s: "scratch_map st (cpu env) = [s]" using assms by (auto simp: prevent_ok_def)
  have sel: "select_rule env (st\<lparr>scratch_map := x\<rparr>) has t d vm =
     rule_long (policy st has (sc_key t) (nearest_dir_rule env st d vm) (sc_base t) (sc_pbase t))" for x has t d vm
    using assms select_rule_policy [of "st\<lparr>scratch_map := x\<rparr>"] by (simp add: prevent_ok_def)
  have cfg: "arr_lookup (prevent_config st) 0 = Some (prevent_config st ! 0)"
    "arr_lookup (prevent_config st) 1 = Some (prevent_config st ! 1)"
    using assms by (simp_all add: prevent_ok_def arr_lookup_def)
  have scr: "arr_lookup [s] 0 = Some s" "arr_store [s] 0 t = [t]" for t
    by (simp_all add: arr_lookup_def arr_store_def)
  show ?thesis
    unfolding check_exec_def cfg s Let_def
    by (auto simp: watching_def scr sel exec_rule_def exec_scratch_def s action_of_def split: option.split)
qed

context bpf_helpers
begin

lemma exec_scratch_fields:
  assumes "prevent_ok st"
    and "vfs_path env (exec_dentry env bprm) (exec_mnt env bprm) cs"
  shows "sc_key (exec_scratch env st bprm) = pad_to PATH_LEN (path_of cs)"
    and "sc_base (exec_scratch env st bprm) = basename_of env (exec_dentry env bprm)"
    and "sc_pbase (exec_scratch env st bprm) = basename_of env (parent_dentry env)"
proof -
  have "parts_ok (hd (scratch_map st (cpu env)))"
    using assms(1) by (auto simp: prevent_ok_def scratch_ok_def dest: spec [of _ "cpu env"])
  from build_path_prevent_value [OF this assms(2)]
  show "sc_key (exec_scratch env st bprm) = pad_to PATH_LEN (path_of cs)"
    by (auto simp: exec_scratch_def fill_scratch_def split: prod.splits)
qed (auto simp: exec_scratch_def fill_scratch_def split: prod.splits)

lemma exec_scratch_ok: "prevent_ok st \<Longrightarrow> scratch_ok (exec_scratch env st bprm)"
  unfolding exec_scratch_def
  by (rule fill_scratch_ok) (auto simp: prevent_ok_def dest: spec [of _ "cpu env"])

lemma check_exec_ok: "prevent_ok st \<Longrightarrow> prevent_ok (snd (check_exec env slot st bprm))"
  using exec_scratch_ok [of st bprm]
  by (auto simp: check_exec_cases prevent_ok_def Let_def split: option.split)

end

text \<open>
  C1: The verdict of \<open>check_exec\<close> is the policy's. For an executable whose
  directory chain the walk covers, or that is disconnected (a memfd), the path
  rule is looked up under its absolute path, the directory rule is that of the nearest denied directory,
  the parent rule is looked up under the two basenames; the start is refused
  exactly when the rule found has the block action, and one record naming
  rule, action and path is submitted whenever a rule was found and the ring
  buffer had room.
\<close>

theorem check_exec_verdict:
  assumes "bpf_helpers env" and "prevent_ok st" and "watching env st"
    and "vfs_path env (exec_dentry env bprm) (exec_mnt env bprm) cs"
  shows "case policy st (prevent_config st ! 0) (pad_to PATH_LEN (path_of cs))
           (nearest_dir_rule env st (exec_dentry env bprm) (exec_mnt env bprm))
           (basename_of env (exec_dentry env bprm)) (basename_of env (parent_dentry env))
         of None \<Rightarrow>
              fst (check_exec env slot st bprm) = 0 \<and>
              decisions (snd (check_exec env slot st bprm)) = decisions st
          | Some r \<Rightarrow>
              fst (check_exec env slot st bprm) = (if action_of st r = ACT_BLOCK then - EPERM else 0) \<and>
              (case slot of None \<Rightarrow> decisions (snd (check_exec env slot st bprm)) = decisions st
               | Some ev \<Rightarrow> \<exists>e. decisions (snd (check_exec env slot st bprm)) = decisions st @ [e] \<and>
                   dc_rule e = r \<and> dc_action e = action_of st r \<and>
                   dc_path e = pad_to PATH_LEN (path_of cs) \<and>
                   dc_tgid e = ucast (drop_bit 32 (current_pid_tgid env)))"
  using bpf_helpers.exec_scratch_fields [OF assms(1,2,4)] assms(3)
  by (auto simp: check_exec_cases [OF assms(2)] exec_rule_def Let_def fill_decision_def split: option.split)

text \<open>
  Whether a start is refused never depends on the ring buffer: a full
  buffer loses the record, not the refusal. The result is 0 or \<open>-EPERM\<close>.
\<close>

lemma check_exec_ring_independent:
  "fst (check_exec env slot st bprm) = fst (check_exec env slot' st bprm) \<and>
   fst (check_exec env slot st bprm) \<in> {0, - EPERM}"
  by (simp add: check_exec_def Let_def split: option.split)

text \<open>
  With no rules loaded, or when the starting process is the agent, the
  start is allowed and nothing is recorded or changed.
\<close>

lemma check_exec_exempt:
  assumes "prevent_ok st" and "\<not> watching env st"
  shows "check_exec env slot st bprm = (0, st)"
  using assms by (simp add: check_exec_cases)

section \<open>Runs\<close>

text \<open>Program starts and \<open>prctl\<close> calls by any process, in any order.\<close>

inductive prevent_step :: "prevent_st \<Rightarrow> prevent_st \<Rightarrow> bool" where
  exec: "bpf_helpers (env :: bpf_env) \<Longrightarrow> prevent_step st (snd (check_exec env slot st bprm))"
| prctl: "prevent_step st (snd (enter_prctl_prevent (env :: bpf_env) st args))"

inductive prevent_run :: "prevent_st \<Rightarrow> prevent_st \<Rightarrow> bool" where
  refl: "prevent_run st st"
| step: "prevent_run st st' \<Longrightarrow> prevent_step st' st'' \<Longrightarrow> prevent_run st st''"

definition same_rules :: "prevent_st \<Rightarrow> prevent_st \<Rightarrow> bool" where
  "same_rules st st' \<longleftrightarrow> rule_action st' = rule_action st \<and> deny_path st' = deny_path st \<and>
     deny_dir st' = deny_dir st \<and> parent_mask st' = parent_mask st \<and> child_mask st' = child_mask st \<and>
     parent_rule st' = parent_rule st \<and> prevent_config st' ! 0 = prevent_config st ! 0"

lemma prevent_step_keeps:
  assumes "prevent_step st st'" and "prevent_ok st"
  shows "prevent_ok st'" "same_rules st st'"
    "prevent_config st ! 1 \<noteq> 0 \<Longrightarrow> prevent_config st' ! 1 = prevent_config st ! 1"
    "\<exists>new. decisions st' = decisions st @ new"
  using assms
proof (induction rule: prevent_step.induct)
  case (exec env st slot bprm)
  { case 1 then show ?case using exec by (auto intro: bpf_helpers.check_exec_ok)
  next case 2 then show ?case by (auto simp: check_exec_cases same_rules_def Let_def split: option.split)
  next case 3 then show ?case by (auto simp: check_exec_cases Let_def split: option.split)
  next case 4 then show ?case by (auto simp: check_exec_cases Let_def split: option.split) }
next
  case (prctl st env args)
  { case 1 then show ?case by (rule enter_prctl_ok)
  next case 2 then show ?case
      by (auto simp: enter_prctl_prevent_def same_rules_def arr_store_def split: option.split)
  next case 3 then show ?case
      by (auto simp: enter_prctl_prevent_def arr_lookup_def prevent_ok_def split: option.split)
  next case 4 then show ?case by (auto simp: enter_prctl_prevent_def split: option.split) }
qed

text \<open>
  C18: Over any run, the maps keep their shape and the rules stay as the agent
  wrote them, submitted records are never withdrawn, and the exempt process,
  once recorded, stays the same whoever calls \<open>prctl\<close> with the magic number.
\<close>

theorem prevent_run_invariant:
  assumes "prevent_run st st'" and "prevent_ok st"
  shows "prevent_ok st' \<and> same_rules st st' \<and> (\<exists>new. decisions st' = decisions st @ new) \<and>
    (prevent_config st ! 1 \<noteq> 0 \<longrightarrow> prevent_config st' ! 1 = prevent_config st ! 1)"
  using assms
proof (induction rule: prevent_run.induct)
  case (refl st)
  then show ?case by (simp add: same_rules_def)
next
  case (step st st' st'')
  then show ?case
    using prevent_step_keeps [of st' st''] by (auto simp: same_rules_def)
qed

section \<open>A concrete rule set\<close>

text \<open>One path rule, number 7, blocks \<open>/a\<close>; the agent's thread group is 42.\<close>

definition sample_scratch :: scratch where
  "sample_scratch =
     \<lparr>pp_name = replicate 16 0, pp_len = replicate 16 0, pp_buf = replicate 4096 0,
      sc_key = replicate 256 0, sc_base = replicate 32 0, sc_pbase = replicate 32 0\<rparr>"

definition sample_rules :: prevent_st where
  "sample_rules =
     \<lparr>rule_action = (replicate MAX_RULES ACT_DETECT)[7 := ACT_BLOCK],
      deny_path = [pad_to PATH_LEN (str ''/a'') \<mapsto> 7], deny_dir = Map.empty,
      parent_mask = [pad_to 32 (str ''httpd'') \<mapsto> 6], child_mask = [pad_to 32 (str ''sh'') \<mapsto> 12],
      parent_rule = (replicate MAX_PARENT 0)[2 := 9],
      prevent_config = [7, 42], scratch_map = (\<lambda>_. [sample_scratch]), decisions = []\<rparr>"

lemma sample_rules_ok: "prevent_ok sample_rules"
  by (simp add: prevent_ok_def sample_rules_def scratch_ok_def sample_scratch_def parts_ok_def
      NAME_LEN_def)

theorem check_exec_verdict_witness:
  "fst (check_exec (sample_env [] (9 * 2 ^ 32) 0) None sample_rules 9472) = -1"
proof -
  let ?e = "sample_env [] (9 * 2 ^ 32) 0"
  have path: "vfs_path ?e (exec_dentry ?e 9472) (exec_mnt ?e 9472) [str ''a'']"
    using sample_vfs_path by simp
  have "watching ?e sample_rules"
    by (simp add: watching_def sample_rules_def)
  from check_exec_verdict [OF sample_helpers sample_rules_ok this path, of None]
  show ?thesis
    by (simp add: policy_def sample_path sample_rules_def HAS_PATH_def action_of_def arr_lookup_def
        MAX_RULES_def EPERM_def del: path_consts)
qed

lemma check_exec_exempt_witness:
  "check_exec (sample_env [] (42 * 2 ^ 32) 0) None sample_rules 9472 = (0, sample_rules)"
proof -
  have "\<not> watching (sample_env [] (42 * 2 ^ 32) 0) sample_rules"
    by (simp add: watching_def sample_rules_def)
  from check_exec_exempt [OF sample_rules_ok this] show ?thesis .
qed

lemma parent_child_rule_lowest_bit_witness:
  "parent_child_rule sample_rules
     (sample_scratch\<lparr>sc_base := pad_to 32 (str ''sh''), sc_pbase := pad_to 32 (str ''httpd'')\<rparr>) = 9"
proof -
  have "bit (4 :: u64) k \<longleftrightarrow> k = 2" for k
    using bit_exp_iff [of 2 k, where 'a = u64] by auto
  then have l: "(LEAST k. bit (4 :: u64) k) = 2"
    by (intro Least_equality) auto
  have "length (parent_rule sample_rules) = MAX_PARENT" by (simp add: sample_rules_def)
  from parent_child_rule_lowest_bit [OF this] show ?thesis
    by (simp add: parent_spec_def sample_rules_def l MAX_PARENT_def)
qed

theorem prevent_run_invariant_witness:
  "prevent_config (snd (enter_prctl_prevent (sample_env [] (9 * 2 ^ 32) 0) sample_rules [PREV_MAGIC])) ! 1 = 42"
proof -
  have "prevent_run sample_rules
      (snd (enter_prctl_prevent (sample_env [] (9 * 2 ^ 32) 0) sample_rules [PREV_MAGIC]))"
    by (rule prevent_run.step [OF prevent_run.refl prevent_step.prctl])
  from prevent_run_invariant [OF this sample_rules_ok] show ?thesis by (simp add: sample_rules_def)
qed

end
