(* ===== verification/Prevent_Apply.thy ===== *)
theory Prevent_Apply
  imports Prevent_Rules Prevent
begin

text \<open>
  \<open>lsm_linux.go\<close>: how the agent loads a compiled policy into the maps of
  \<open>prevent.bpf.c\<close>, and what the kernel program then enforces. A \<open>Put\<close> into a
  hash map fails when the map is full, one into an array when the index is
  out of range; \<open>apply\<close> stops at the first \<open>Put\<close> that fails. Other failures
  of the system call (no memory, a closed descriptor) are not modelled: the
  \<open>Put\<close> that switches enforcement off cannot fail here, and deleting a key that
  was just iterated succeeds, as \<open>clearMap\<close>, which ignores the result, expects.
\<close>

section \<open>Map updates from user space\<close>

datatype map_error = E2BIG

definition hash_put :: "nat \<Rightarrow> ('k \<Rightarrow> 'v option) \<Rightarrow> 'k \<Rightarrow> 'v \<Rightarrow> ('k \<Rightarrow> 'v option) option" where
  "hash_put cap m k v =
     (if m k = None \<and> cap \<le> card (dom m) then None else Some (m(k \<mapsto> v)))"

definition arr_put :: "'v list \<Rightarrow> u32 \<Rightarrow> 'v \<Rightarrow> 'v list option" where
  "arr_put xs i v = (if unat i < length xs then Some (arr_store xs i v) else None)"

lemma hash_put_SomeD: "hash_put cap m k v = Some m' \<Longrightarrow> m' = m(k \<mapsto> v)"
  by (auto simp: hash_put_def split: if_splits)

lemma arr_put_SomeD:
  "arr_put xs i v = Some ys \<Longrightarrow> unat i < length xs \<and> ys = xs[unat i := v]"
  by (auto simp: arr_put_def arr_store_def split: if_splits)

text \<open>Go's early return in a loop: the state so far, and the error that ended it.\<close>

fun fold_until :: "('a \<Rightarrow> 's \<Rightarrow> 's \<times> 'e option) \<Rightarrow> 'a list \<Rightarrow> 's \<Rightarrow> 's \<times> 'e option" where
  "fold_until f [] s = (s, None)"
| "fold_until f (x # xs) s =
     (case f x s of (s', None) \<Rightarrow> fold_until f xs s' | (s', Some e) \<Rightarrow> (s', Some e))"

lemma fold_until_snoc:
  "fold_until f (xs @ [x]) s =
     (case fold_until f xs s of (s', None) \<Rightarrow> f x s' | (s', Some e) \<Rightarrow> (s', Some e))"
  by (induction xs arbitrary: s) (auto split: prod.split option.split)

lemma fold_until_invariant:
  assumes "\<And>x s. x \<in> set xs \<Longrightarrow> P s \<Longrightarrow> P (fst (f x s))" and "P s"
  shows "P (fst (fold_until f xs s))"
  using assms
proof (induction xs arbitrary: s)
  case (Cons x xs)
  have "P (fst (f x s))" using Cons.prems by simp
  then show ?case using Cons.IH Cons.prems(1) by (auto split: prod.split option.split)
qed simp

section \<open>Loading a policy\<close>

text \<open>The agent's own copies of the constants of \<open>prevent.bpf.c\<close>, which the Go file keeps in step by hand.\<close>

definition actDetect :: u32 where "actDetect = 1"
definition actBlock :: u32 where "actBlock = 2"
definition hasPath :: u32 where "hasPath = 1"
definition hasDir :: u32 where "hasDir = 2"
definition hasParent :: u32 where "hasParent = 4"
definition lsm_pathLen :: nat where "lsm_pathLen = 256"

lemma consts_in_step [simp]:
  "actDetect = ACT_DETECT" "actBlock = ACT_BLOCK" "hasPath = HAS_PATH" "hasDir = HAS_DIR"
  "hasParent = HAS_PARENT" "lsm_pathLen = PATH_LEN" "nameLen = NAME_LEN"
  by (simp_all add: actDetect_def actBlock_def hasPath_def hasDir_def hasParent_def lsm_pathLen_def nameLen_def
      ACT_DETECT_def ACT_BLOCK_def HAS_PATH_def HAS_DIR_def HAS_PARENT_def NAME_LEN_def)

definition fixed :: "bytes \<Rightarrow> nat \<Rightarrow> bytes" where
  "fixed s n =
     (let b = blit 0 (replicate n 0) (take n s)
      in if n \<le> length s then b[n - 1 := 0] else b)"

definition kernelDev :: "go_os \<Rightarrow> u64 \<Rightarrow> u32" where
  "kernelDev os dev = push_bit 20 (unix_major os dev) OR unix_minor os dev"

definition stat_key :: "go_os \<Rightarrow> bytes \<Rightarrow> dir_key option" where
  "stat_key os path =
     (case os_stat os path of None \<Rightarrow> None
      | Some (ino, dev) \<Rightarrow> Some \<lparr>dk_ino = ino, dk_dev = kernelDev os dev, dk_pad = 0\<rparr>)"

text \<open>\<open>m[n] |= b\<close> on a Go map from names to masks.\<close>

fun or_mask :: "u64 \<Rightarrow> bytes \<Rightarrow> (bytes \<times> u64) list \<Rightarrow> (bytes \<times> u64) list" where
  "or_mask b n [] = [(n, b)]"
| "or_mask b n ((m, v) # xs) = (if m = n then (m, v OR b) # xs else (m, v) # or_mask b n xs)"

text \<open>The locals of \<open>apply\<close>, with the maps.\<close>

record load =
  ld_st :: prevent_st
  ld_has :: u32
  ld_parent :: "(bytes \<times> u64) list"
  ld_child :: "(bytes \<times> u64) list"
  ld_k :: u32

definition rule_act :: "compiled \<Rightarrow> u32" where
  "rule_act c = (if c_block c then actBlock else actDetect)"

definition rule_idx :: "compiled \<Rightarrow> u32" where
  "rule_idx c = word_of_nat (c_index c)"

definition load_path :: "compiled \<Rightarrow> load \<Rightarrow> load \<times> map_error option" where
  "load_path c l =
     (if lsm_pathLen \<le> length (r_value c) then (l, None)
      else
        (case hash_put MAX_RULES (deny_path (ld_st l)) (fixed (r_value c) lsm_pathLen) (rule_idx c) of
           None \<Rightarrow> (l, Some E2BIG)
         | Some m \<Rightarrow> (l\<lparr>ld_st := (ld_st l)\<lparr>deny_path := m\<rparr>, ld_has := ld_has l OR hasPath\<rparr>, None)))"

definition load_dir :: "go_os \<Rightarrow> compiled \<Rightarrow> load \<Rightarrow> load \<times> map_error option" where
  "load_dir os c l =
     (case stat_key os (r_value c) of None \<Rightarrow> (l, None)
      | Some key \<Rightarrow>
        (case hash_put MAX_RULES (deny_dir (ld_st l)) key (rule_idx c) of
           None \<Rightarrow> (l, Some E2BIG)
         | Some m \<Rightarrow> (l\<lparr>ld_st := (ld_st l)\<lparr>deny_dir := m\<rparr>, ld_has := ld_has l OR hasDir\<rparr>, None)))"

definition load_parent :: "compiled \<Rightarrow> load \<Rightarrow> load \<times> map_error option" where
  "load_parent c l =
     (case arr_put (parent_rule (ld_st l)) (ld_k l) (rule_idx c) of
        None \<Rightarrow> (l, Some E2BIG)
      | Some xs \<Rightarrow>
          (l\<lparr>ld_st := (ld_st l)\<lparr>parent_rule := xs\<rparr>,
             ld_parent := fold (or_mask (push_bit (unat (ld_k l)) 1)) (c_parents c) (ld_parent l),
             ld_child := fold (or_mask (push_bit (unat (ld_k l)) 1)) (c_children c) (ld_child l),
             ld_k := ld_k l + 1,
             ld_has := ld_has l OR hasParent\<rparr>, None))"

definition load_rule :: "go_os \<Rightarrow> compiled \<Rightarrow> load \<Rightarrow> load \<times> map_error option" where
  "load_rule os c l =
     (case arr_put (rule_action (ld_st l)) (rule_idx c) (rule_act c) of
        None \<Rightarrow> (l, Some E2BIG)
      | Some acts \<Rightarrow>
          let l = l\<lparr>ld_st := (ld_st l)\<lparr>rule_action := acts\<rparr>\<rparr>
          in if r_type c = TypePath then load_path c l
             else if r_type c = TypeDir then load_dir os c l
             else if r_type c = TypeParent then load_parent c l
             else (l, None))"

definition put_parent_mask :: "bytes \<times> u64 \<Rightarrow> prevent_st \<Rightarrow> prevent_st \<times> map_error option" where
  "put_parent_mask e st =
     (case hash_put MAX_RULES (parent_mask st) (fixed (fst e) nameLen) (snd e) of
        None \<Rightarrow> (st, Some E2BIG) | Some m \<Rightarrow> (st\<lparr>parent_mask := m\<rparr>, None))"

definition put_child_mask :: "bytes \<times> u64 \<Rightarrow> prevent_st \<Rightarrow> prevent_st \<times> map_error option" where
  "put_child_mask e st =
     (case hash_put MAX_RULES (child_mask st) (fixed (fst e) nameLen) (snd e) of
        None \<Rightarrow> (st, Some E2BIG) | Some m \<Rightarrow> (st\<lparr>child_mask := m\<rparr>, None))"

text \<open>The maps \<open>apply\<close> empties before it loads; iterating and deleting leaves none of their keys.\<close>

definition clear_rules :: "prevent_st \<Rightarrow> prevent_st" where
  "clear_rules st =
     st\<lparr>deny_path := Map.empty, deny_dir := Map.empty, parent_mask := Map.empty, child_mask := Map.empty\<rparr>"

record lsm_engine =
  le_maps :: prevent_st
  le_policy :: "go_policy option"

text \<open>
  \<open>range_map\<close> is the order in which Go walks a map; the language leaves it open.
\<close>

definition load_masks ::
  "((bytes \<times> u64) list \<Rightarrow> (bytes \<times> u64) list) \<Rightarrow> load \<Rightarrow> prevent_st \<times> map_error option" where
  "load_masks range_map l =
     (case fold_until put_parent_mask (range_map (ld_parent l)) (ld_st l) of
        (st, Some e) \<Rightarrow> (st, Some e)
      | (st, None) \<Rightarrow>
        (case fold_until put_child_mask (range_map (ld_child l)) st of
           (st, Some e) \<Rightarrow> (st, Some e)
         | (st, None) \<Rightarrow>
           (case arr_put (prevent_config st) 0 (ld_has l) of
              None \<Rightarrow> (st, Some E2BIG)
            | Some cfg \<Rightarrow> (st\<lparr>prevent_config := cfg\<rparr>, None))))"

definition lsm_apply ::
  "go_os \<Rightarrow> ((bytes \<times> u64) list \<Rightarrow> (bytes \<times> u64) list) \<Rightarrow> go_policy \<Rightarrow> lsm_engine
   \<Rightarrow> lsm_engine \<times> map_error option" where
  "lsm_apply os range_map p e =
     (case arr_put (prevent_config (le_maps e)) 0 0 of
        None \<Rightarrow> (e, Some E2BIG)
      | Some cfg \<Rightarrow>
          let e = e\<lparr>le_policy := Some p\<rparr>;
              st = clear_rules ((le_maps e)\<lparr>prevent_config := cfg\<rparr>)
          in (case fold_until (load_rule os) (pol_rules p)
                     \<lparr>ld_st = st, ld_has = 0, ld_parent = [], ld_child = [], ld_k = 0\<rparr> of
                (l, Some err) \<Rightarrow> (e\<lparr>le_maps := ld_st l\<rparr>, Some err)
              | (l, None) \<Rightarrow>
                  (case load_masks range_map l of (st, err) \<Rightarrow> (e\<lparr>le_maps := st\<rparr>, err))))"

section \<open>What loading keeps\<close>

definition shape_ok :: "u32 list \<Rightarrow> (nat \<Rightarrow> scratch list) \<Rightarrow> prevent_st \<Rightarrow> bool" where
  "shape_ok cfg scr st \<longleftrightarrow> length (rule_action st) = MAX_RULES \<and>
     length (parent_rule st) = MAX_PARENT \<and> prevent_config st = cfg \<and> scratch_map st = scr"

lemma load_rule_shape:
  "shape_ok cfg scr (ld_st l) \<Longrightarrow> shape_ok cfg scr (ld_st (fst (load_rule os c l)))"
  by (auto simp: load_rule_def load_path_def load_dir_def load_parent_def shape_ok_def Let_def
      dest: arr_put_SomeD split: option.split)

lemma put_parent_mask_shape:
  "shape_ok cfg scr st \<Longrightarrow> shape_ok cfg scr (fst (put_parent_mask e st))"
  by (auto simp: put_parent_mask_def shape_ok_def split: option.split)

lemma put_child_mask_shape:
  "shape_ok cfg scr st \<Longrightarrow> shape_ok cfg scr (fst (put_child_mask e st))"
  by (auto simp: put_child_mask_def shape_ok_def split: option.split)

lemma load_masks_shape:
  assumes "shape_ok cfg scr (ld_st l)" and "length cfg = 2"
  shows "case load_masks range_map l of (st, None) \<Rightarrow> shape_ok (cfg[0 := ld_has l]) scr st
         | (st, Some e) \<Rightarrow> shape_ok cfg scr st"
proof -
  obtain st e where p: "fold_until put_parent_mask (range_map (ld_parent l)) (ld_st l) = (st, e)" by fastforce
  obtain st' e' where c: "fold_until put_child_mask (range_map (ld_child l)) st = (st', e')" by fastforce
  have s: "shape_ok cfg scr st"
    using fold_until_invariant [of _ "shape_ok cfg scr" put_parent_mask, OF put_parent_mask_shape assms(1)] p
    by (metis fst_conv)
  have "shape_ok cfg scr st'"
    using fold_until_invariant [of _ "shape_ok cfg scr" put_child_mask, OF put_child_mask_shape s] c
    by (metis fst_conv)
  then show ?thesis
    using s assms(2) by (auto simp: load_masks_def p c shape_ok_def arr_put_def arr_store_def split: option.split)
qed

definition start_load :: "prevent_st \<Rightarrow> load" where
  "start_load st =
     \<lparr>ld_st = clear_rules (st\<lparr>prevent_config := (prevent_config st)[0 := 0]\<rparr>),
      ld_has = 0, ld_parent = [], ld_child = [], ld_k = 0\<rparr>"

lemma lsm_apply_cases:
  assumes "prevent_ok (le_maps e)"
  shows "lsm_apply os range_map p e =
    (case fold_until (load_rule os) (pol_rules p) (start_load (le_maps e)) of
       (l, Some err) \<Rightarrow> (e\<lparr>le_policy := Some p, le_maps := ld_st l\<rparr>, Some err)
     | (l, None) \<Rightarrow> (case load_masks range_map l of
          (st, err) \<Rightarrow> (e\<lparr>le_policy := Some p, le_maps := st\<rparr>, err)))"
  using assms
  by (auto simp: lsm_apply_def start_load_def prevent_ok_def arr_put_def arr_store_def Let_def
      split: option.split prod.split)

lemma start_load_shape:
  "prevent_ok st \<Longrightarrow> shape_ok ((prevent_config st)[0 := 0]) (scratch_map st) (ld_st (start_load st))"
  by (simp add: start_load_def prevent_ok_def shape_ok_def clear_rules_def)

lemma load_rules_shape:
  assumes "prevent_ok st"
  shows "shape_ok ((prevent_config st)[0 := 0]) (scratch_map st)
           (ld_st (fst (fold_until (load_rule os) rs (start_load st))))"
  using fold_until_invariant [of rs "\<lambda>l. shape_ok ((prevent_config st)[0 := 0]) (scratch_map st) (ld_st l)"
      "load_rule os", OF load_rule_shape start_load_shape [OF assms]] .

lemma lsm_apply_shape:
  assumes ok: "prevent_ok (le_maps e)" and ap: "lsm_apply os range_map p e = (e', err)"
  shows "prevent_ok (le_maps e')" and "le_policy e' = Some p"
    and "prevent_config (le_maps e') ! 1 = prevent_config (le_maps e) ! 1"
    and "err \<noteq> None \<Longrightarrow> prevent_config (le_maps e') ! 0 = 0"
proof -
  let ?st = "le_maps e"
  let ?cfg = "(prevent_config ?st)[0 := 0]" and ?scr = "scratch_map ?st"
  have len: "length (prevent_config ?st) = 2" using ok by (simp add: prevent_ok_def)
  obtain l er where ld: "fold_until (load_rule os) (pol_rules p) (start_load ?st) = (l, er)" by fastforce
  have sh: "shape_ok ?cfg ?scr (ld_st l)" using load_rules_shape [OF ok, of os "pol_rules p"] ld by simp
  have lm: "length ?cfg = 2" using len by simp
  have cases: "shape_ok ?cfg ?scr (le_maps e') \<or> (err = None \<and> (\<exists>h. shape_ok (?cfg[0 := h]) ?scr (le_maps e')))"
    using ap sh load_masks_shape [OF sh lm, of range_map]
    by (auto simp: lsm_apply_cases [OF ok] ld split: option.splits prod.splits)
  then show "prevent_ok (le_maps e')"
    using ok by (auto simp: prevent_ok_def shape_ok_def)
  show "prevent_config (le_maps e') ! 1 = prevent_config ?st ! 1"
    using cases by (auto simp: shape_ok_def)
  show "le_policy e' = Some p"
    using ap by (auto simp: lsm_apply_cases [OF ok] ld split: option.splits prod.splits)
  show "prevent_config (le_maps e') ! 0 = 0" if "err \<noteq> None"
    using cases that len by (auto simp: shape_ok_def)
qed

text \<open>
  C9: Loading a policy fails open: when any map update fails, enforcement stays
  off, and every start is allowed and unreported until a later load succeeds,
  whatever rules were loaded before.
\<close>

theorem apply_failure_allows_all:
  assumes "prevent_ok (le_maps e)" and "lsm_apply os range_map p e = (e', Some err)"
  shows "check_exec env slot (le_maps e') bprm = (0, le_maps e')"
  using lsm_apply_shape [OF assms] by (simp add: check_exec_cases watching_def)

section \<open>What the loaded maps hold\<close>

definition path_rule :: "bytes \<Rightarrow> compiled \<Rightarrow> bool" where
  "path_rule key c \<longleftrightarrow>
     r_type c = TypePath \<and> length (r_value c) < PATH_LEN \<and> fixed (r_value c) PATH_LEN = key"

definition dir_rule :: "go_os \<Rightarrow> dir_key \<Rightarrow> compiled \<Rightarrow> bool" where
  "dir_rule os key c \<longleftrightarrow> r_type c = TypeDir \<and> stat_key os (r_value c) = Some key"

definition names_with :: "bytes \<Rightarrow> bytes list \<Rightarrow> bool" where
  "names_with key ns \<longleftrightarrow> list_ex (\<lambda>n. fixed n NAME_LEN = key) ns"

definition mask_of :: "(bytes \<times> u64) list \<Rightarrow> bytes \<Rightarrow> u64" where
  "mask_of xs n = (case map_of xs n of None \<Rightarrow> 0 | Some v \<Rightarrow> v)"

lemma map_of_or_mask: "map_of (or_mask b n xs) = (map_of xs)(n \<mapsto> mask_of xs n OR b)"
  by (induction b n xs rule: or_mask.induct) (auto simp: mask_of_def fun_eq_iff)

lemma mask_of_or_mask: "mask_of (or_mask b n xs) m = (if m = n then mask_of xs m OR b else mask_of xs m)"
  by (simp add: mask_of_def [of "or_mask b n xs"] map_of_or_mask) (simp add: mask_of_def)

lemma mask_of_fold:
  "mask_of (fold (or_mask b) ns xs) m = (if m \<in> set ns then mask_of xs m OR b else mask_of xs m)"
  by (induction ns arbitrary: xs) (auto simp: mask_of_or_mask or.assoc)

lemma or_mask_keys: "set (map fst (or_mask b n xs)) = insert n (set (map fst xs))"
  by (induction b n xs rule: or_mask.induct) auto

lemma or_mask_distinct: "distinct (map fst xs) \<Longrightarrow> distinct (map fst (or_mask b n xs))"
proof (induction b n xs rule: or_mask.induct)
  case (2 b n m v xs)
  then show ?case using or_mask_keys [of b n xs] by auto
qed simp

lemma fold_or_mask_keys: "set (map fst (fold (or_mask b) ns xs)) = set ns \<union> set (map fst xs)"
  by (induction ns arbitrary: xs) (auto simp: or_mask_keys simp del: set_map)

lemma fold_or_mask_distinct: "distinct (map fst xs) \<Longrightarrow> distinct (map fst (fold (or_mask b) ns xs))"
  by (induction ns arbitrary: xs) (simp_all add: or_mask_distinct)

lemma has_bits [simp]:
  "h AND HAS_PATH \<noteq> 0 \<longleftrightarrow> bit h 0" "h AND HAS_DIR \<noteq> 0 \<longleftrightarrow> bit h 1" "h AND HAS_PARENT \<noteq> 0 \<longleftrightarrow> bit h 2"
proof -
  have "h AND 2 ^ n \<noteq> 0 \<longleftrightarrow> bit h n" if "n < 32" for n
    using that by (auto simp: bit_eq_iff [of "h AND 2 ^ n"] bit_simps)
  from this [of 0] this [of 1] this [of 2]
  show "h AND HAS_PATH \<noteq> 0 \<longleftrightarrow> bit h 0" "h AND HAS_DIR \<noteq> 0 \<longleftrightarrow> bit h 1" "h AND HAS_PARENT \<noteq> 0 \<longleftrightarrow> bit h 2"
    by (simp_all add: HAS_PATH_def HAS_DIR_def HAS_PARENT_def)
qed

lemma has_bit_values:
  "bit HAS_PATH n \<longleftrightarrow> n = 0" "bit HAS_DIR n \<longleftrightarrow> n = 1" "bit HAS_PARENT n \<longleftrightarrow> n = 2"
  using bit_exp_iff [of 0 n, where 'a = u32] bit_exp_iff [of 1 n, where 'a = u32]
    bit_exp_iff [of 2 n, where 'a = u32]
  by (auto simp: HAS_PATH_def HAS_DIR_def HAS_PARENT_def)

abbreviation parents_in :: "compiled list \<Rightarrow> compiled list" where
  "parents_in rs \<equiv> filter (\<lambda>c. r_type c = TypeParent) rs"

definition loaded :: "go_os \<Rightarrow> compiled list \<Rightarrow> load \<Rightarrow> bool" where
  "loaded os rs l \<longleftrightarrow>
     deny_path (ld_st l) = (\<lambda>k. map_option rule_idx (find (path_rule k) (rev rs))) \<and>
     deny_dir (ld_st l) = (\<lambda>k. map_option rule_idx (find (dir_rule os k) (rev rs))) \<and>
     (\<forall>c \<in> set rs. rule_action (ld_st l) ! c_index c = rule_act c) \<and>
     unat (ld_k l) = length (parents_in rs) \<and>
     (\<forall>j < length (parents_in rs). parent_rule (ld_st l) ! j = rule_idx (parents_in rs ! j)) \<and>
     (\<forall>n j. bit (mask_of (ld_parent l) n) j \<longleftrightarrow>
        j < length (parents_in rs) \<and> n \<in> set (c_parents (parents_in rs ! j))) \<and>
     (\<forall>n j. bit (mask_of (ld_child l) n) j \<longleftrightarrow>
        j < length (parents_in rs) \<and> n \<in> set (c_children (parents_in rs ! j))) \<and>
     (bit (ld_has l) 0 \<longleftrightarrow> (\<exists>k. \<exists>c \<in> set rs. path_rule k c)) \<and>
     (bit (ld_has l) 1 \<longleftrightarrow> (\<exists>k. \<exists>c \<in> set rs. dir_rule os k c)) \<and>
     (bit (ld_has l) 2 \<longleftrightarrow> parents_in rs \<noteq> []) \<and>
     (\<forall>n. 2 < n \<longrightarrow> \<not> bit (ld_has l) n)"

text \<open>The two Go maps hold the names of the parent rules, each once.\<close>

definition names_loaded :: "compiled list \<Rightarrow> load \<Rightarrow> bool" where
  "names_loaded rs l \<longleftrightarrow>
     distinct (map fst (ld_parent l)) \<and> distinct (map fst (ld_child l)) \<and>
     set (map fst (ld_parent l)) = (\<Union>c \<in> set (parents_in rs). set (c_parents c)) \<and>
     set (map fst (ld_child l)) = (\<Union>c \<in> set (parents_in rs). set (c_children c)) \<and>
     parent_mask (ld_st l) = Map.empty \<and> child_mask (ld_st l) = Map.empty"

lemma loaded_start: "loaded os [] (start_load st)"
  by (simp add: loaded_def start_load_def clear_rules_def mask_of_def fun_eq_iff)

lemma names_loaded_start: "names_loaded [] (start_load st)"
  by (simp add: names_loaded_def start_load_def clear_rules_def)

lemma load_rule_names:
  "names_loaded rs l \<Longrightarrow> load_rule os c l = (l', None) \<Longrightarrow> names_loaded (rs @ [c]) l'"
  by (auto simp: load_rule_def load_path_def load_dir_def load_parent_def Let_def names_loaded_def
      fold_or_mask_distinct fold_or_mask_keys simp del: set_map split: option.splits if_splits)

lemma load_rule_action:
  assumes "load_rule os c l = (l', None)" and "c_index c < MAX_RULES"
  shows "rule_action (ld_st l') = (rule_action (ld_st l))[c_index c := rule_act c] \<and>
    c_index c < length (rule_action (ld_st l))"
proof -
  have "unat (rule_idx c) = c_index c"
    using assms(2) by (simp add: rule_idx_def MAX_RULES_def unat_of_nat)
  then show ?thesis
    using assms(1)
    by (auto simp: load_rule_def load_path_def load_dir_def load_parent_def Let_def
        dest!: arr_put_SomeD split: option.splits if_splits)
qed

lemma load_rule_path:
  assumes "load_rule os c l = (l', None)" and "r_type c = TypePath"
  shows "ld_st l' = (ld_st l)\<lparr>rule_action := rule_action (ld_st l'), deny_path := deny_path (ld_st l')\<rparr>"
    and "deny_path (ld_st l') = (if length (r_value c) < PATH_LEN
          then (deny_path (ld_st l))(fixed (r_value c) PATH_LEN \<mapsto> rule_idx c) else deny_path (ld_st l))"
    and "ld_has l' = (if length (r_value c) < PATH_LEN then ld_has l OR HAS_PATH else ld_has l)"
    and "ld_parent l' = ld_parent l" "ld_child l' = ld_child l" "ld_k l' = ld_k l"
  using assms
  by (auto simp: load_rule_def load_path_def Let_def dest!: hash_put_SomeD split: option.splits if_splits)

lemma load_rule_dir:
  assumes "load_rule os c l = (l', None)" and "r_type c = TypeDir"
  shows "ld_st l' = (ld_st l)\<lparr>rule_action := rule_action (ld_st l'), deny_dir := deny_dir (ld_st l')\<rparr>"
    and "deny_dir (ld_st l') = (case stat_key os (r_value c) of None \<Rightarrow> deny_dir (ld_st l)
          | Some key \<Rightarrow> (deny_dir (ld_st l))(key \<mapsto> rule_idx c))"
    and "ld_has l' = (case stat_key os (r_value c) of None \<Rightarrow> ld_has l | Some key \<Rightarrow> ld_has l OR HAS_DIR)"
    and "ld_parent l' = ld_parent l" "ld_child l' = ld_child l" "ld_k l' = ld_k l"
  using assms
  by (auto simp: load_rule_def load_dir_def Let_def dest!: hash_put_SomeD split: option.splits if_splits)

lemma load_rule_parent:
  assumes "load_rule os c l = (l', None)" and "r_type c = TypeParent"
  shows "ld_st l' = (ld_st l)\<lparr>rule_action := rule_action (ld_st l'), parent_rule := parent_rule (ld_st l')\<rparr>"
    and "parent_rule (ld_st l') = (parent_rule (ld_st l))[unat (ld_k l) := rule_idx c]"
    and "unat (ld_k l) < length (parent_rule (ld_st l))"
    and "ld_has l' = ld_has l OR HAS_PARENT" and "ld_k l' = ld_k l + 1"
    and "ld_parent l' = fold (or_mask (push_bit (unat (ld_k l)) 1)) (c_parents c) (ld_parent l)"
    and "ld_child l' = fold (or_mask (push_bit (unat (ld_k l)) 1)) (c_children c) (ld_child l)"
  using assms
  by (auto simp: load_rule_def load_parent_def Let_def dest!: arr_put_SomeD split: option.splits if_splits)

lemma load_rule_other:
  assumes "load_rule os c l = (l', None)" and "r_type c \<notin> {TypePath, TypeDir, TypeParent}"
  shows "ld_st l' = (ld_st l)\<lparr>rule_action := rule_action (ld_st l')\<rparr>"
    and "ld_has l' = ld_has l"
    and "ld_parent l' = ld_parent l" "ld_child l' = ld_child l" "ld_k l' = ld_k l"
  using assms by (auto simp: load_rule_def Let_def split: option.splits if_splits)

lemma loaded_action:
  assumes "loaded os rs l" and "load_rule os c l = (l', None)"
    and "map c_index (rs @ [c]) = [0..<Suc (length rs)]" and "length rs < MAX_RULES"
  shows "\<forall>c' \<in> set (rs @ [c]). rule_action (ld_st l') ! c_index c' = rule_act c'"
proof -
  have c: "c_index c = length rs" and old: "c' \<in> set rs \<Longrightarrow> c_index c' < length rs" for c'
    using assms(3) by (auto simp: map_eq_conv dest!: arg_cong [where f = set])
  note load_rule_action [OF assms(2)]
  then show ?thesis
    using assms(1,4) c old by (fastforce simp: loaded_def)
qed

lemma find_snoc_rev: "find P (rev (xs @ [x])) = (if P x then Some x else find P (rev xs))"
  by simp

lemma nth_snoc: "j < Suc (length xs) \<Longrightarrow> (xs @ [x]) ! j = (if j = length xs then x else xs ! j)"
  by (simp add: nth_append)

lemma loaded_path:
  assumes "loaded os rs l" and "load_rule os c l = (l', None)" and "r_type c = TypePath"
    and "\<forall>c' \<in> set (rs @ [c]). rule_action (ld_st l') ! c_index c' = rule_act c'"
  shows "loaded os (rs @ [c]) l'"
proof -
  note f = load_rule_path [OF assms(2,3)]
  have st: "deny_dir (ld_st l') = deny_dir (ld_st l)" "parent_rule (ld_st l') = parent_rule (ld_st l)"
    by (subst f(1), simp)+
  have no: "\<not> dir_rule os k c" for k using assms(3) by (simp add: dir_rule_def)
  have yes: "path_rule k c \<longleftrightarrow> length (r_value c) < PATH_LEN \<and> fixed (r_value c) PATH_LEN = k" for k
    using assms(3) by (simp add: path_rule_def)
  show ?thesis
    using assms(1,3,4) unfolding loaded_def f(2-6) st
    by (auto simp: no yes fun_eq_iff bit_or_iff has_bit_values simp del: PATH_LEN_def)
qed

lemma loaded_dir:
  assumes "loaded os rs l" and "load_rule os c l = (l', None)" and "r_type c = TypeDir"
    and "\<forall>c' \<in> set (rs @ [c]). rule_action (ld_st l') ! c_index c' = rule_act c'"
  shows "loaded os (rs @ [c]) l'"
proof -
  note f = load_rule_dir [OF assms(2,3)]
  have st: "deny_path (ld_st l') = deny_path (ld_st l)" "parent_rule (ld_st l') = parent_rule (ld_st l)"
    by (subst f(1), simp)+
  have no: "\<not> path_rule k c" for k using assms(3) by (simp add: path_rule_def)
  have yes: "dir_rule os k c \<longleftrightarrow> stat_key os (r_value c) = Some k" for k
    using assms(3) by (simp add: dir_rule_def)
  show ?thesis
    using assms(1,3,4) unfolding loaded_def f(2-6) st
    by (cases "stat_key os (r_value c)")
      (auto simp: no yes fun_eq_iff bit_or_iff has_bit_values)
qed

lemma loaded_other:
  assumes "loaded os rs l" and "load_rule os c l = (l', None)"
    and "r_type c \<notin> {TypePath, TypeDir, TypeParent}"
    and "\<forall>c' \<in> set (rs @ [c]). rule_action (ld_st l') ! c_index c' = rule_act c'"
  shows "loaded os (rs @ [c]) l'"
proof -
  note f = load_rule_other [OF assms(2,3)]
  have st: "deny_path (ld_st l') = deny_path (ld_st l)" "deny_dir (ld_st l') = deny_dir (ld_st l)"
    "parent_rule (ld_st l') = parent_rule (ld_st l)"
    by (subst f(1), simp)+
  have no: "\<not> path_rule k c" "\<not> dir_rule os j c" for k j
    using assms(3) by (simp_all add: path_rule_def dir_rule_def)
  show ?thesis
    using assms(1,3,4) unfolding loaded_def f(2-5) st by (auto simp: no)
qed

lemma loaded_parent:
  assumes "loaded os rs l" and "load_rule os c l = (l', None)" and "r_type c = TypeParent"
    and "\<forall>c' \<in> set (rs @ [c]). rule_action (ld_st l') ! c_index c' = rule_act c'"
    and "length (parent_rule (ld_st l)) = MAX_PARENT"
  shows "loaded os (rs @ [c]) l'"
proof -
  note f = load_rule_parent [OF assms(2,3)]
  let ?n = "length (parents_in rs)"
  have k: "unat (ld_k l) = ?n" using assms(1) by (simp add: loaded_def)
  have lt: "?n < 64" using f(3) k assms(5) by (simp add: MAX_PARENT_def)
  have k': "unat (ld_k l + 1) = Suc ?n"
    using k lt by (simp add: unat_word_ariths)
  have st: "deny_path (ld_st l') = deny_path (ld_st l)" "deny_dir (ld_st l') = deny_dir (ld_st l)"
    by (subst f(1), simp)+
  have no: "\<not> path_rule k c" "\<not> dir_rule os j c" for k j
    using assms(3) by (simp_all add: path_rule_def dir_rule_def)
  have ps: "parents_in (rs @ [c]) = parents_in rs @ [c]" using assms(3) by simp
  have b: "bit (push_bit ?n (1 :: u64)) j \<longleftrightarrow> j = ?n" for j
    using lt bit_exp_iff [of ?n j, where 'a = u64] by (auto simp: push_bit_eq_mult)
  have len: "?n < length (parent_rule (ld_st l))" using f(3) k by simp
  note I = assms(1) [unfolded loaded_def]
  show ?thesis
    unfolding loaded_def f(2,4-7) st ps k k' mask_of_fold length_append_singleton
    using I assms(3,4) len lt b by (auto simp: no nth_append bit_or_iff has_bit_values less_Suc_eq)
qed

lemma load_rules_loaded:
  assumes "fold_until (load_rule os) rs (start_load st) = (l, None)"
    and "map c_index rs = [0..<length rs]" and "length rs \<le> MAX_RULES" and "prevent_ok st"
  shows "loaded os rs l \<and> names_loaded rs l"
  using assms
proof (induction rs arbitrary: l rule: rev_induct)
  case Nil
  then show ?case using loaded_start names_loaded_start by auto
next
  case (snoc c rs)
  from snoc.prems(1) obtain l0 where l0: "fold_until (load_rule os) rs (start_load st) = (l0, None)"
    and l: "load_rule os c l0 = (l, None)"
    by (auto simp: fold_until_snoc split: prod.splits option.splits)
  have IH: "loaded os rs l0 \<and> names_loaded rs l0"
    using snoc l0 by simp
  have ix: "map c_index (rs @ [c]) = [0..<Suc (length rs)]" "length rs < MAX_RULES"
    using snoc.prems(2,3) by simp_all
  have act: "\<forall>c' \<in> set (rs @ [c]). rule_action (ld_st l) ! c_index c' = rule_act c'"
    using loaded_action [OF _ l ix] IH by blast
  have len: "length (parent_rule (ld_st l0)) = MAX_PARENT"
    using load_rules_shape [OF snoc.prems(4), of os rs] l0 by (simp add: shape_ok_def)
  show ?case
    using IH loaded_path [OF _ l _ act] loaded_dir [OF _ l _ act] loaded_parent [OF _ l _ act len]
      loaded_other [OF _ l _ act] load_rule_names [OF _ l]
    by (cases "r_type c \<in> {TypePath, TypeDir, TypeParent}") auto
qed

section \<open>The masks\<close>

lemma put_parent_all:
  assumes "fold_until put_parent_mask xs st = (st', None)"
  shows "st' = st\<lparr>parent_mask := \<lambda>k. case find (\<lambda>e. fixed (fst e) NAME_LEN = k) (rev xs) of
      None \<Rightarrow> parent_mask st k | Some e \<Rightarrow> Some (snd e)\<rparr>"
  using assms
proof (induction xs arbitrary: st' rule: rev_induct)
  case Nil
  then show ?case by simp
next
  case (snoc x xs)
  then show ?case
    by (auto simp: fold_until_snoc put_parent_mask_def fun_eq_iff dest!: hash_put_SomeD
        split: prod.splits option.splits)
qed

lemma put_child_all:
  assumes "fold_until put_child_mask xs st = (st', None)"
  shows "st' = st\<lparr>child_mask := \<lambda>k. case find (\<lambda>e. fixed (fst e) NAME_LEN = k) (rev xs) of
      None \<Rightarrow> child_mask st k | Some e \<Rightarrow> Some (snd e)\<rparr>"
  using assms
proof (induction xs arbitrary: st' rule: rev_induct)
  case Nil
  then show ?case by simp
next
  case (snoc x xs)
  then show ?case
    by (auto simp: fold_until_snoc put_child_mask_def fun_eq_iff dest!: hash_put_SomeD
        split: prod.splits option.splits)
qed

definition mask_at :: "(bytes \<Rightarrow> u64 option) \<Rightarrow> bytes \<Rightarrow> u64" where
  "mask_at m k = (case m k of None \<Rightarrow> 0 | Some v \<Rightarrow> v)"

text \<open>
  A mask table holds the masks of the names the parent rules list. Two names
  that share their first 31 bytes share a key, and then one of the two is there.
\<close>

definition mask_ok :: "(compiled \<Rightarrow> bytes list) \<Rightarrow> compiled list \<Rightarrow> (bytes \<Rightarrow> u64 option) \<Rightarrow> bool" where
  "mask_ok names ps m \<longleftrightarrow>
     (\<forall>k. case m k of
        None \<Rightarrow> \<forall>c \<in> set ps. \<not> names_with k (names c)
      | Some v \<Rightarrow> \<exists>n. fixed n NAME_LEN = k \<and> (\<exists>c \<in> set ps. n \<in> set (names c)) \<and>
          (\<forall>j. bit v j \<longleftrightarrow> j < length ps \<and> n \<in> set (names (ps ! j))))"

lemma names_with_iff: "names_with k ns \<longleftrightarrow> (\<exists>n. fixed n NAME_LEN = k \<and> n \<in> set ns)"
  by (auto simp: names_with_def list_ex_iff)

lemma mask_ok_put:
  assumes "distinct (map fst xs)" and "set ys = set xs"
    and keys: "set (map fst xs) = (\<Union>c \<in> set ps. set (names c))"
    and bits: "\<And>n j. bit (mask_of xs n) j \<longleftrightarrow> j < length ps \<and> n \<in> set (names (ps ! j))"
  shows "mask_ok names ps
    (\<lambda>k. case find (\<lambda>e. fixed (fst e) NAME_LEN = k) ys of None \<Rightarrow> None | Some e \<Rightarrow> Some (snd e))"
  unfolding mask_ok_def
proof
  fix k
  let ?f = "find (\<lambda>e. fixed (fst e) NAME_LEN = k) ys"
  show "case (case ?f of None \<Rightarrow> None | Some e \<Rightarrow> Some (snd e)) of
      None \<Rightarrow> \<forall>c \<in> set ps. \<not> names_with k (names c)
    | Some v \<Rightarrow> \<exists>n. fixed n NAME_LEN = k \<and> (\<exists>c \<in> set ps. n \<in> set (names c)) \<and>
        (\<forall>j. bit v j \<longleftrightarrow> j < length ps \<and> n \<in> set (names (ps ! j)))"
  proof (cases ?f)
    case None
    then have "fixed n NAME_LEN \<noteq> k" if "n \<in> set (map fst xs)" for n
      using that assms(2) by (auto simp: find_None_iff)
    then have "\<forall>c \<in> set ps. \<not> names_with k (names c)"
      unfolding keys names_with_iff by blast
    then show ?thesis using None by simp
  next
    case (Some e)
    then have e: "e \<in> set xs" "fixed (fst e) NAME_LEN = k"
      using assms(2) by (auto simp: find_Some_iff)
    then have "map_of xs (fst e) = Some (snd e)" using assms(1) by (simp add: map_of_eq_Some_iff)
    then have "mask_of xs (fst e) = snd e" by (simp add: mask_of_def)
    moreover have "fst e \<in> (\<Union>c \<in> set ps. set (names c))" using e(1) unfolding keys [symmetric] by simp
    ultimately show ?thesis using Some e(2) bits [of "fst e"] by (auto intro!: exI [of _ "fst e"])
  qed
qed

lemma mask_ok_bit:
  assumes "mask_ok names ps m" and "bit (mask_at m k) j"
  shows "j < length ps \<and> names_with k (names (ps ! j))"
  using assms(1) [unfolded mask_ok_def, THEN spec, of k] assms(2)
  by (auto simp: mask_at_def names_with_iff split: option.splits)

lemma mask_ok_iff:
  assumes "mask_ok names ps m" and "inj_on (\<lambda>n. fixed n NAME_LEN) (\<Union>c \<in> set ps. set (names c))"
  shows "bit (mask_at m k) j \<longleftrightarrow> j < length ps \<and> names_with k (names (ps ! j))"
proof
  show "bit (mask_at m k) j \<Longrightarrow> j < length ps \<and> names_with k (names (ps ! j))"
    by (rule mask_ok_bit [OF assms(1)])
next
  assume r: "j < length ps \<and> names_with k (names (ps ! j))"
  then obtain n where n: "fixed n NAME_LEN = k" "n \<in> set (names (ps ! j))" by (auto simp: names_with_iff)
  then have u: "n \<in> (\<Union>c \<in> set ps. set (names c))" using r nth_mem by blast
  note m = assms(1) [unfolded mask_ok_def, THEN spec, of k]
  show "bit (mask_at m k) j"
  proof (cases "m k")
    case None
    then show ?thesis using m r by auto
  next
    case (Some v)
    then obtain n' where n': "fixed n' NAME_LEN = k" "n' \<in> (\<Union>c \<in> set ps. set (names c))"
      "bit v j \<longleftrightarrow> j < length ps \<and> n' \<in> set (names (ps ! j))" using m by auto
    have "n' = n" using inj_onD [OF assms(2)] n(1) n'(1,2) u by metis
    then show ?thesis using n' n(2) r Some by (simp add: mask_at_def)
  qed
qed

lemma find_Least:
  "find P xs = (if \<exists>j < length xs. P (xs ! j) then Some (xs ! (LEAST j. j < length xs \<and> P (xs ! j))) else None)"
proof (cases "\<exists>j < length xs. P (xs ! j)")
  case True
  define l where "l = (LEAST j. j < length xs \<and> P (xs ! j))"
  have l: "l < length xs \<and> P (xs ! l)" unfolding l_def using True by (metis (mono_tags, lifting) LeastI)
  moreover have "\<not> P (xs ! i)" if "i < l" for i
    using not_less_Least [of i "\<lambda>j. j < length xs \<and> P (xs ! j)"] that l by (auto simp: l_def [symmetric])
  ultimately have "find P xs = Some (xs ! l)" unfolding find_Some_iff by blast
  then show ?thesis using True by (simp add: l_def)
next
  case False
  then show ?thesis by (auto simp: find_None_iff in_set_conv_nth)
qed

lemma parent_spec_mask_at:
  "parent_spec st base pbase =
     (let m = mask_at (child_mask st) base AND mask_at (parent_mask st) pbase
      in if m = 0 then None else Some (parent_rule st ! (LEAST k. bit m k)))"
  by (auto simp: parent_spec_def mask_at_def Let_def split: option.split)

definition name_rule :: "bytes \<Rightarrow> bytes \<Rightarrow> compiled \<Rightarrow> bool" where
  "name_rule base pbase c \<longleftrightarrow>
     r_type c = TypeParent \<and> names_with base (c_children c) \<and> names_with pbase (c_parents c)"

lemma parent_spec_rule:
  assumes "\<And>j. bit (mask_at (child_mask st) base) j \<longleftrightarrow> j < length ps \<and> names_with base (c_children (ps ! j))"
    and "\<And>j. bit (mask_at (parent_mask st) pbase) j \<longleftrightarrow> j < length ps \<and> names_with pbase (c_parents (ps ! j))"
    and "\<And>j. j < length ps \<Longrightarrow> parent_rule st ! j = rule_idx (ps ! j)"
    and "ps = parents_in rs"
  shows "parent_spec st base pbase = map_option rule_idx (find (name_rule base pbase) rs)"
proof -
  let ?m = "mask_at (child_mask st) base AND mask_at (parent_mask st) pbase"
  let ?P = "\<lambda>c. names_with base (c_children c) \<and> names_with pbase (c_parents c)"
  have b: "bit ?m j \<longleftrightarrow> j < length ps \<and> ?P (ps ! j)" for j
    using assms(1,2) by (auto simp: bit_and_iff)
  have be: "bit ?m = (\<lambda>j. j < length ps \<and> ?P (ps ! j))" using b by (auto simp: fun_eq_iff)
  have z: "?m = 0 \<longleftrightarrow> \<not> (\<exists>j < length ps. ?P (ps ! j))"
    using b by (metis bit_0_eq bit_eqI bot_apply bot_bool_def)
  have l: "(LEAST j. j < length ps \<and> ?P (ps ! j)) < length ps" if "\<exists>j < length ps. ?P (ps ! j)"
    using that by (metis (mono_tags, lifting) LeastI)
  have "find (name_rule base pbase) rs = find ?P ps"
    unfolding assms(4) by (induction rs) (auto simp: name_rule_def)
  then show ?thesis
    using l assms(3) be z
    by (cases "\<exists>j < length ps. ?P (ps ! j)") (simp_all add: parent_spec_mask_at find_Least [of ?P ps])
qed

text \<open>A parent rule that is found names both programs, whether or not names share keys.\<close>

lemma parent_spec_names:
  assumes "mask_ok c_children ps (child_mask st)" and "mask_ok c_parents ps (parent_mask st)"
    and "\<And>j. j < length ps \<Longrightarrow> parent_rule st ! j = rule_idx (ps ! j)"
    and "parent_spec st base pbase = Some r"
  shows "\<exists>c \<in> set ps. r = rule_idx c \<and> names_with base (c_children c) \<and> names_with pbase (c_parents c)"
proof -
  let ?m = "mask_at (child_mask st) base AND mask_at (parent_mask st) pbase"
  define l where "l = (LEAST k. bit ?m k)"
  have m: "?m \<noteq> 0" and r: "r = parent_rule st ! l"
    using assms(4) by (simp_all add: parent_spec_mask_at Let_def l_def split: if_splits)
  then obtain k where "bit ?m k" by (metis bit_0_eq bit_eqI bot_apply bot_bool_def)
  then have "bit ?m l" unfolding l_def by (rule LeastI)
  then have "l < length ps \<and> names_with base (c_children (ps ! l)) \<and> names_with pbase (c_parents (ps ! l))"
    using mask_ok_bit [OF assms(1)] mask_ok_bit [OF assms(2)] by (auto simp: bit_and_iff)
  then show ?thesis using r assms(3) by (intro bexI [of _ "ps ! l"]) auto
qed

end
