(* ===== verification/Execve.thy ===== *)
theory Execve
  imports Sample
begin

text \<open>
  \<open>execve.bpf.c\<close>: one record per \<open>execve\<close> system call with the program's
  file name, up to eight arguments, and the file name its parent was last
  seen to execute. The cache of file names is a map parameter \<open>M\<close>.
\<close>

section \<open>Data\<close>

definition MAX_FILENAME_LEN :: nat where "MAX_FILENAME_LEN = 256"
definition ARGSIZE :: nat where "ARGSIZE = 128"
definition MAXARG :: nat where "MAXARG = 8"
definition ARGS_BUF_LEN :: nat where "ARGS_BUF_LEN = ARGSIZE * MAXARG"

lemmas exec_consts [simp] = MAX_FILENAME_LEN_def ARGSIZE_def MAXARG_def ARGS_BUF_LEN_def

record exec_event =
  ee_timestamp_ns :: u64
  ee_pid :: u32
  ee_ppid :: u32
  ee_uid :: u32
  ee_gid :: u32
  ee_comm :: bytes
  ee_filename :: bytes
  ee_parent_filename :: bytes
  ee_args :: bytes
  ee_args_size :: u32
  ee_args_count :: u32
  ee_args_truncated :: u8

record 'm exec_st =
  events :: "exec_event list"
  pid_image_cache :: 'm
  scratch_buf :: "nat \<Rightarrow> bytes list"

definition exec_event_ok :: "exec_event \<Rightarrow> bool" where
  "exec_event_ok ev \<longleftrightarrow> length (ee_comm ev) = 16 \<and> length (ee_filename ev) = MAX_FILENAME_LEN \<and>
     length (ee_parent_filename ev) = MAX_FILENAME_LEN \<and> length (ee_args ev) = ARGS_BUF_LEN"

section \<open>Operations\<close>

text \<open>The argument loop, over the rounds left; the tuple is \<open>args\<close>, \<open>off\<close>, \<open>count\<close>, \<open>truncated\<close>.\<close>

fun args_loop ::
  "'a bpf_env_scheme \<Rightarrow> u64 \<Rightarrow> nat list \<Rightarrow> bytes \<times> u32 \<times> u32 \<times> u8 \<Rightarrow> bytes \<times> u32 \<times> u32 \<times> u8" where
  "args_loop env argv [] s = s"
| "args_loop env argv (i # is) (args, off, count, truncated) =
     (let argp = le_word (snd (probe_read_user env (argv + 8 * word_of_nat i) (replicate 8 0))) in
      if argp = 0 then (args, off, count, truncated)
      else if word_of_nat ARGS_BUF_LEN < off + word_of_nat ARGSIZE then (args, off, count, 1)
      else
        let (n, got) = probe_read_user_str env argp (take ARGSIZE (drop (unat off) args));
            args = blit (unat off) args got
        in if n \<le> 0 then (args, off, count, truncated)
           else args_loop env argv is (args, off + word_of_int n, count + 1, truncated))"

text \<open>The identity fields and the file name, as the handler fills them in order.\<close>

definition fill_exec :: "'a bpf_env_scheme \<Rightarrow> u32 \<Rightarrow> u32 \<Rightarrow> u64 \<Rightarrow> exec_event \<Rightarrow> exec_event" where
  "fill_exec env pid ppid filename_ptr ev =
     (let ev = ev\<lparr>ee_timestamp_ns := ktime_ns env, ee_pid := pid, ee_ppid := ppid,
                  ee_uid := ucast (current_uid_gid env),
                  ee_gid := ucast (drop_bit 32 (current_uid_gid env)),
                  ee_comm := snd (current_comm env (ee_comm ev))\<rparr>;
          (r, got) = probe_read_user_str env filename_ptr (ee_filename ev)
      in ev\<lparr>ee_filename := (if r < 0 then got[0 := 0] else got)\<rparr>)"

text \<open>
  \<open>slot\<close> is the ring buffer's answer to the reservation; \<open>args\<close> the
  tracepoint's argument array.
\<close>

definition handle_execve ::
  "'a bpf_env_scheme \<Rightarrow> (u32, bytes, 'm) map_ops \<Rightarrow> exec_event option \<Rightarrow> 'm exec_st \<Rightarrow> u64 list
   \<Rightarrow> int \<times> 'm exec_st" where
  "handle_execve env M slot st args =
     (let pid = ucast (drop_bit 32 (current_pid_tgid env));
          task = current_task env;
          ppid = core_u32 env task [(''task_struct'', ''real_parent''), (''task_struct'', ''tgid'')]
      in case slot of None \<Rightarrow> (0, st)
         | Some ev \<Rightarrow>
           let ev = fill_exec env pid ppid (args ! 0) ev;
               ev = (case map_lookup_elem M (pid_image_cache st) ppid of
                       Some cached \<Rightarrow> ev\<lparr>ee_parent_filename := cached\<rparr>
                     | None \<Rightarrow> ev\<lparr>ee_parent_filename := (ee_parent_filename ev)[0 := 0]\<rparr>);
               st = (case arr_lookup (scratch_buf st (cpu env)) 0 of None \<Rightarrow> st
                     | Some _ \<Rightarrow>
                         st\<lparr>scratch_buf := (scratch_buf st)(cpu env :=
                              arr_store (scratch_buf st (cpu env)) 0 (ee_filename ev)),
                            pid_image_cache :=
                              snd (map_update_elem M (pid_image_cache st) pid (ee_filename ev) BPF_ANY)\<rparr>);
               (a, off, count, truncated) =
                 args_loop env (args ! 1) [0..<MAXARG] (ee_args ev, 0, 0, 0);
               ev = ev\<lparr>ee_args := a, ee_args_size := off, ee_args_count := count,
                       ee_args_truncated := truncated\<rparr>
           in (0, st\<lparr>events := events st @ [ev]\<rparr>))"

text \<open>
  The agent's reading of the argument bytes, \<open>splitArgs\<close> of \<open>procexec.go\<close>:
  every non-empty run of bytes before a NUL, and the whole buffer when the
  size is not positive or too large.
\<close>

fun split_loop :: "bytes \<Rightarrow> nat list \<Rightarrow> nat \<Rightarrow> bytes list \<Rightarrow> bytes list" where
  "split_loop buf [] start parts = parts"
| "split_loop buf (i # is) start parts =
     (if buf ! i = 0
      then split_loop buf is (i + 1) (if start < i then parts @ [take (i - start) (drop start buf)] else parts)
      else split_loop buf is start parts)"

definition splitArgs :: "bytes \<Rightarrow> int \<Rightarrow> bytes list" where
  "splitArgs buf sz =
     (let n = (if sz \<le> 0 \<or> int (length buf) < sz then length buf else nat sz)
      in split_loop buf [0..<n] 0 [])"

section \<open>The argument loop stays inside its buffer\<close>

lemma args_loop_bounds:
  assumes "bpf_helpers env" and "length args = ARGS_BUF_LEN"
    and "unat off \<le> ARGSIZE * i" and "i + n = MAXARG" and "unat count = i"
    and "args_loop env argv [i..<MAXARG] (args, off, count, t) = (args', off', count', t')"
  shows "length args' = ARGS_BUF_LEN \<and> unat off' \<le> ARGS_BUF_LEN \<and> unat count' \<le> MAXARG \<and> t' = t"
  using assms(2-)
proof (induction n arbitrary: i args off count)
  case 0
  then show ?case by auto
next
  case (Suc n)
  have upt: "[i..<MAXARG] = i # [Suc i..<MAXARG]" using Suc.prems by (simp add: upt_conv_Cons)
  have off: "unat off + 128 \<le> 1024" using Suc.prems(2,3) by simp
  then have fit: "\<not> word_of_nat ARGS_BUF_LEN < off + word_of_nat ARGSIZE"
    by (simp add: word_less_nat_alt unat_word_ariths)
  let ?argp = "le_word (snd (probe_read_user env (argv + 8 * word_of_nat i) (replicate 8 0))) :: u64"
  let ?d = "take ARGSIZE (drop (unat off) args)"
  obtain r got where rd: "probe_read_user_str env ?argp ?d = (r, got)" by fastforce
  have d: "length ?d = 128" using off Suc.prems(1) by simp
  then have got: "length got = 128" "r \<le> 128"
    using bpf_helpers.user_str_length [OF assms(1), of ?d ?argp]
      bpf_helpers.user_str_ret [OF assms(1), of ?d ?argp] rd by simp_all
  then have len: "length (blit (unat off) args got) = ARGS_BUF_LEN" using off Suc.prems(1) by simp
  consider "?argp = 0" | "?argp \<noteq> 0" "r \<le> 0" | "?argp \<noteq> 0" "0 < r" by linarith
  then show ?case
  proof cases
    case 3
    have u: "unat (word_of_int r :: u32) = nat r"
      using got(2) 3 by (simp add: unat_eq_nat_uint uint_word_of_int)
    have "unat (off + word_of_int r) \<le> ARGSIZE * Suc i"
      using u got(2) off Suc.prems(2) 3 by (simp add: unat_word_ariths)
    moreover have "unat (count + 1) = Suc i" using Suc.prems(3,4) by (simp add: unat_word_ariths)
    moreover have "args_loop env argv [Suc i..<MAXARG]
        (blit (unat off) args got, off + word_of_int r, count + 1, t) = (args', off', count', t')"
      using Suc.prems(5) 3 rd fit unfolding upt by (simp add: Let_def del: exec_consts)
    ultimately show ?thesis using Suc.IH [OF len, of _ "Suc i"] Suc.prems(3) by simp
  qed (use Suc.prems rd fit len off in \<open>auto simp: upt Let_def simp del: exec_consts\<close>, auto)
qed

section \<open>The argument loop copies the arguments\<close>

text \<open>A NULL-terminated argument vector in user memory.\<close>

definition argv_at :: "'a bpf_env_scheme \<Rightarrow> u64 \<Rightarrow> bytes list \<Rightarrow> bool" where
  "argv_at env argv ss \<longleftrightarrow>
     (\<forall>i < length ss. \<exists>p :: u64. p \<noteq> 0 \<and>
        le_word (snd (probe_read_user env (argv + 8 * word_of_nat i) (replicate 8 0))) = p \<and>
        holds_user_str env p (ss ! i)) \<and>
     le_word (snd (probe_read_user env (argv + 8 * word_of_nat (length ss)) (replicate 8 0))) = (0 :: u64)"

definition arg_bytes :: "bytes \<Rightarrow> bytes" where
  "arg_bytes s = take (ARGSIZE - 1) s @ [0]"

lemma length_arg_bytes: "0 < length (arg_bytes s)" "length (arg_bytes s) \<le> 128"
  by (auto simp: arg_bytes_def)

lemma take_blit_prefix:
  "off + length xs \<le> length d \<Longrightarrow> take (off + k) (blit off d xs) = take off d @ take k xs" if "k \<le> length xs"
  using that by (simp add: blit_def)

lemma args_loop_content:
  assumes argv: "argv_at env argv ss"
    and "length args = ARGS_BUF_LEN" and "unat off \<le> ARGSIZE * i" and "i + n = MAXARG"
    and "unat count = i" and "i \<le> length ss"
    and "args_loop env argv [i..<MAXARG] (args, off, count, t) = (args', off', count', t')"
  shows "take (unat off') args' = take (unat off) args @ concat (map arg_bytes (take n (drop i ss))) \<and>
     unat off' = unat off + length (concat (map arg_bytes (take n (drop i ss)))) \<and>
     unat count' = min MAXARG (length ss)"
  using assms(2-)
proof (induction n arbitrary: i args off count)
  case 0
  then show ?case by auto
next
  case (Suc n)
  have upt: "[i..<MAXARG] = i # [Suc i..<MAXARG]" using Suc.prems by (simp add: upt_conv_Cons)
  have off: "unat off + 128 \<le> 1024" using Suc.prems(2,3) by simp
  then have fit: "\<not> word_of_nat ARGS_BUF_LEN < off + word_of_nat ARGSIZE"
    by (simp add: word_less_nat_alt unat_word_ariths)
  show ?case
  proof (cases "i < length ss")
    case False
    then have "i = length ss" using Suc.prems(5) by simp
    then have "args' = args" "off' = off" "count' = count"
      using argv Suc.prems(6) unfolding upt argv_at_def by (simp_all add: Let_def del: exec_consts)
    then show ?thesis using False Suc.prems by simp
  next
    case True
    let ?s = "ss ! i" and ?d = "take ARGSIZE (drop (unat off) args)"
    obtain p :: u64 where p: "p \<noteq> 0"
      "le_word (snd (probe_read_user env (argv + 8 * word_of_nat i) (replicate 8 0))) = p"
      "holds_user_str env p ?s"
      using argv True unfolding argv_at_def by blast
    have d: "length ?d = 128" using off Suc.prems(1) by simp
    define got where "got = snd (str_copy ?s ?d)"
    have rd: "probe_read_user_str env p ?d = (int (length (arg_bytes ?s)), got)"
      using p(3) d by (auto simp: holds_user_str_def got_def str_copy_def Let_def arg_bytes_def)
    have "got = arg_bytes ?s @ drop (length (arg_bytes ?s)) ?d"
      using d by (simp add: got_def str_copy_def Let_def blit_0 arg_bytes_def)
    then have got: "length got = 128" "take (length (arg_bytes ?s)) got = arg_bytes ?s"
      using d length_arg_bytes [of ?s] by (metis append_eq_conv_conj length_append length_drop
          le_add_diff_inverse, metis append_eq_conv_conj)
    define k where "k = length (arg_bytes ?s)"
    have k: "0 < k" "k \<le> 128" unfolding k_def by (rule length_arg_bytes)+
    let ?args = "blit (unat off) args got" and ?off = "off + word_of_int (int k)"
    have o: "unat ?off = unat off + k" using off k by (simp add: unat_word_ariths unat_of_nat)
    have tk: "take (unat ?off) ?args = take (unat off) args @ arg_bytes ?s"
      unfolding o using take_blit_prefix [of k got "unat off" args] got k off Suc.prems(1)
      by (simp add: k_def)
    have "args_loop env argv [Suc i..<MAXARG] (?args, ?off, count + 1, t) = (args', off', count', t')"
      using Suc.prems(6) p rd fit k unfolding upt by (simp add: Let_def k_def del: exec_consts)
    moreover have "unat (count + 1) = Suc i" using Suc.prems(3,4) by (simp add: unat_word_ariths)
    moreover have "length ?args = ARGS_BUF_LEN" using got off Suc.prems(1) by simp
    moreover have "unat ?off \<le> ARGSIZE * Suc i" using o k Suc.prems(2) by simp
    ultimately have "take (unat off') args' = take (unat ?off) ?args @ concat (map arg_bytes (take n (drop (Suc i) ss))) \<and>
       unat off' = unat ?off + length (concat (map arg_bytes (take n (drop (Suc i) ss)))) \<and>
       unat count' = min MAXARG (length ss)"
      using Suc.prems(3) True by (intro Suc.IH [of ?args ?off "Suc i" "count + 1"]) simp_all
    moreover have "take (Suc n) (drop i ss) = ?s # take n (drop (Suc i) ss)"
      using True by (simp flip: Cons_nth_drop_Suc)
    ultimately show ?thesis using tk o k_def by auto
  qed
qed

section \<open>The agent's reading of the arguments\<close>

text \<open>\<open>splitArgs\<close> on a list of NUL-terminated pieces returns the non-empty ones.\<close>

lemma split_loop_piece:
  assumes "0 \<notin> set s" and "drop start buf = s @ 0 # r" and "start \<le> i" "i \<le> start + length s"
    and "start \<le> length buf"
  shows "split_loop buf ([i..<start + length s + 1] @ ks) start parts =
     split_loop buf ks (start + length s + 1) (if s = [] then parts else parts @ [s])"
  using assms(3-)
proof (induction "start + length s - i" arbitrary: i)
  case 0
  then have i: "i = start + length s" by simp
  have "buf ! i = 0"
    using assms(2) i by (metis nth_append_length nth_drop assms(5))
  moreover have "take (i - start) (drop start buf) = s" using assms(2) i by simp
  ultimately show ?case using i by simp
next
  case (Suc m)
  then have lt: "i < start + length s" and k: "i - start < length s" by linarith+
  have "buf ! i = s ! (i - start)"
  proof -
    have "buf ! i = drop start buf ! (i - start)" using Suc.prems by simp
    then show ?thesis using assms(2) k by (simp add: nth_append)
  qed
  then have "buf ! i \<noteq> 0" using assms(1) k by (metis nth_mem)
  then show ?case using Suc.hyps(1) [of "Suc i"] Suc.hyps(2) Suc.prems lt by (simp add: upt_conv_Cons)
qed

lemma split_loop_pieces:
  assumes "\<And>s. s \<in> set ss \<Longrightarrow> 0 \<notin> set s" and "drop start buf = concat (map (\<lambda>s. s @ [0]) ss) @ r"
    and "start \<le> length buf"
  shows "split_loop buf [start..<start + length (concat (map (\<lambda>s. s @ [0 :: u8]) ss))] start parts =
     parts @ filter (\<lambda>s. s \<noteq> []) ss"
  using assms
proof (induction ss arbitrary: start parts)
  case Nil
  then show ?case by simp
next
  case (Cons s ss)
  let ?rest = "concat (map (\<lambda>s. s @ [0 :: u8]) ss)"
  have d: "drop start buf = s @ 0 # (?rest @ r)" using Cons.prems(2) by simp
  have len: "start + length s + 1 \<le> length buf"
    using arg_cong [OF d, of length] Cons.prems(3) by simp
  have split: "[start..<start + length (concat (map (\<lambda>s. s @ [0 :: u8]) (s # ss)))] =
      [start..<start + length s + 1] @ [start + length s + 1..<start + length s + 1 + length ?rest]"
    using upt_add_eq_append [of start "start + length s + 1" "length ?rest"] by (simp add: add.assoc)
  have "drop (start + length s + 1) buf = ?rest @ r"
    using arg_cong [OF d, of "drop (length s + 1)"] by (simp add: add.commute)
  then show ?case
    unfolding split using split_loop_piece [OF _ d, of start] Cons.prems len
      Cons.IH [of "start + length s + 1"] by simp
qed

section \<open>The record of one call\<close>

abbreviation exec_pid :: "'a bpf_env_scheme \<Rightarrow> u32" where
  "exec_pid env \<equiv> ucast (drop_bit 32 (current_pid_tgid env))"

abbreviation exec_ppid :: "'a bpf_env_scheme \<Rightarrow> u32" where
  "exec_ppid env \<equiv> core_u32 env (current_task env)
     [(''task_struct'', ''real_parent''), (''task_struct'', ''tgid'')]"

definition exec_st_ok :: "(u32, bytes, 'm) map_ops \<Rightarrow> 'm exec_st \<Rightarrow> bool" where
  "exec_st_ok M st \<longleftrightarrow>
     (\<forall>k v. map_lookup_elem M (pid_image_cache st) k = Some v \<longrightarrow> length v = MAX_FILENAME_LEN) \<and>
     (\<forall>c. \<exists>b. scratch_buf st c = [b] \<and> length b = MAX_FILENAME_LEN)"

lemma handle_execve_full: "handle_execve env M None st args = (0, st)"
  by (simp add: handle_execve_def Let_def)

text \<open>The record a call leaves, and its effect on the state.\<close>

definition exec_record ::
  "'a bpf_env_scheme \<Rightarrow> (u32, bytes, 'm) map_ops \<Rightarrow> 'm exec_st \<Rightarrow> u64 list \<Rightarrow> exec_event \<Rightarrow> exec_event" where
  "exec_record env M st args ev =
     (let (a, off, count, t) = args_loop env (args ! 1) [0..<MAXARG] (ee_args ev, 0, 0, 0) in
      (fill_exec env (exec_pid env) (exec_ppid env) (args ! 0) ev)
        \<lparr>ee_parent_filename := (case map_lookup_elem M (pid_image_cache st) (exec_ppid env) of
           Some c \<Rightarrow> c | None \<Rightarrow> (ee_parent_filename ev)[0 := 0]),
         ee_args := a, ee_args_size := off, ee_args_count := count, ee_args_truncated := t\<rparr>)"

lemma handle_execve_Some:
  assumes "exec_st_ok M st"
  shows "handle_execve env M (Some ev) st args =
    (0, st\<lparr>events := events st @ [exec_record env M st args ev],
           pid_image_cache := snd (map_update_elem M (pid_image_cache st) (exec_pid env)
             (ee_filename (exec_record env M st args ev)) BPF_ANY),
           scratch_buf := (scratch_buf st)(cpu env := [ee_filename (exec_record env M st args ev)])\<rparr>)"
proof -
  obtain b where b: "scratch_buf st (cpu env) = [b]"
    using assms unfolding exec_st_ok_def by (metis (no_types))
  have scr: "arr_lookup [b] 0 = Some b" "arr_store [b] 0 x = [x]" for x
    by (simp_all add: arr_lookup_def arr_store_def)
  have keep: "ee_args (fill_exec env p q r ev) = ee_args ev"
    "ee_parent_filename (fill_exec env p q r ev) = ee_parent_filename ev" for p q r
    by (simp_all add: fill_exec_def split: prod.split)
  show ?thesis
    by (simp add: handle_execve_def exec_record_def Let_def b scr keep del: exec_consts
        split: option.split prod.split)
qed

lemma fill_exec_ok:
  assumes "bpf_helpers env" and "exec_event_ok ev"
  shows "exec_event_ok (fill_exec env p q r ev)"
  using assms(2) bpf_helpers.user_str_length [OF assms(1), of "ee_filename ev" r]
    bpf_helpers.comm_length [OF assms(1), of "ee_comm ev"]
  by (auto simp: fill_exec_def exec_event_ok_def split: prod.split)

lemma exec_record_ok:
  assumes "bpf_helpers env" and "exec_st_ok M st" and "exec_event_ok ev"
  shows "exec_event_ok (exec_record env M st args ev)"
    and "unat (ee_args_size (exec_record env M st args ev)) \<le> ARGS_BUF_LEN"
    and "unat (ee_args_count (exec_record env M st args ev)) \<le> MAXARG"
    and "ee_args_truncated (exec_record env M st args ev) = 0"
proof -
  obtain a off count t where
    loop: "args_loop env (args ! 1) [0..<MAXARG] (ee_args ev, 0, 0, 0) = (a, off, count, t)"
    by (metis surj_pair)
  have b: "length a = ARGS_BUF_LEN \<and> unat off \<le> ARGS_BUF_LEN \<and> unat count \<le> MAXARG \<and> t = 0"
    by (rule args_loop_bounds [OF assms(1) _ _ _ _ loop, of MAXARG])
      (use assms(3) in \<open>simp_all add: exec_event_ok_def\<close>)
  show "exec_event_ok (exec_record env M st args ev)"
    "unat (ee_args_size (exec_record env M st args ev)) \<le> ARGS_BUF_LEN"
    "unat (ee_args_count (exec_record env M st args ev)) \<le> MAXARG"
    "ee_args_truncated (exec_record env M st args ev) = 0"
    unfolding exec_record_def loop
    using b fill_exec_ok [OF assms(1,3), of "exec_pid env" "exec_ppid env" "args ! 0"] assms(2,3)
    by (auto simp: exec_event_ok_def exec_st_ok_def split: option.split)
qed

lemma handle_execve_st_ok:
  assumes "bpf_helpers env" and "bpf_map M" and "exec_st_ok M st" and "exec_event_ok ev"
  shows "exec_st_ok M (snd (handle_execve env M (Some ev) st args))"
  using assms(3) exec_record_ok(1) [OF assms(1,3,4), of args] bpf_map.update_sub [OF assms(2)]
  unfolding handle_execve_Some [OF assms(3)] exec_st_ok_def exec_event_ok_def
  by (fastforce simp del: exec_consts)

text \<open>
  C34: Every record submitted is well formed: its buffers keep their sizes,
  at most \<open>ARGS_BUF_LEN\<close> argument bytes and \<open>MAXARG\<close> arguments are counted;
  and the cache keeps holding full-size file names. The truncation flag is
  never set, whatever the arguments were.
\<close>

theorem handle_execve_record_ok:
  assumes "bpf_helpers env" and "bpf_map M" and "exec_st_ok M st" and "exec_event_ok ev"
  shows "exec_st_ok M (snd (handle_execve env M (Some ev) st args)) \<and>
    (\<exists>e. events (snd (handle_execve env M (Some ev) st args)) = events st @ [e] \<and> exec_event_ok e \<and>
       unat (ee_args_size e) \<le> ARGS_BUF_LEN \<and> unat (ee_args_count e) \<le> MAXARG \<and> ee_args_truncated e = 0)"
  using handle_execve_st_ok [OF assms] exec_record_ok [OF assms(1,3,4), of args]
  by (auto simp: handle_execve_Some [OF assms(3)])

lemma splitArgs_all:
  fixes n :: u32
  assumes "0 < unat n" and "unat n \<le> length buf"
  shows "splitArgs buf (uint n) = split_loop buf [0..<unat n] 0 []"
proof -
  define k where "k = unat n"
  have "uint n = int k" by (simp add: k_def)
  moreover have "0 < k" "k \<le> length buf" using assms by (simp_all only: k_def)
  ultimately show ?thesis by (simp only: splitArgs_def Let_def k_def [symmetric]) simp
qed

lemma exec_record_args:
  assumes "exec_event_ok ev" and "argv_at env (args ! 1) ss" and "ss \<noteq> []"
  shows "splitArgs (ee_args (exec_record env M st args ev)) (uint (ee_args_size (exec_record env M st args ev))) =
       filter (\<lambda>s. s \<noteq> []) (map (take (ARGSIZE - 1)) (take MAXARG ss))"
    and "unat (ee_args_count (exec_record env M st args ev)) = min MAXARG (length ss)"
proof -
  let ?e = "exec_record env M st args ev"
  obtain a off count t where
    loop: "args_loop env (args ! 1) [0..<MAXARG] (ee_args ev, 0, 0, 0) = (a, off, count, t)"
    by (metis surj_pair)
  let ?c = "concat (map arg_bytes (take MAXARG ss))"
  have c: "take (unat off) a = ?c" "unat off = length ?c" "unat count = min MAXARG (length ss)"
    using args_loop_content [OF assms(2) _ _ _ _ _ loop, of MAXARG] assms(1)
    by (auto simp: exec_event_ok_def)
  have pieces: "?c = concat (map (\<lambda>s. s @ [0]) (map (take (ARGSIZE - 1)) (take MAXARG ss)))"
    by (simp add: arg_bytes_def [abs_def] o_def)
  have nul: "0 \<notin> set s" if "s \<in> set (map (take (ARGSIZE - 1)) (take MAXARG ss))" for s
  proof -
    obtain u where u: "u \<in> set ss" "s = take (ARGSIZE - 1) u" using \<open>s \<in> _\<close> by (auto dest: in_set_takeD)
    then have "0 \<notin> set u" using assms(2) by (force simp: argv_at_def holds_user_str_def in_set_conv_nth)
    then show ?thesis using u by (auto dest: in_set_takeD)
  qed
  have "0 < length ?c" using assms(3) by (cases ss) (simp_all add: arg_bytes_def)
  moreover have "length (take (unat off) a) = unat off" using c(1,2) by metis
  ultimately have off: "0 < unat off" "unat off \<le> length a" using c(2) by simp_all
  have d: "drop 0 a = concat (map (\<lambda>s. s @ [0]) (map (take (ARGSIZE - 1)) (take MAXARG ss))) @ drop (unat off) a"
    using c(1) pieces by (metis append_take_drop_id drop0)
  have "split_loop a [0..<unat off] 0 [] = filter (\<lambda>s. s \<noteq> []) (map (take (ARGSIZE - 1)) (take MAXARG ss))"
    using split_loop_pieces [OF nul d] c(2) pieces by simp
  then have "splitArgs a (uint off) = filter (\<lambda>s. s \<noteq> []) (map (take (ARGSIZE - 1)) (take MAXARG ss))"
    using splitArgs_all [OF off] by simp
  moreover have "ee_args ?e = a" "ee_args_size ?e = off" "ee_args_count ?e = count"
    unfolding exec_record_def loop by simp_all
  ultimately show "splitArgs (ee_args ?e) (uint (ee_args_size ?e)) =
      filter (\<lambda>s. s \<noteq> []) (map (take (ARGSIZE - 1)) (take MAXARG ss))"
    "unat (ee_args_count ?e) = min MAXARG (length ss)"
    using c(3) by simp_all
qed

text \<open>
  C22: What the agent reads back from a record are the program's arguments:
  the first eight, each cut to 127 bytes, without the empty ones.
\<close>

theorem handle_execve_args_round_trip:
  assumes "exec_st_ok M st" and "exec_event_ok ev" and "argv_at env (args ! 1) ss" and "ss \<noteq> []"
  shows "\<exists>e. events (snd (handle_execve env M (Some ev) st args)) = events st @ [e] \<and>
     splitArgs (ee_args e) (uint (ee_args_size e)) =
       filter (\<lambda>s. s \<noteq> []) (map (take (ARGSIZE - 1)) (take MAXARG ss)) \<and>
     unat (ee_args_count e) = min MAXARG (length ss)"
  using exec_record_args [OF assms(2-4)] by (auto simp: handle_execve_Some [OF assms(1)])

text \<open>
  C35: With an empty argument vector the record's argument bytes are whatever
  the ring buffer memory held before, its size field is 0, and the agent then
  reads the whole stale buffer: it reports arguments of earlier records.
\<close>

theorem handle_execve_stale_args:
  assumes "exec_st_ok M st" and "argv_at env (args ! 1) []"
  shows "\<exists>e. events (snd (handle_execve env M (Some ev) st args)) = events st @ [e] \<and>
     ee_args_size e = 0 \<and> ee_args e = ee_args ev \<and>
     splitArgs (ee_args e) (uint (ee_args_size e)) = splitArgs (ee_args ev) (int (length (ee_args ev)))"
proof -
  have "args_loop env (args ! 1) [0..<MAXARG] (ee_args ev, 0, 0, 0) = (ee_args ev, 0, 0, 0)"
    using assms(2) by (simp add: argv_at_def upt_conv_Cons)
  then have "ee_args (exec_record env M st args ev) = ee_args ev"
    "ee_args_size (exec_record env M st args ev) = 0"
    unfolding exec_record_def by simp_all
  then show ?thesis
    by (intro exI [of _ "exec_record env M st args ev"])
      (simp add: handle_execve_Some [OF assms(1)] splitArgs_def)
qed

text \<open>
  Parent resolution. After a process has executed a file and the cache
  accepted its name, a record of a child of that process carries that name
  as its parent's image.
\<close>

lemma handle_execve_parent_image:
  assumes "bpf_map M" and "exec_st_ok M st" and "exec_st_ok M st'"
    and "handle_execve env M (Some ev) st args = (0, st')"
    and "fst (map_update_elem M (pid_image_cache st) (exec_pid env)
           (ee_filename (exec_record env M st args ev)) BPF_ANY) = 0"
    and "exec_ppid env' = exec_pid env"
  shows "ee_parent_filename (last (events (snd (handle_execve env' M (Some ev') st' args')))) =
     ee_filename (last (events st'))"
proof -
  let ?f = "ee_filename (exec_record env M st args ev)"
  have st': "pid_image_cache st' = snd (map_update_elem M (pid_image_cache st) (exec_pid env) ?f BPF_ANY)"
    "events st' = events st @ [exec_record env M st args ev]"
    using assms(4) by (auto simp: handle_execve_Some [OF assms(2)])
  then have "map_lookup_elem M (pid_image_cache st') (exec_ppid env') = Some ?f"
    using bpf_map.update_key [OF assms(1)] assms(5,6) by (metis prod.collapse)
  then have "ee_parent_filename (exec_record env' M st' args' ev') = ?f"
    by (simp add: exec_record_def split: prod.split)
  then show ?thesis using st' by (simp add: handle_execve_Some [OF assms(3)])
qed

section \<open>A concrete call\<close>

text \<open>
  Process 9 executes \<open>/a\<close> with the arguments \<open>a\<close> and \<open>-x\<close>; the ring buffer
  memory holds old bytes.
\<close>

definition sample_user :: "(u64 \<times> bytes) list" where
  "sample_user =
     [(100, le_bytes 8 200), (108, le_bytes 8 208), (116, le_bytes 8 0),
      (200, str ''a'' @ [0]), (208, str ''-x'' @ [0]), (300, str ''/a'' @ [0])]"

definition sample_exec_event :: exec_event where
  "sample_exec_event =
     \<lparr>ee_timestamp_ns = 0, ee_pid = 0, ee_ppid = 0, ee_uid = 0, ee_gid = 0,
      ee_comm = replicate 16 1, ee_filename = replicate 256 1, ee_parent_filename = replicate 256 1,
      ee_args = replicate 1024 1, ee_args_size = 0, ee_args_count = 0, ee_args_truncated = 0\<rparr>"

definition sample_exec_st :: "(u32 \<times> bytes) list exec_st" where
  "sample_exec_st = \<lparr>events = [], pid_image_cache = [], scratch_buf = (\<lambda>_. [replicate 256 0])\<rparr>"

abbreviation cache_ops :: "(u32, bytes, (u32 \<times> bytes) list) map_ops" where
  "cache_ops \<equiv> lru_ops 10240"

lemma sample_exec_ok: "exec_st_ok cache_ops sample_exec_st" "exec_event_ok sample_exec_event"
  by (simp_all add: exec_st_ok_def sample_exec_st_def lru_ops_def exec_event_ok_def sample_exec_event_def)

lemma sample_holds:
  "holds_user_str (sample_env sample_user pt ug) 200 (str ''a'')"
  "holds_user_str (sample_env sample_user pt ug) 208 (str ''-x'')"
  by (simp_all add: holds_user_str_def sample_env_def cell_env_def cell_read_str_def sample_user_def
      str_def chr_def cstr_def)

lemma all_less_two: "(\<forall>i < Suc (Suc 0). P i) \<longleftrightarrow> P 0 \<and> P (Suc 0)"
  by (auto simp: less_Suc_eq)

lemma sample_argv: "argv_at (sample_env sample_user pt ug) 100 [str ''a'', str ''-x'']"
proof -
  have "le_word (snd (probe_read_user (sample_env sample_user pt ug) 100 (replicate 8 0))) = (200 :: u64)"
    "le_word (snd (probe_read_user (sample_env sample_user pt ug) 108 (replicate 8 0))) = (208 :: u64)"
    "le_word (snd (probe_read_user (sample_env sample_user pt ug) 116 (replicate 8 0))) = (0 :: u64)"
    by (simp_all add: sample_env_def cell_env_def cell_read_def sample_user_def le_word_bytes)
  then show ?thesis
    using sample_holds [of pt ug] by (simp add: argv_at_def all_less_two)
qed

lemma sample_exec_events [simp]: "events sample_exec_st = []"
  by (simp add: sample_exec_st_def)

lemma sample_ppid: "exec_ppid (sample_env um pt ug) = 9"
  by (simp add: sample_defs)

abbreviation sample_exec_env :: "u64 \<Rightarrow> bpf_env" where
  "sample_exec_env pid \<equiv> sample_env sample_user (push_bit 32 pid) 0"

theorem handle_execve_args_round_trip_witness:
  "\<exists>e. events (snd (handle_execve (sample_exec_env 9) cache_ops
       (Some sample_exec_event) sample_exec_st [300, 100])) = [e] \<and>
     splitArgs (ee_args e) (uint (ee_args_size e)) = [str ''a'', str ''-x'']"
proof -
  have "argv_at (sample_exec_env 9) ([300, 100] ! 1) [str ''a'', str ''-x'']"
    using sample_argv by simp
  note w = handle_execve_args_round_trip [OF sample_exec_ok this]
  have "filter (\<lambda>s. s \<noteq> []) (map (take (ARGSIZE - 1)) (take MAXARG [str ''a'', str ''-x''])) =
      [str ''a'', str ''-x'']" by (simp add: str_def)
  then show ?thesis using w by (metis append_Nil list.distinct(1) sample_exec_events)
qed

theorem handle_execve_record_ok_witness:
  "\<exists>e. events (snd (handle_execve (sample_exec_env 9) cache_ops
       (Some sample_exec_event) sample_exec_st [300, 100])) = [e] \<and> ee_args_truncated e = 0"
  using handle_execve_record_ok [OF sample_helpers lru.bpf_map_axioms sample_exec_ok,
      of sample_user "push_bit 32 9" 0 "[300, 100]"]
  by (metis append_Nil sample_exec_events)

theorem handle_execve_stale_args_witness:
  "\<exists>e. events (snd (handle_execve (sample_exec_env 9) cache_ops
       (Some (sample_exec_event\<lparr>ee_args := str ''old'' @ replicate 1021 0\<rparr>)) sample_exec_st [300, 116])) = [e] \<and>
     ee_args e = str ''old'' @ replicate 1021 0"
proof -
  have "argv_at (sample_exec_env 9) ([300, 116] ! 1) []"
    by (simp add: argv_at_def sample_env_def cell_env_def cell_read_def sample_user_def le_word_bytes)
  note w = handle_execve_stale_args [OF sample_exec_ok(1) this,
      of "sample_exec_event\<lparr>ee_args := str ''old'' @ replicate 1021 0\<rparr>"]
  then show ?thesis by (metis append_Nil sample_exec_events exec_event.select_convs(9) exec_event.update_convs(9) exec_event.surjective)
qed

lemma handle_execve_parent_image_witness:
  "ee_parent_filename (last (events (snd (handle_execve (sample_exec_env 10) cache_ops
       (Some sample_exec_event)
       (snd (handle_execve (sample_exec_env 9) cache_ops (Some sample_exec_event) sample_exec_st [300, 100]))
       [300, 116])))) =
     ee_filename (last (events
       (snd (handle_execve (sample_exec_env 9) cache_ops (Some sample_exec_event) sample_exec_st [300, 100]))))"
proof -
  let ?r = "handle_execve (sample_exec_env 9) cache_ops (Some sample_exec_event) sample_exec_st [300, 100]"
  have ok: "exec_st_ok cache_ops (snd ?r)"
    by (rule handle_execve_st_ok [OF sample_helpers lru.bpf_map_axioms sample_exec_ok])
  have "fst ?r = 0" by (simp only: handle_execve_Some [OF sample_exec_ok(1)] fst_conv)
  then have r: "?r = (0, snd ?r)" by (metis prod.collapse)
  have u: "fst (map_update_elem cache_ops m k v BPF_ANY) = 0" for m k v
    by (simp add: lru_ops_def)
  have "exec_pid (sample_exec_env 9) = 9"
    by (simp add: push_bit_eq_mult)
  then have "exec_ppid (sample_exec_env 10) = exec_pid (sample_exec_env 9)"
    by (simp only: sample_ppid)
  from handle_execve_parent_image [OF lru.bpf_map_axioms sample_exec_ok(1) ok r u this] show ?thesis .
qed

end
