(* ===== verification/Netwatch.thy ===== *)
theory Netwatch
  imports Sample Bpf_Endian
begin

text \<open>
  \<open>netwatch.bpf.c\<close>: one record per \<open>connect\<close>, \<open>bind\<close>, \<open>accept4\<close> and per
  \<open>sendto\<close> to port 53. Addresses come from the caller's \<open>sockaddr_in\<close>, the
  queried name from the packet the caller is about to send. The program keeps
  no state but the ring buffer; a handler's \<open>slot\<close> is the buffer's answer to
  the reservation.
\<close>

section \<open>Data\<close>

definition TASK_COMM_LEN :: nat where "TASK_COMM_LEN = 16"
definition MAX_HOST_LEN :: nat where "MAX_HOST_LEN = 128"
definition AF_INET :: u16 where "AF_INET = 2"
definition AF_INET6 :: u16 where "AF_INET6 = 10"
definition SYSCALL_CONNECT :: u8 where "SYSCALL_CONNECT = 1"
definition SYSCALL_BIND :: u8 where "SYSCALL_BIND = 2"
definition SYSCALL_ACCEPT :: u8 where "SYSCALL_ACCEPT = 3"
definition SYSCALL_DNS :: u8 where "SYSCALL_DNS = 4"

record net_event =
  ne_timestamp_ns :: u64
  ne_pid :: u32
  ne_tgid :: u32
  ne_uid :: u32
  ne_gid :: u32
  ne_syscall_kind :: u8
  ne_family :: u8
  ne_proto :: u8
  ne_pad :: u8
  ne_local_port :: u16
  ne_remote_port :: u16
  ne_saddr_v4 :: u32
  ne_daddr_v4 :: u32
  ne_comm :: bytes
  ne_host :: bytes

definition net_event_ok :: "net_event \<Rightarrow> bool" where
  "net_event_ok ev \<longleftrightarrow> length (ne_comm ev) = TASK_COMM_LEN \<and> length (ne_host ev) = MAX_HOST_LEN"

text \<open>The 16 bytes of a \<open>struct sockaddr_in\<close> and the fields the program reads.\<close>

definition sin_family :: "bytes \<Rightarrow> u16" where "sin_family sa = le_word (take 2 sa)"
definition sin_port :: "bytes \<Rightarrow> u16" where "sin_port sa = le_word (take 2 (drop 2 sa))"
definition s_addr :: "bytes \<Rightarrow> u32" where "s_addr sa = le_word (take 4 (drop 4 sa))"

section \<open>Operations\<close>

definition fill_identity :: "'a bpf_env_scheme \<Rightarrow> net_event \<Rightarrow> net_event" where
  "fill_identity env ev =
     (let pid_tgid = current_pid_tgid env;
          uid_gid = current_uid_gid env
      in ev\<lparr>ne_timestamp_ns := ktime_ns env, ne_tgid := ucast (drop_bit 32 pid_tgid),
            ne_pid := ucast pid_tgid, ne_uid := ucast uid_gid,
            ne_gid := ucast (drop_bit 32 uid_gid),
            ne_comm := snd (current_comm env (ne_comm ev))\<rparr>)"

text \<open>The result is the C \<open>int\<close> with the record as the function leaves it.\<close>

definition read_sockaddr :: "'a bpf_env_scheme \<Rightarrow> net_event \<Rightarrow> u64 \<Rightarrow> int \<times> net_event" where
  "read_sockaddr env ev uaddr =
     (if uaddr = 0 then (-1, ev)
      else let (r, sa) = probe_read_user env uaddr (replicate 16 0) in
        if r < 0 then (-1, ev)
        else if sin_family sa \<noteq> AF_INET then (-1, ev)
        else (0, ev\<lparr>ne_family := ucast (sin_family sa),
                    ne_remote_port := bpf_ntohs LITTLE_ENDIAN False (sin_port sa),
                    ne_daddr_v4 := s_addr sa\<rparr>))"

definition handle_connect ::
  "'a bpf_env_scheme \<Rightarrow> net_event option \<Rightarrow> net_event list \<Rightarrow> u64 list \<Rightarrow> int \<times> net_event list" where
  "handle_connect env slot net_events args =
     (case slot of None \<Rightarrow> (0, net_events)
      | Some ev \<Rightarrow>
        let ev = (fill_identity env ev)\<lparr>ne_syscall_kind := SYSCALL_CONNECT, ne_proto := 6\<rparr>;
            (r, ev) = read_sockaddr env ev (args ! 1)
        in if r < 0 then (0, net_events) else (0, net_events @ [ev]))"

definition handle_bind ::
  "'a bpf_env_scheme \<Rightarrow> net_event option \<Rightarrow> net_event list \<Rightarrow> u64 list \<Rightarrow> int \<times> net_event list" where
  "handle_bind env slot net_events args =
     (case slot of None \<Rightarrow> (0, net_events)
      | Some ev \<Rightarrow>
        let ev = (fill_identity env ev)\<lparr>ne_syscall_kind := SYSCALL_BIND\<rparr>;
            (r, ev) = read_sockaddr env ev (args ! 1)
        in if r < 0 then (0, net_events)
           else (0, net_events @ [ev\<lparr>ne_local_port := ne_remote_port ev, ne_remote_port := 0\<rparr>]))"

definition handle_accept ::
  "'a bpf_env_scheme \<Rightarrow> net_event option \<Rightarrow> net_event list \<Rightarrow> u64 list \<Rightarrow> int \<times> net_event list" where
  "handle_accept env slot net_events args =
     (case slot of None \<Rightarrow> (0, net_events)
      | Some ev \<Rightarrow>
        let ev = (fill_identity env ev)\<lparr>ne_syscall_kind := SYSCALL_ACCEPT, ne_proto := 6\<rparr>;
            (r, ev) = read_sockaddr env ev (args ! 1)
        in if r < 0 then (0, net_events) else (0, net_events @ [ev]))"

text \<open>The loop over the bytes of \<open>scratch\<close>; the pair is \<open>ev->host\<close> and \<open>out\<close>.\<close>

fun host_loop :: "bytes \<Rightarrow> bytes \<times> u32 \<Rightarrow> bytes \<times> u32" where
  "host_loop [] s = s"
| "host_loop (c # cs) (host, out) =
     (if c = 0 then (host, out)
      else if c < 32 \<or> 126 < c then
        (if 0 < out \<and> out < word_of_nat (MAX_HOST_LEN - 1)
         then host_loop cs (host[unat out := chr CHR ''.''], out + 1)
         else host_loop cs (host, out))
      else if out < word_of_nat (MAX_HOST_LEN - 1)
        then host_loop cs (host[unat out := c], out + 1)
        else host_loop cs (host, out))"

definition handle_sendto ::
  "'a bpf_env_scheme \<Rightarrow> net_event option \<Rightarrow> net_event list \<Rightarrow> u64 list \<Rightarrow> int \<times> net_event list" where
  "handle_sendto env slot net_events args =
     (let ubuf = args ! 1;
          len = (ucast (args ! 2) :: u32)
      in if ubuf = 0 \<or> args ! 4 = 0 then (0, net_events)
      else let (r, sa) = probe_read_user env (args ! 4) (replicate 16 0) in
        if r < 0 then (0, net_events)
        else if sin_family sa \<noteq> AF_INET \<or> bpf_ntohs LITTLE_ENDIAN False (sin_port sa) \<noteq> 53
        then (0, net_events)
        else case slot of None \<Rightarrow> (0, net_events)
          | Some ev \<Rightarrow>
            let ev = (fill_identity env ev)\<lparr>ne_syscall_kind := SYSCALL_DNS, ne_proto := 17,
                       ne_family := ucast (sin_family sa), ne_remote_port := 53,
                       ne_daddr_v4 := s_addr sa\<rparr>;
                ev = (if 12 < len then
                        (let (q, scratch) = probe_read_user env (ubuf + 12) (replicate 64 0) in
                         if q = 0
                         then ev\<lparr>ne_host := fst (host_loop (map ((!) scratch) [0..<64]) (ne_host ev, 0))\<rparr>
                         else ev)
                      else ev)
            in (0, net_events @ [ev]))"

section \<open>What the loop writes\<close>

text \<open>
  The bytes the loop shows for a packet: \<open>started\<close> says that something has
  been written already.
\<close>

fun shown_text :: "bool \<Rightarrow> bytes \<Rightarrow> bytes" where
  "shown_text started [] = []"
| "shown_text started (c # cs) =
     (if c = 0 then []
      else if c < 32 \<or> 126 < c
        then (if started then chr CHR ''.'' # shown_text True cs else shown_text False cs)
        else c # shown_text True cs)"

lemma length_shown_text: "length (shown_text b cs) \<le> length cs"
  by (induction b cs rule: shown_text.induct) auto

definition printable :: "u8 \<Rightarrow> bool" where
  "printable c \<longleftrightarrow> 32 \<le> c \<and> c \<le> 126"

lemma printable_iff: "printable c \<longleftrightarrow> \<not> (c < 32 \<or> 126 < c)"
  by (simp add: printable_def not_less)

lemma printable_dot: "printable (chr CHR ''.'')"
  by (simp add: printable_def chr_def)

lemma shown_text_printable: "\<forall>c \<in> set (shown_text b cs). printable c"
proof (induction b cs rule: shown_text.induct)
  case (2 b c cs)
  then show ?case
    by (cases "c = 0"; cases "c < 32 \<or> 126 < c"; cases b) (simp_all add: printable_dot, simp_all add: printable_iff)
qed simp

lemma shown_text_no_nul: "0 \<notin> set (shown_text b cs)"
  using shown_text_printable [of b cs] by (auto simp: printable_def)

lemma take_blit_update:
  "p < length d \<Longrightarrow> blit (Suc p) (d[p := x]) s = blit p d (x # s)"
  by (simp add: blit_def take_Suc_conv_app_nth)

lemma host_loop_writes:
  assumes "unat out + length cs \<le> MAX_HOST_LEN - 1" and "length host = MAX_HOST_LEN"
  shows "fst (host_loop cs (host, out)) = blit (unat out) host (shown_text (0 < out) cs)"
  using assms
proof (induction cs arbitrary: host out)
  case (Cons c cs)
  have lt: "unat out < 127" using Cons.prems(1) by (simp add: MAX_HOST_LEN_def)
  then have o: "out < word_of_nat (MAX_HOST_LEN - 1)" "unat (out + 1) = Suc (unat out)"
    by (simp_all add: word_less_nat_alt MAX_HOST_LEN_def unat_word_ariths)
  then have pos: "0 < out + 1" by (simp add: word_less_nat_alt)
  have step: "fst (host_loop cs (host[unat out := x], out + 1)) = blit (unat out) host (x # shown_text True cs)" for x
    using Cons.IH [of "out + 1" "host[unat out := x]"] Cons.prems lt o pos
    by (simp add: take_blit_update MAX_HOST_LEN_def)
  show ?case
    using Cons.IH [of out host] Cons.prems step o(1) by (auto simp: blit_def)
qed (simp add: blit_def)

section \<open>What the handlers submit\<close>

text \<open>Memory that holds given bytes, seen through \<open>bpf_probe_read_user\<close>.\<close>

definition holds_user :: "'a bpf_env_scheme \<Rightarrow> u64 \<Rightarrow> bytes \<Rightarrow> bool" where
  "holds_user env a bs \<longleftrightarrow>
     (\<forall>d. length d \<le> length bs \<longrightarrow> probe_read_user env a d = (0, take (length d) bs))"

text \<open>A \<open>sockaddr_in\<close> as a caller writes it: the port high byte first.\<close>

definition sockaddr_in :: "u8 \<Rightarrow> u8 \<Rightarrow> bytes \<Rightarrow> bytes \<Rightarrow> bytes" where
  "sockaddr_in hi lo addr rest = [2, 0, hi, lo] @ addr @ rest"

lemma sockaddr_in_fields:
  assumes "length addr = 4" and "length rest = 8"
  shows "length (sockaddr_in hi lo addr rest) = 16"
    and "sin_family (sockaddr_in hi lo addr rest) = AF_INET"
    and "bpf_ntohs LITTLE_ENDIAN c (sin_port (sockaddr_in hi lo addr rest)) =
      word_of_nat (256 * unat hi + unat lo)"
    and "s_addr (sockaddr_in hi lo addr rest) = le_word addr"
  using assms
  by (simp_all add: sockaddr_in_def sin_family_def AF_INET_def sin_port_def s_addr_def
      numeral_2_eq_2 bpf_ntohs_network_bytes) (simp add: le_word_def)

lemma read_sockaddr_in:
  assumes "holds_user env a (sockaddr_in hi lo addr rest)" and "a \<noteq> 0"
    and "length addr = 4" and "length rest = 8"
  shows "read_sockaddr env ev a =
    (0, ev\<lparr>ne_family := 2, ne_remote_port := word_of_nat (256 * unat hi + unat lo),
           ne_daddr_v4 := le_word addr\<rparr>)"
proof -
  have "probe_read_user env a (replicate 16 0) = (0, sockaddr_in hi lo addr rest)"
    using assms(1) sockaddr_in_fields(1) [OF assms(3,4)] by (simp add: holds_user_def)
  then show ?thesis
    using assms(2) sockaddr_in_fields [OF assms(3,4)] by (simp add: read_sockaddr_def AF_INET_def)
qed

lemma read_sockaddr_outcome:
  "read_sockaddr env ev a = (-1, ev) \<or>
   (\<exists>f p d. read_sockaddr env ev a =
      (0, ev\<lparr>ne_family := f, ne_remote_port := p, ne_daddr_v4 := d\<rparr>))"
  by (auto simp: read_sockaddr_def split: prod.split)

definition identity_of :: "'a bpf_env_scheme \<Rightarrow> net_event \<Rightarrow> bool" where
  "identity_of env e \<longleftrightarrow>
     ne_timestamp_ns e = ktime_ns env \<and>
     ne_tgid e = ucast (drop_bit 32 (current_pid_tgid env)) \<and> ne_pid e = ucast (current_pid_tgid env) \<and>
     ne_uid e = ucast (current_uid_gid env) \<and> ne_gid e = ucast (drop_bit 32 (current_uid_gid env))"

text \<open>
  C36: A call with an IPv4 address yields one record with the caller's
  identity, the port in host order and the address bytes as the caller wrote
  them. A \<open>bind\<close> reports the port as the local one, the others as the remote one. The fields no handler sets
  (the source address, the host, the protocol of a \<open>bind\<close>, the local port of the
  others) keep what the reserved memory held.
\<close>

theorem handlers_report_address:
  assumes "holds_user env (args ! 1) (sockaddr_in hi lo addr rest)" and "args ! 1 \<noteq> 0"
    and "length addr = 4" and "length rest = 8"
  shows "\<exists>c b a. handle_connect env (Some ev) es args = (0, es @ [c]) \<and>
      handle_bind env (Some ev) es args = (0, es @ [b]) \<and>
      handle_accept env (Some ev) es args = (0, es @ [a]) \<and>
      (ne_syscall_kind c, ne_syscall_kind b, ne_syscall_kind a) = (SYSCALL_CONNECT, SYSCALL_BIND, SYSCALL_ACCEPT) \<and>
      (\<forall>e \<in> {c, b, a}. identity_of env e \<and> ne_family e = 2 \<and> ne_daddr_v4 e = le_word addr) \<and>
      ne_remote_port c = word_of_nat (256 * unat hi + unat lo) \<and> ne_proto c = 6 \<and>
      ne_local_port b = word_of_nat (256 * unat hi + unat lo) \<and> ne_remote_port b = 0 \<and>
      ne_remote_port a = word_of_nat (256 * unat hi + unat lo) \<and> ne_proto a = 6 \<and>
      (\<forall>e \<in> {c, b, a}. ne_saddr_v4 e = ne_saddr_v4 ev \<and> ne_host e = ne_host ev) \<and>
      ne_local_port c = ne_local_port ev \<and> ne_local_port a = ne_local_port ev \<and> ne_proto b = ne_proto ev"
  by (simp add: handle_connect_def handle_bind_def handle_accept_def read_sockaddr_in [OF assms]
      fill_identity_def identity_of_def Let_def del: One_nat_def)

text \<open>
  Whatever the arguments, a handler returns 0 and adds at most one
  record; it adds one only when the buffer had room and the address could be
  read and is IPv4. Everything else leaves the buffer as it was.
\<close>

lemma handlers_only_inet:
  "(\<forall>h \<in> {handle_connect, handle_bind, handle_accept}.
      fst (h env slot es args) = 0 \<and>
      (snd (h env slot es args) = es \<or>
       (\<exists>e sa. snd (h env slot es args) = es @ [e] \<and> slot \<noteq> None \<and> args ! 1 \<noteq> 0 \<and>
          sa = snd (probe_read_user env (args ! 1) (replicate 16 0)) \<and> sin_family sa = AF_INET \<and>
          ne_family e = 2 \<and> ne_daddr_v4 e = s_addr sa))) \<and>
   fst (handle_sendto env slot es args) = 0 \<and>
   (snd (handle_sendto env slot es args) = es \<or>
      (\<exists>e sa. snd (handle_sendto env slot es args) = es @ [e] \<and> slot \<noteq> None \<and> args ! 4 \<noteq> 0 \<and>
         sa = snd (probe_read_user env (args ! 4) (replicate 16 0)) \<and> sin_family sa = AF_INET \<and>
         bpf_ntohs LITTLE_ENDIAN False (sin_port sa) = 53 \<and>
         ne_syscall_kind e = SYSCALL_DNS \<and> ne_family e = 2 \<and> ne_remote_port e = 53 \<and> ne_daddr_v4 e = s_addr sa))"
  by (auto simp: handle_connect_def handle_bind_def handle_accept_def handle_sendto_def read_sockaddr_def
      AF_INET_def Let_def simp del: One_nat_def split: option.split prod.split)

section \<open>The name of a query\<close>

text \<open>
  A question name on the wire: each label after its length, then 0. What the
  program shows of it: the length byte is a dot from the second label on
  while it is below 32, and a character of its own from 32 on.
\<close>

definition wire_name :: "bytes list \<Rightarrow> bytes" where
  "wire_name ls = concat (map (\<lambda>l. word_of_nat (length l) # l) ls) @ [0]"

fun shown_labels :: "bool \<Rightarrow> bytes list \<Rightarrow> bytes" where
  "shown_labels started [] = []"
| "shown_labels started (l # ls) =
     (if length l < 32 then (if started then [chr CHR ''.''] else []) else [word_of_nat (length l)])
     @ l @ shown_labels True ls"

fun dotted :: "bytes list \<Rightarrow> bytes" where
  "dotted [] = []"
| "dotted [l] = l"
| "dotted (l # ls) = l @ chr CHR ''.'' # dotted ls"

definition label_ok :: "bytes \<Rightarrow> bool" where
  "label_ok l \<longleftrightarrow> l \<noteq> [] \<and> length l \<le> 63 \<and> (\<forall>c \<in> set l. printable c)"

lemma shown_text_printable_append:
  "\<forall>c \<in> set l. printable c \<Longrightarrow> l \<noteq> [] \<Longrightarrow> shown_text b (l @ cs) = l @ shown_text True cs"
proof (induction l arbitrary: b)
  case (Cons c l)
  have "c \<noteq> 0" "\<not> (c < 32 \<or> 126 < c)" using Cons.prems(1) by (auto simp: printable_def not_less)
  then show ?case using Cons by (cases "l = []") auto
qed simp

lemma shown_text_wire:
  "\<forall>l \<in> set ls. label_ok l \<Longrightarrow> shown_text b (wire_name ls @ rest) = shown_labels b ls"
proof (induction ls arbitrary: b)
  case (Cons l ls)
  have l: "l \<noteq> []" "length l \<le> 63" "\<forall>c \<in> set l. printable c" "0 < length l"
    using Cons.prems by (auto simp: label_ok_def)
  let ?n = "word_of_nat (length l) :: u8"
  have u: "unat ?n = length l" using l(2) by (simp add: unat_of_nat)
  have n: "?n \<noteq> 0" "?n < 32 \<longleftrightarrow> length l < 32" "\<not> 126 < ?n"
    using l(2,4) u by (auto simp: word_less_nat_alt simp flip: unat_eq_zero)
  have w: "wire_name (l # ls) @ rest = ?n # l @ (wire_name ls @ rest)"
    by (simp add: wire_name_def)
  have "shown_text b (l @ (wire_name ls @ rest)) = l @ shown_labels True ls" for b
    using shown_text_printable_append [OF l(3,1)] Cons by simp
  then show ?case unfolding w using n by auto
qed (simp add: wire_name_def)

lemma shown_labels_dotted:
  assumes "\<forall>l \<in> set ls. length l < 32"
  shows "shown_labels False ls = dotted ls"
proof -
  have "shown_labels True ls = (if ls = [] then [] else chr CHR ''.'' # dotted ls)"
    using assms by (induction ls rule: dotted.induct) auto
  then show ?thesis using assms by (cases ls rule: dotted.cases) auto
qed

lemma wire_of_take:
  "length (wire_name ls) \<le> 64 \<Longrightarrow> length bs \<ge> 64 \<Longrightarrow> take (length (wire_name ls)) bs = wire_name ls \<Longrightarrow>
     \<exists>rest. take 64 bs = wire_name ls @ rest"
proof (intro exI [of _ "drop (length (wire_name ls)) (take 64 bs)"])
  assume a: "length (wire_name ls) \<le> 64" "take (length (wire_name ls)) bs = wire_name ls"
  then have "take (length (wire_name ls)) (take 64 bs) = wire_name ls" by (simp add: min_absorb1)
  then show "take 64 bs = wire_name ls @ drop (length (wire_name ls)) (take 64 bs)"
    by (metis append_take_drop_id)
qed

text \<open>A \<open>sendto\<close> of a packet to port 53 at some IPv4 address.\<close>

definition dns_call :: "'a bpf_env_scheme \<Rightarrow> u64 list \<Rightarrow> bytes \<Rightarrow> bool" where
  "dns_call env args body \<longleftrightarrow>
     args ! 1 \<noteq> 0 \<and> args ! 4 \<noteq> 0 \<and> (12 :: u32) < ucast (args ! 2) \<and>
     (\<exists>addr rest. length addr = 4 \<and> length rest = 8 \<and>
        holds_user env (args ! 4) (sockaddr_in 0 53 addr rest)) \<and>
     holds_user env (args ! 1 + 12) body \<and> 64 \<le> length body"

lemma handle_sendto_host:
  assumes "dns_call env args body" and "net_event_ok ev"
  shows "\<exists>e. handle_sendto env (Some ev) es args = (0, es @ [e]) \<and> ne_syscall_kind e = SYSCALL_DNS \<and>
    identity_of env e \<and> ne_host e = blit 0 (ne_host ev) (shown_text False (take 64 body))"
proof -
  obtain addr rest where sa: "length addr = 4" "length rest = 8"
      "holds_user env (args ! 4) (sockaddr_in 0 53 addr rest)"
    and c: "args ! 1 \<noteq> 0" "args ! 4 \<noteq> 0" "(12 :: u32) < ucast (args ! 2)"
      "holds_user env (args ! 1 + 12) body" "64 \<le> length body"
    using assms(1) unfolding dns_call_def by blast
  have r: "probe_read_user env (args ! 4) (replicate 16 0) = (0, sockaddr_in 0 53 addr rest)"
    using sa by (simp add: holds_user_def sockaddr_in_def)
  have q: "probe_read_user env (args ! 1 + 12) (replicate 64 0) = (0, take 64 body)"
    using c(4,5) by (simp add: holds_user_def)
  have "map ((!) (take 64 body)) [0..<64] = take 64 body"
    using c(5) by (metis length_take map_nth min.absorb2)
  moreover have "fst (host_loop (take 64 body) (ne_host ev, 0)) = blit 0 (ne_host ev) (shown_text False (take 64 body))"
    using host_loop_writes [of 0 "take 64 body" "ne_host ev"] assms(2) c(5)
    by (simp add: MAX_HOST_LEN_def net_event_ok_def)
  ultimately show ?thesis
    using c(1,2,3) r q sockaddr_in_fields [OF sa(1,2)]
    by (simp add: handle_sendto_def Let_def fill_identity_def identity_of_def del: One_nat_def)
qed

text \<open>
  C25: A query for a name all of whose labels are shorter than 32 bytes and whose
  wire form takes at most 64 bytes: the record's host begins with the dotted name. What the agent reads
  on, up to the first NUL, is what the reserved ring buffer memory held.
\<close>

theorem dns_query_name:
  assumes "dns_call env args body" and "net_event_ok ev"
    and "\<forall>l \<in> set ls. label_ok l \<and> length l < 32"
    and "take (length (wire_name ls)) body = wire_name ls" and "length (wire_name ls) \<le> 64"
  shows "\<exists>e. handle_sendto env (Some ev) es args = (0, es @ [e]) \<and> ne_syscall_kind e = SYSCALL_DNS \<and>
    identity_of env e \<and>
    cstr (ne_host e) = dotted ls @ cstr (drop (length (dotted ls)) (ne_host ev))"
proof -
  have len: "64 \<le> length body" using assms(1) by (simp add: dns_call_def)
  obtain rest where "take 64 body = wire_name ls @ rest"
    using wire_of_take [OF assms(5) len assms(4)] by blast
  then have t: "shown_text False (take 64 body) = dotted ls"
    using shown_text_wire [of ls False rest] shown_labels_dotted [of ls] assms(3) by simp
  then have "0 \<notin> set (dotted ls)" using shown_text_no_nul by metis
  then have "cstr (blit 0 (ne_host ev) (dotted ls)) = dotted ls @ cstr (drop (length (dotted ls)) (ne_host ev))"
    by (auto simp: blit_0 cstr_def takeWhile_append)
  then show ?thesis using handle_sendto_host [OF assms(1,2), of es] unfolding t by metis
qed

text \<open>
  A length byte from 32 to 63 is itself printable, so the program shows
  it as a character: the name in the record of a query whose first label is
  that long starts with a character that is not part of the name.
\<close>

lemma dns_long_label_shown:
  assumes "dns_call env args body" and "net_event_ok ev"
    and "\<forall>m \<in> set (l # ls). label_ok m" and "32 \<le> length l"
    and "take (length (wire_name (l # ls))) body = wire_name (l # ls)"
    and "length (wire_name (l # ls)) \<le> 64"
  shows "\<exists>e. handle_sendto env (Some ev) es args = (0, es @ [e]) \<and>
    take (length l + 1) (ne_host e) = word_of_nat (length l) # l"
proof -
  have len: "64 \<le> length body" using assms(1) by (simp add: dns_call_def)
  obtain rest where "take 64 body = wire_name (l # ls) @ rest"
    using wire_of_take [OF assms(6) len assms(5)] by blast
  then have t: "shown_text False (take 64 body) = (word_of_nat (length l) # l) @ shown_labels True ls"
    using shown_text_wire [of "l # ls" False rest] assms(3,4) by simp
  have "take (length l + 1) (blit 0 d ((word_of_nat (length l) # l) @ s)) = word_of_nat (length l) # l" for d s
    by (simp add: blit_0)
  then show ?thesis using handle_sendto_host [OF assms(1,2), of es] unfolding t by metis
qed

text \<open>
  C37: Whatever a program sends, the records of all four handlers keep their
  sizes, and the bytes of \<open>host\<close> that differ from the reserved memory are
  printable characters among the first 64.
\<close>

theorem records_well_formed:
  assumes "bpf_helpers env" and "net_event_ok ev" and "\<forall>e \<in> set es. net_event_ok e"
  shows "(\<forall>h \<in> {handle_connect, handle_bind, handle_accept, handle_sendto}.
       \<forall>e \<in> set (snd (h env (Some ev) es args)). net_event_ok e) \<and>
    (\<exists>t. length t \<le> 64 \<and> (\<forall>c \<in> set t. printable c) \<and>
       (\<forall>h \<in> {handle_connect, handle_bind, handle_accept, handle_sendto}.
          h env (Some ev) es args = (0, es) \<or>
          (\<exists>e. h env (Some ev) es args = (0, es @ [e]) \<and> ne_host e \<in> {ne_host ev, blit 0 (ne_host ev) t})))"
proof -
  let ?s = "snd (probe_read_user env (args ! 1 + 12) (replicate 64 0))"
  let ?t = "shown_text False (map ((!) ?s) [0..<64])"
  have t: "length ?t \<le> 64" using length_shown_text [of False "map ((!) ?s) [0..<64]"] by simp
  have loop: "fst (host_loop (map ((!) ?s) [0..<64]) (ne_host ev, 0)) = blit 0 (ne_host ev) ?t"
    using host_loop_writes [of 0 "map ((!) ?s) [0..<64]" "ne_host ev"] assms(2)
    by (simp add: MAX_HOST_LEN_def net_event_ok_def)
  have id: "ne_host (fill_identity env ev) = ne_host ev" by (simp add: fill_identity_def Let_def)
  have comm: "length (ne_comm (fill_identity env ev)) = TASK_COMM_LEN"
    using bpf_helpers.comm_length [OF assms(1), of "ne_comm ev"] assms(2)
    by (simp add: fill_identity_def Let_def net_event_ok_def TASK_COMM_LEN_def del: length_greater_0_conv)
  have sendto: "handle_sendto env (Some ev) es args = (0, es) \<or>
      (\<exists>e. handle_sendto env (Some ev) es args = (0, es @ [e]) \<and> length (ne_comm e) = TASK_COMM_LEN \<and>
         ne_host e \<in> {ne_host ev, blit 0 (ne_host ev) ?t})"
  proof -
    obtain r sa where r: "probe_read_user env (args ! 4) (replicate 16 0) = (r, sa)" by fastforce
    obtain q scratch where q: "probe_read_user env (args ! 1 + 12) (replicate 64 0) = (q, scratch)"
      by fastforce
    show ?thesis using comm loop
      by (simp add: handle_sendto_def r q Let_def id del: One_nat_def)
  qed
  have keep: "h env (Some ev) es args = (0, es) \<or>
      (\<exists>e. h env (Some ev) es args = (0, es @ [e]) \<and> length (ne_comm e) = TASK_COMM_LEN \<and>
         ne_host e \<in> {ne_host ev, blit 0 (ne_host ev) ?t})"
    if h: "h \<in> {handle_connect, handle_bind, handle_accept, handle_sendto}" for h
  proof (cases "h = handle_sendto")
    case False
    let ?c = "(fill_identity env ev)\<lparr>ne_syscall_kind := SYSCALL_CONNECT, ne_proto := 6\<rparr>"
    let ?b = "(fill_identity env ev)\<lparr>ne_syscall_kind := SYSCALL_BIND\<rparr>"
    let ?a = "(fill_identity env ev)\<lparr>ne_syscall_kind := SYSCALL_ACCEPT, ne_proto := 6\<rparr>"
    from False h consider "h = handle_connect" | "h = handle_bind" | "h = handle_accept" by blast
    then show ?thesis using comm
        read_sockaddr_outcome [of env ?c "args ! 1"] read_sockaddr_outcome [of env ?b "args ! 1"]
        read_sockaddr_outcome [of env ?a "args ! 1"]
      by cases (auto simp: handle_connect_def handle_bind_def handle_accept_def id Let_def
          simp del: One_nat_def)
  qed (use sendto in simp)
  have "length (blit 0 (ne_host ev) ?t) = MAX_HOST_LEN"
    using t assms(2) by (simp add: MAX_HOST_LEN_def net_event_ok_def)
  then have "\<forall>e \<in> set (snd (h env (Some ev) es args)). net_event_ok e"
    if "h \<in> {handle_connect, handle_bind, handle_accept, handle_sendto}" for h
    using keep [OF that] assms(2,3) by (auto simp: net_event_ok_def)
  then show ?thesis
    using t keep shown_text_printable [of False "map ((!) ?s) [0..<64]"] by (intro conjI ballI exI [of _ ?t]) blast+
qed

section \<open>A concrete query\<close>

definition sample_packet :: bytes where
  "sample_packet = wire_name [str ''ab'', str ''c''] @ replicate 58 7"

definition sample_long_packet :: bytes where
  "sample_long_packet = wire_name [replicate 32 (chr CHR ''x'')] @ replicate 30 7"

definition sample_net_user :: "(u64 \<times> bytes) list" where
  "sample_net_user =
     [(64, sockaddr_in 0 53 [8, 8, 8, 8] (replicate 8 0)), (112, sample_packet), (212, sample_long_packet)]"

definition sample_net_event :: net_event where
  "sample_net_event =
     \<lparr>ne_timestamp_ns = 0, ne_pid = 0, ne_tgid = 0, ne_uid = 0, ne_gid = 0, ne_syscall_kind = 9,
      ne_family = 9, ne_proto = 9, ne_pad = 9, ne_local_port = 9, ne_remote_port = 9,
      ne_saddr_v4 = 9, ne_daddr_v4 = 9, ne_comm = replicate 16 9, ne_host = replicate 128 0\<rparr>"

lemma sample_net_ok: "net_event_ok sample_net_event"
  by (simp add: net_event_ok_def sample_net_event_def TASK_COMM_LEN_def MAX_HOST_LEN_def)

lemma sample_sockaddr: "holds_user (sample_env sample_net_user pt ug) 64 (sockaddr_in 0 53 [8, 8, 8, 8] (replicate 8 0))"
  by (simp add: holds_user_def sample_env_def cell_env_def cell_read_def sample_net_user_def)

lemma sample_dns_call:
  "dns_call (sample_env sample_net_user pt ug) [3, 100, 40, 0, 64, 16] sample_packet"
  "dns_call (sample_env sample_net_user pt ug) [3, 200, 70, 0, 64, 16] sample_long_packet"
proof -
  have "holds_user (sample_env sample_net_user pt ug) 112 sample_packet"
    "holds_user (sample_env sample_net_user pt ug) 212 sample_long_packet"
    by (simp_all add: holds_user_def sample_env_def cell_env_def cell_read_def sample_net_user_def)
  moreover have "64 \<le> length sample_packet" "64 \<le> length sample_long_packet"
    by (simp_all add: sample_packet_def sample_long_packet_def wire_name_def str_def)
  moreover have "\<exists>addr rest. length addr = 4 \<and> length rest = 8 \<and>
      holds_user (sample_env sample_net_user pt ug) 64 (sockaddr_in 0 53 addr rest)"
    using sample_sockaddr by (intro exI [of _ "[8, 8, 8, 8]"] exI [of _ "replicate 8 0"]) simp
  ultimately show "dns_call (sample_env sample_net_user pt ug) [3, 100, 40, 0, 64, 16] sample_packet"
    "dns_call (sample_env sample_net_user pt ug) [3, 200, 70, 0, 64, 16] sample_long_packet"
    by (simp_all add: dns_call_def)
qed

theorem handlers_report_address_witness:
  "\<exists>c. handle_connect (sample_env sample_net_user 0 0) (Some sample_net_event) [] [3, 64, 16] = (0, [c]) \<and>
     ne_remote_port c = 53"
  using handlers_report_address [of "sample_env sample_net_user 0 0" "[3, 64, 16]" 0 53 "[8, 8, 8, 8]"
      "replicate 8 0" sample_net_event "[]"] sample_sockaddr [of 0 0]
  by auto

lemma sample_labels_ok:
  "\<forall>l \<in> set [str ''ab'', str ''c'']. label_ok l \<and> length l < 32"
  "\<forall>l \<in> set [replicate 32 (chr CHR ''x'')]. label_ok l"
  by (simp_all add: label_ok_def str_def chr_def printable_def)

theorem dns_query_name_witness:
  "\<exists>e. handle_sendto (sample_env sample_net_user 0 0) (Some sample_net_event) [] [3, 100, 40, 0, 64, 16] = (0, [e]) \<and>
     cstr (ne_host e) = str ''ab.c''"
proof -
  have s: "take (length (wire_name [str ''ab'', str ''c''])) sample_packet = wire_name [str ''ab'', str ''c'']"
    "length (wire_name [str ''ab'', str ''c'']) \<le> 64"
    by (simp_all add: sample_packet_def wire_name_def str_def)
  have d: "dotted [str ''ab'', str ''c''] @ cstr (drop (length (dotted [str ''ab'', str ''c''])) (ne_host sample_net_event)) =
      str ''ab.c''"
    by (simp add: str_def sample_net_event_def cstr_def)
  from dns_query_name [OF sample_dns_call(1) sample_net_ok sample_labels_ok(1) s, of 0 0 "[]"]
  show ?thesis unfolding d by auto
qed

lemma dns_long_label_shown_witness:
  "\<exists>e. handle_sendto (sample_env sample_net_user 0 0) (Some sample_net_event) [] [3, 200, 70, 0, 64, 16] = (0, [e]) \<and>
     take 33 (ne_host e) = 32 # replicate 32 (chr CHR ''x'')"
proof -
  let ?l = "replicate 32 (chr CHR ''x'')"
  have s: "32 \<le> length ?l" "take (length (wire_name [?l])) sample_long_packet = wire_name [?l]"
    "length (wire_name [?l]) \<le> 64"
    by (simp_all add: sample_long_packet_def wire_name_def)
  from dns_long_label_shown [OF sample_dns_call(2) sample_net_ok sample_labels_ok(2) s, of 0 0 "[]"]
  show ?thesis by auto
qed

theorem records_well_formed_witness:
  "list_all net_event_ok (snd (handle_sendto (sample_env sample_net_user 0 0) (Some sample_net_event) []
      [3, 100, 40, 0, 64, 16]))"
  using records_well_formed [OF sample_helpers sample_net_ok, of "[]" sample_net_user 0 0 "[3, 100, 40, 0, 64, 16]"]
  by (simp add: list_all_iff)

text \<open>A \<open>connect\<close> with no address leaves the ring buffer as it was.\<close>

lemma handlers_only_inet_witness:
  "handle_connect (sample_env sample_net_user 0 0) (Some sample_net_event) [] [3, 0, 16] = (0, [])"
  using handlers_only_inet [of "sample_env sample_net_user 0 0" "Some sample_net_event" "[]" "[3, 0, 16]"]
  by (auto simp: prod_eq_iff)

end
