(* ===== verification/Wire.thy ===== *)
theory Wire
  imports Go_Strings C_Layout Prevent_Apply Execve Netwatch Linsensor_State
begin

text \<open>
  The records as bytes: the C structures the programs fill in ring buffer
  memory, laid out by the compiler's rules, and the agent's decoders, which
  read fixed offsets. Each decoder gets back what its program stored.
\<close>

section \<open>Storing and reading fields\<close>

text \<open>\<open>b[p : p+n]\<close> of the Go sources.\<close>

definition slice :: "nat \<Rightarrow> nat \<Rightarrow> bytes \<Rightarrow> bytes" where
  "slice p n b = take n (drop p b)"

fun store_fields :: "cty \<Rightarrow> (string \<times> bytes) list \<Rightarrow> bytes \<Rightarrow> bytes" where
  "store_fields t [] mem = mem"
| "store_fields t ((f, v) # fs) mem = store_fields t fs (blit (offsetof t f) mem v)"

text \<open>The fields lie one after the other from \<open>p\<close> on and end by \<open>n\<close>.\<close>

fun in_order :: "cty \<Rightarrow> nat \<Rightarrow> (string \<times> bytes) list \<Rightarrow> nat \<Rightarrow> bool" where
  "in_order t p [] n \<longleftrightarrow> p \<le> n"
| "in_order t p ((f, v) # fs) n \<longleftrightarrow> p \<le> offsetof t f \<and> in_order t (offsetof t f + length v) fs n"

lemma in_order_end: "in_order t p fs n \<Longrightarrow> p \<le> n"
  by (induction t p fs n rule: in_order.induct) auto

lemma slice_blit_same: "p + length s \<le> length d \<Longrightarrow> slice p (length s) (blit p d s) = s"
  by (simp add: slice_def drop_blit_at)

lemma slice_blit_before: "p + n \<le> q \<Longrightarrow> q \<le> length d \<Longrightarrow> slice p n (blit q d s) = slice p n d"
  by (simp add: slice_def blit_def take_drop min.absorb1 add.commute flip: drop_take)

lemma store_fields_before:
  assumes "in_order t q fs (length mem)" and "p + n \<le> q"
  shows "slice p n (store_fields t fs mem) = slice p n mem"
  using assms
proof (induction fs arbitrary: q mem)
  case (Cons fv fs)
  obtain f v where fv: "fv = (f, v)" by fastforce
  have e: "offsetof t f + length v \<le> length mem" using Cons.prems(1) fv in_order_end by fastforce
  have "slice p n (store_fields t fs (blit (offsetof t f) mem v)) = slice p n (blit (offsetof t f) mem v)"
    using Cons.prems fv e by (intro Cons.IH [of "offsetof t f + length v"]) simp_all
  also have "\<dots> = slice p n mem" using Cons.prems fv e by (intro slice_blit_before) simp_all
  finally show ?case using fv by simp
qed simp

lemma store_fields_read:
  assumes "in_order t p fs (length mem)" and "(f, v) \<in> set fs"
  shows "slice (offsetof t f) (length v) (store_fields t fs mem) = v"
  using assms
proof (induction fs arbitrary: p mem)
  case (Cons gw fs)
  obtain g w where gw: "gw = (g, w)" by fastforce
  have o: "in_order t (offsetof t g + length w) fs (length mem)" using Cons.prems(1) gw by simp
  from in_order_end [OF o] have e: "offsetof t g + length w \<le> length mem" .
  show ?case
  proof (cases "(f, v) = (g, w)")
    case True
    then have "slice (offsetof t f) (length v) (store_fields t fs (blit (offsetof t g) mem w)) =
        slice (offsetof t f) (length v) (blit (offsetof t g) mem w)"
      using o e by (intro store_fields_before [where q = "offsetof t g + length w"]) simp_all
    then show ?thesis using True e gw by (simp add: slice_blit_same)
  next
    case False
    then show ?thesis
      using Cons.IH [of "offsetof t g + length w" "blit (offsetof t g) mem w"] Cons.prems(2) o e gw by auto
  qed
qed simp

lemma length_store_fields [simp]:
  "in_order t p fs (length mem) \<Longrightarrow> length (store_fields t fs mem) = length mem"
proof (induction fs arbitrary: p mem)
  case (Cons fv fs)
  obtain f v where fv: "fv = (f, v)" by fastforce
  then have "in_order t (offsetof t f + length v) fs (length mem)" using Cons.prems by simp
  with in_order_end [OF this] fv show ?case
    using Cons.IH [of "offsetof t f + length v" "blit (offsetof t f) mem v"] by simp
qed simp

lemma store_fields_all:
  assumes "in_order t p fs (length mem)" and "store_fields t fs mem = b"
  shows "list_all (\<lambda>(f, v). slice (offsetof t f) (length v) b = v) fs" and "length b = length mem"
  using store_fields_read [OF assms(1)] assms by (auto simp: list_all_iff)

text \<open>\<open>binary.LittleEndian.Uint32(b[p:])\<close> and its 16-bit and 64-bit siblings.\<close>

definition Uint16 :: "bytes \<Rightarrow> nat \<Rightarrow> u16" where "Uint16 b p = le_word (slice p 2 b)"
definition Uint32 :: "bytes \<Rightarrow> nat \<Rightarrow> u32" where "Uint32 b p = le_word (slice p 4 b)"
definition Uint64 :: "bytes \<Rightarrow> nat \<Rightarrow> u64" where "Uint64 b p = le_word (slice p 8 b)"

lemmas uint_defs = Uint16_def Uint32_def Uint64_def

abbreviation "b16 (x :: u16) \<equiv> le_bytes 2 (unat x)"
abbreviation "b32 (x :: u32) \<equiv> le_bytes 4 (unat x)"
abbreviation "b64 (x :: u64) \<equiv> le_bytes 8 (unat x)"

lemma le_word_16 [simp]: "le_word (le_bytes 2 (unat x)) = (x :: u16)"
  using unat_bound [of x] by (simp add: le_word_bytes)

section \<open>linsensor\<close>

definition sensor_event_ty :: cty where
  "sensor_event_ty = CStruct [
     Field ''ts'' (CInt 8), Field ''ret'' (CInt 8), Field ''arg0'' (CInt 8), Field ''arg1'' (CInt 8),
     Field ''arg2'' (CInt 8), Field ''kind'' (CInt 4), Field ''pid'' (CInt 4), Field ''tgid'' (CInt 4),
     Field ''ppid'' (CInt 4), Field ''uid'' (CInt 4), Field ''euid'' (CInt 4), Field ''dfd'' (CInt 4),
     Field ''dfd2'' (CInt 4), Field ''comm'' (CArr 16 (CInt 1)), Field ''path'' (CArr PATH_LEN (CInt 1)),
     Field ''path2'' (CArr PATH_LEN (CInt 1)), Field ''dir'' (CArr PATH_LEN (CInt 1)),
     Field ''dir2'' (CArr PATH_LEN (CInt 1))]"

text \<open>A record as it lies in the reserved memory \<open>mem\<close>.\<close>

definition sensor_fields :: "sensor_event \<Rightarrow> (string \<times> bytes) list" where
  "sensor_fields e =
     [(''ts'', b64 (se_ts e)), (''ret'', b64 (se_ret e)), (''arg0'', b64 (se_arg0 e)),
      (''arg1'', b64 (se_arg1 e)), (''arg2'', b64 (se_arg2 e)), (''kind'', b32 (se_kind e)),
      (''pid'', b32 (se_pid e)), (''tgid'', b32 (se_tgid e)), (''ppid'', b32 (se_ppid e)),
      (''uid'', b32 (se_uid e)), (''euid'', b32 (se_euid e)), (''dfd'', b32 (se_dfd e)),
      (''dfd2'', b32 (se_dfd2 e)), (''comm'', se_comm e), (''path'', se_path e), (''path2'', se_path2 e),
      (''dir'', se_dir e), (''dir2'', se_dir2 e)]"

definition sensor_bytes :: "bytes \<Rightarrow> sensor_event \<Rightarrow> bytes" where
  "sensor_bytes mem e = store_fields sensor_event_ty (sensor_fields e) mem"

record raw_event =
  r_ts :: u64
  r_ret :: int
  r_arg0 :: u64
  r_arg1 :: u64
  r_arg2 :: u64
  r_kind :: u32
  r_pid :: u32
  r_tgid :: u32
  r_ppid :: u32
  r_uid :: u32
  r_euid :: u32
  r_dfd :: int
  r_dfd2 :: int
  r_comm :: bytes
  r_path :: bytes
  r_path2 :: bytes
  r_dir :: bytes
  r_dir2 :: bytes

definition commLen :: nat where "commLen = 16"
definition pathLen :: nat where "pathLen = 256"
definition recordSize :: nat where "recordSize = 88 + 4 * pathLen"

definition decodeRaw :: "bytes \<Rightarrow> raw_event option" where
  "decodeRaw b =
     (if length b < recordSize then None
      else Some
        \<lparr>r_ts = Uint64 b 0, r_ret = sint (Uint64 b 8), r_arg0 = Uint64 b 16, r_arg1 = Uint64 b 24,
         r_arg2 = Uint64 b 32, r_kind = Uint32 b 40, r_pid = Uint32 b 44, r_tgid = Uint32 b 48,
         r_ppid = Uint32 b 52, r_uid = Uint32 b 56, r_euid = Uint32 b 60,
         r_dfd = sint (Uint32 b 64), r_dfd2 = sint (Uint32 b 68),
         r_comm = cstr (slice 72 commLen b), r_path = cstr (slice 88 pathLen b),
         r_path2 = cstr (slice (88 + pathLen) pathLen b), r_dir = cstr (slice (88 + 2 * pathLen) pathLen b),
         r_dir2 = cstr (slice (88 + 3 * pathLen) pathLen b)\<rparr>)"

lemmas offset_simps = offsetof_def designator_def layout_simps align_up_def

lemma sensor_offsets:
  "map (offsetof sensor_event_ty) [''ts'', ''ret'', ''arg0'', ''arg1'', ''arg2'', ''kind'', ''pid'', ''tgid'', ''ppid'',
     ''uid'', ''euid'', ''dfd'', ''dfd2'', ''comm'', ''path'', ''path2'', ''dir'', ''dir2''] =
   [0, 8, 16, 24, 32, 40, 44, 48, 52, 56, 60, 64, 68, 72, 88, 344, 600, 856]"
  "csize sensor_event_ty = 1112"
  by (simp_all add: offset_simps sensor_event_ty_def PATH_LEN_def)

lemma sensor_decoded:
  assumes "event_ok e" and "length mem = csize sensor_event_ty"
  shows "length (sensor_bytes mem e) = recordSize \<and>
    decodeRaw (sensor_bytes mem e) = Some
      \<lparr>r_ts = se_ts e, r_ret = sint (se_ret e), r_arg0 = se_arg0 e, r_arg1 = se_arg1 e, r_arg2 = se_arg2 e,
       r_kind = se_kind e, r_pid = se_pid e, r_tgid = se_tgid e, r_ppid = se_ppid e, r_uid = se_uid e,
       r_euid = se_euid e, r_dfd = sint (se_dfd e), r_dfd2 = sint (se_dfd2 e), r_comm = cstr (se_comm e),
       r_path = cstr (se_path e), r_path2 = cstr (se_path2 e), r_dir = cstr (se_dir e), r_dir2 = cstr (se_dir2 e)\<rparr>"
proof -
  note facts = assms(1) [unfolded event_ok_def PATH_LEN_def] assms(2) sensor_offsets
  obtain b where b: "sensor_bytes mem e = b" by simp
  have "in_order sensor_event_ty 0 (sensor_fields e) (length mem)"
    using facts by (simp add: sensor_fields_def)
  note all = store_fields_all [OF this b [unfolded sensor_bytes_def], unfolded sensor_fields_def]
  show ?thesis
    using all facts unfolding b
    by (simp add: decodeRaw_def recordSize_def pathLen_def commLen_def uint_defs)
qed

text \<open>
  C19: The agent decodes what linsensor stored. Whatever the reserved memory
  held, decoding a stored record returns every field of it, the signed ones
  as signed numbers and each text up to its first NUL, and the record has
  exactly the size the decoder asks for.
\<close>

theorem sensor_record_decoded:
  assumes "event_ok e" and "length mem = csize sensor_event_ty"
  shows "length (sensor_bytes mem e) = recordSize \<and>
    decodeRaw (sensor_bytes mem e) = Some
      \<lparr>r_ts = se_ts e, r_ret = sint (se_ret e), r_arg0 = se_arg0 e, r_arg1 = se_arg1 e, r_arg2 = se_arg2 e,
       r_kind = se_kind e, r_pid = se_pid e, r_tgid = se_tgid e, r_ppid = se_ppid e, r_uid = se_uid e,
       r_euid = se_euid e, r_dfd = sint (se_dfd e), r_dfd2 = sint (se_dfd2 e), r_comm = cstr (se_comm e),
       r_path = cstr (se_path e), r_path2 = cstr (se_path2 e), r_dir = cstr (se_dir e), r_dir2 = cstr (se_dir2 e)\<rparr>"
  by (rule sensor_decoded [OF assms])

section \<open>prevent\<close>

definition decision_ty :: cty where
  "decision_ty = CStruct [
     Field ''ts'' (CInt 8), Field ''pid'' (CInt 4), Field ''tgid'' (CInt 4), Field ''ppid'' (CInt 4),
     Field ''uid'' (CInt 4), Field ''rule'' (CInt 4), Field ''action'' (CInt 4),
     Field ''comm'' (CArr 16 (CInt 1)), Field ''path'' (CArr PATH_LEN (CInt 1)),
     Field ''parent'' (CArr NAME_LEN (CInt 1))]"

definition decision_fields :: "decision \<Rightarrow> (string \<times> bytes) list" where
  "decision_fields e =
     [(''ts'', b64 (dc_ts e)), (''pid'', b32 (dc_pid e)), (''tgid'', b32 (dc_tgid e)),
      (''ppid'', b32 (dc_ppid e)), (''uid'', b32 (dc_uid e)), (''rule'', b32 (dc_rule e)),
      (''action'', b32 (dc_action e)), (''comm'', dc_comm e), (''path'', dc_path e),
      (''parent'', dc_parent e)]"

definition decision_bytes :: "bytes \<Rightarrow> decision \<Rightarrow> bytes" where
  "decision_bytes mem e = store_fields decision_ty (decision_fields e) mem"

text \<open>What \<open>lsmEngine.read\<close> reports of a record, under the agent's loaded rules.\<close>

record 'r lsm_decision =
  d_rule :: 'r
  d_blocked :: bool
  d_pid :: u32
  d_ppid :: u32
  d_uid :: u32
  d_comm :: bytes
  d_path :: bytes
  d_parent :: bytes

definition decisionBytes :: nat where "decisionBytes = 48 + lsm_pathLen + nameLen"

definition lsm_read :: "'r list option \<Rightarrow> bytes \<Rightarrow> 'r lsm_decision option" where
  "lsm_read pol b =
     (if length b < decisionBytes then None
      else
        let idx = unat (Uint32 b 24) in
        case pol of None \<Rightarrow> None
        | Some rules \<Rightarrow>
            if length rules \<le> idx then None
            else Some \<lparr>d_rule = rules ! idx, d_blocked = (Uint32 b 28 = actBlock),
              d_pid = Uint32 b 12, d_ppid = Uint32 b 16, d_uid = Uint32 b 20,
              d_comm = cstr (slice 32 16 b), d_path = cstr (slice 48 lsm_pathLen b),
              d_parent = cstr (slice (48 + lsm_pathLen) nameLen b)\<rparr>)"

lemma decision_offsets:
  "map (offsetof decision_ty) [''ts'', ''pid'', ''tgid'', ''ppid'', ''uid'', ''rule'', ''action'', ''comm'',
     ''path'', ''parent''] = [0, 8, 12, 16, 20, 24, 28, 32, 48, 304]"
  "csize decision_ty = 336"
  by (simp_all add: offset_simps decision_ty_def PATH_LEN_def NAME_LEN_def)

lemma decision_decoded:
  assumes "length (dc_comm e) = 16" and "length (dc_path e) = PATH_LEN" and "length (dc_parent e) = NAME_LEN"
    and "length mem = csize decision_ty" and "unat (dc_rule e) < length rules"
  shows "lsm_read (Some rules) (decision_bytes mem e) = Some
    \<lparr>d_rule = rules ! unat (dc_rule e), d_blocked = (dc_action e = ACT_BLOCK), d_pid = dc_tgid e,
     d_ppid = dc_ppid e, d_uid = dc_uid e, d_comm = cstr (dc_comm e), d_path = cstr (dc_path e),
     d_parent = cstr (dc_parent e)\<rparr>"
proof -
  note facts = assms [unfolded PATH_LEN_def NAME_LEN_def] decision_offsets
  obtain b where b: "decision_bytes mem e = b" by simp
  have "in_order decision_ty 0 (decision_fields e) (length mem)"
    using facts by (simp add: decision_fields_def)
  note all = store_fields_all [OF this b [unfolded decision_bytes_def], unfolded decision_fields_def]
  show ?thesis
    using all facts unfolding b
    by (simp add: lsm_read_def decisionBytes_def NAME_LEN_def ACT_BLOCK_def uint_defs)
qed

text \<open>
  C8: The agent's report of a start that matched a rule tells what happened:
  it carries the rule the program found, says blocked exactly when the start
  was refused, and names the process, the path and the parent of the decision.
\<close>

theorem decision_reported:
  assumes "bpf_helpers env" and "prevent_ok st" and "watching env st" and "length (dc_comm ev) = 16"
    and "exec_rule env st bprm (exec_scratch env st bprm) = Some r" and "unat r < length rules"
    and "length mem = csize decision_ty"
  shows "\<exists>e d. decisions (snd (check_exec env (Some ev) st bprm)) = decisions st @ [e] \<and>
    lsm_read (Some rules) (decision_bytes mem e) = Some d \<and> d_rule d = rules ! unat r \<and>
    (d_blocked d \<longleftrightarrow> fst (check_exec env (Some ev) st bprm) = - EPERM) \<and>
    d_pid d = ucast (drop_bit 32 (current_pid_tgid env)) \<and> d_uid d = ucast (current_uid_gid env) \<and>
    d_path d = cstr (sc_key (exec_scratch env st bprm)) \<and>
    d_parent d = cstr (sc_pbase (exec_scratch env st bprm))"
proof -
  let ?s = "exec_scratch env st bprm" and ?e = "fill_decision env r (action_of st r) (exec_scratch env st bprm) ev"
  have run: "check_exec env (Some ev) st bprm =
      (if action_of st r = ACT_BLOCK then - EPERM else 0,
       st\<lparr>scratch_map := (scratch_map st)(cpu env := [?s]), decisions := decisions st @ [?e]\<rparr>)"
    using assms(3,5) by (simp add: check_exec_cases [OF assms(2)] Let_def)
  have "scratch_ok ?s" by (rule bpf_helpers.exec_scratch_ok [OF assms(1,2)])
  then have "length (dc_comm ?e) = 16" "length (dc_path ?e) = PATH_LEN" "length (dc_parent ?e) = NAME_LEN"
    using bpf_helpers.comm_length [OF assms(1), of "dc_comm ev"] assms(4)
    by (auto simp: fill_decision_def scratch_ok_def)
  from decision_decoded [OF this assms(7), of rules] show ?thesis
    unfolding run using assms(6) by (simp add: fill_decision_def EPERM_def)
qed

section \<open>procexec\<close>

definition exec_event_ty :: cty where
  "exec_event_ty = CStruct [
     Field ''timestamp_ns'' (CInt 8), Field ''pid'' (CInt 4), Field ''ppid'' (CInt 4), Field ''uid'' (CInt 4),
     Field ''gid'' (CInt 4), Field ''comm'' (CArr 16 (CInt 1)),
     Field ''filename'' (CArr MAX_FILENAME_LEN (CInt 1)),
     Field ''parent_filename'' (CArr MAX_FILENAME_LEN (CInt 1)), Field ''args'' (CArr ARGS_BUF_LEN (CInt 1)),
     Field ''args_size'' (CInt 4), Field ''args_count'' (CInt 4), Field ''args_truncated'' (CInt 1)]"

definition exec_fields :: "exec_event \<Rightarrow> (string \<times> bytes) list" where
  "exec_fields e =
     [(''timestamp_ns'', b64 (ee_timestamp_ns e)), (''pid'', b32 (ee_pid e)), (''ppid'', b32 (ee_ppid e)),
      (''uid'', b32 (ee_uid e)), (''gid'', b32 (ee_gid e)), (''comm'', ee_comm e),
      (''filename'', ee_filename e), (''parent_filename'', ee_parent_filename e), (''args'', ee_args e),
      (''args_size'', b32 (ee_args_size e)), (''args_count'', b32 (ee_args_count e)),
      (''args_truncated'', [ee_args_truncated e])]"

definition exec_bytes :: "bytes \<Rightarrow> exec_event \<Rightarrow> bytes" where
  "exec_bytes mem e = store_fields exec_event_ty (exec_fields e) mem"

text \<open>\<open>strings.Join\<close>, and \<open>joinArgs\<close>, whose loop is that of \<open>splitArgs\<close>.\<close>

definition joinArgs :: "bytes \<Rightarrow> int \<Rightarrow> bytes" where
  "joinArgs buf sz = join_with [32] (splitArgs buf sz)"

text \<open>The values of a decoded record that go into the agent's line and its \<open>Exec\<close>.\<close>

record exec_info =
  x_pid :: u32
  x_ppid :: u32
  x_uid :: u32
  x_image :: bytes
  x_args :: "bytes list"
  x_command :: bytes
  x_parent :: bytes
  x_comm :: bytes
  x_truncated :: bool

definition recordMinSize :: nat where
  "recordMinSize = 8 + 4 * 4 + 16 + 256 * 2 + 1024 + 4 + 4 + 1"

definition decodeExec :: "bytes \<Rightarrow> exec_info option" where
  "decodeExec b =
     (if length b < recordMinSize then None
      else
        let off = 8; pid = Uint32 b off; off = off + 4;
            ppid = Uint32 b off; off = off + 4;
            uid = Uint32 b off; off = off + 4; off = off + 4;
            comm = cstr (slice off 16 b); off = off + 16;
            filename = cstr (slice off 256 b); off = off + 256;
            parent = cstr (slice off 256 b); off = off + 256;
            args = slice off 1024 b; off = off + 1024;
            sz = uint (Uint32 b off); off = off + 4; off = off + 4;
            truncated = (b ! off \<noteq> 0)
        in if filename = [] then None
           else
             let command = joinArgs args sz;
                 command = (if command = [] then filename else command)
             in Some \<lparr>x_pid = pid, x_ppid = ppid, x_uid = uid, x_image = filename, x_args = splitArgs args sz,
                  x_command = command, x_parent = parent, x_comm = comm, x_truncated = truncated\<rparr>)"

lemma exec_offsets:
  "map (offsetof exec_event_ty) [''timestamp_ns'', ''pid'', ''ppid'', ''uid'', ''gid'', ''comm'', ''filename'',
     ''parent_filename'', ''args'', ''args_size'', ''args_count'', ''args_truncated''] =
   [0, 8, 12, 16, 20, 24, 40, 296, 552, 1576, 1580, 1584]"
  "csize exec_event_ty = 1592"
  by (simp_all add: offset_simps exec_event_ty_def)

lemma nth_slice: "p < length b \<Longrightarrow> slice p 1 b = [v] \<Longrightarrow> b ! p = v"
  by (simp add: slice_def Cons_nth_drop_Suc [symmetric])

lemma exec_decoded:
  assumes "exec_event_ok e" and "length mem = csize exec_event_ty" and "cstr (ee_filename e) \<noteq> []"
  shows "decodeExec (exec_bytes mem e) = Some
    \<lparr>x_pid = ee_pid e, x_ppid = ee_ppid e, x_uid = ee_uid e, x_image = cstr (ee_filename e),
     x_args = splitArgs (ee_args e) (uint (ee_args_size e)),
     x_command = (let c = joinArgs (ee_args e) (uint (ee_args_size e)) in
       if c = [] then cstr (ee_filename e) else c),
     x_parent = cstr (ee_parent_filename e), x_comm = cstr (ee_comm e),
     x_truncated = (ee_args_truncated e \<noteq> 0)\<rparr>"
proof -
  note facts = assms(1) [unfolded exec_event_ok_def] assms(2) exec_offsets
  obtain b where b: "exec_bytes mem e = b" by simp
  have "in_order exec_event_ty 0 (exec_fields e) (length mem)"
    using facts by (simp add: exec_fields_def)
  note all = store_fields_all [OF this b [unfolded exec_bytes_def], unfolded exec_fields_def]
  have "b ! 1584 = ee_args_truncated e" using all facts by (intro nth_slice) simp_all
  then show ?thesis
    using all facts assms(3) unfolding b
    by (simp add: decodeExec_def recordMinSize_def uint_defs Let_def)
qed

text \<open>
  From the system call to the agent: an \<open>execve\<close> with readable
  arguments is decoded by the agent as one start of that process, with its
  parent's and its user's number, the file name (cut to 255 bytes) as image,
  and the arguments, the first eight cut to 127 bytes each and without the
  empty ones, which also make up the command line.
\<close>

lemma execve_reported:
  assumes "bpf_helpers env" and "exec_st_ok M st" and "exec_event_ok ev"
    and "holds_user_str env (args ! 0) name" and "name \<noteq> []"
    and "argv_at env (args ! 1) ss" and "ss \<noteq> []" and "length mem = csize exec_event_ty"
  shows "\<exists>e x. events (snd (handle_execve env M (Some ev) st args)) = events st @ [e] \<and>
    decodeExec (exec_bytes mem e) = Some x \<and>
    x_pid x = exec_pid env \<and> x_ppid x = exec_ppid env \<and> x_uid x = ucast (current_uid_gid env) \<and>
    x_image x = take (MAX_FILENAME_LEN - 1) name \<and>
    x_args x = filter (\<lambda>s. s \<noteq> []) (map (take (ARGSIZE - 1)) (take MAXARG ss)) \<and>
    x_command x = (if join_with [32] (x_args x) = [] then x_image x else join_with [32] (x_args x)) \<and>
    \<not> x_truncated x"
proof -
  let ?e = "exec_record env M st args ev"
  have len: "length (ee_filename ev) = MAX_FILENAME_LEN" using assms(3) by (simp add: exec_event_ok_def)
  then have "ee_filename ev \<noteq> []" by auto
  then have name: "0 \<notin> set name" "probe_read_user_str env (args ! 0) (ee_filename ev) = str_copy name (ee_filename ev)"
    using assms(4) by (simp_all add: holds_user_str_def)
  obtain n bs where copy: "str_copy name (ee_filename ev) = (n, bs)" by fastforce
  then have got: "cstr bs = take 255 name" "\<not> n < 0" "str_copy name (ee_filename ev) = (n, bs)"
    using str_copy_cstr [OF name(1), of "ee_filename ev"] str_copy_ret [of "ee_filename ev" name] len
      \<open>ee_filename ev \<noteq> []\<close> by simp_all
  have "cstr (ee_filename ?e) = take (MAX_FILENAME_LEN - 1) name"
    "ee_pid ?e = exec_pid env" "ee_ppid ?e = exec_ppid env" "ee_uid ?e = ucast (current_uid_gid env)"
    using name(2) got by (simp_all add: exec_record_def fill_exec_def Let_def split: prod.split)
  moreover from this(1) have "cstr (ee_filename ?e) \<noteq> []" using assms(5) by (cases name) simp_all
  ultimately show ?thesis
    using exec_decoded [OF exec_record_ok(1) [OF assms(1-3)] assms(8), of args] exec_record_ok(4) [OF assms(1-3), of args]
      exec_record_args(1) [OF assms(3,6,7), of M st]
    by (simp add: handle_execve_Some [OF assms(2)] joinArgs_def Let_def)
qed

section \<open>netwatch\<close>

definition net_event_ty :: cty where
  "net_event_ty = CStruct [
     Field ''timestamp_ns'' (CInt 8), Field ''pid'' (CInt 4), Field ''tgid'' (CInt 4), Field ''uid'' (CInt 4),
     Field ''gid'' (CInt 4), Field ''syscall_kind'' (CInt 1), Field ''family'' (CInt 1), Field ''proto'' (CInt 1),
     Field ''pad'' (CInt 1), Field ''local_port'' (CInt 2), Field ''remote_port'' (CInt 2),
     Field ''saddr_v4'' (CInt 4), Field ''daddr_v4'' (CInt 4), Field ''comm'' (CArr TASK_COMM_LEN (CInt 1)),
     Field ''host'' (CArr MAX_HOST_LEN (CInt 1))]"

definition net_fields :: "net_event \<Rightarrow> (string \<times> bytes) list" where
  "net_fields e =
     [(''timestamp_ns'', b64 (ne_timestamp_ns e)), (''pid'', b32 (ne_pid e)), (''tgid'', b32 (ne_tgid e)),
      (''uid'', b32 (ne_uid e)), (''gid'', b32 (ne_gid e)), (''syscall_kind'', [ne_syscall_kind e]),
      (''family'', [ne_family e]), (''proto'', [ne_proto e]), (''pad'', [ne_pad e]),
      (''local_port'', b16 (ne_local_port e)), (''remote_port'', b16 (ne_remote_port e)),
      (''saddr_v4'', b32 (ne_saddr_v4 e)), (''daddr_v4'', b32 (ne_daddr_v4 e)), (''comm'', ne_comm e),
      (''host'', ne_host e)]"

definition net_bytes :: "bytes \<Rightarrow> net_event \<Rightarrow> bytes" where
  "net_bytes mem e = store_fields net_event_ty (net_fields e) mem"

text \<open>\<open>decode\<close> fills an event of the same fields; a record too short is refused before.\<close>

definition net_recordSize :: nat where
  "net_recordSize = 8 + 4 * 4 + 4 + 2 + 2 + 4 + 4 + 16 + 128"

definition decode_net :: "bytes \<Rightarrow> net_event" where
  "decode_net raw =
     (let off = 0; ts = Uint64 raw off; off = off + 8;
          pid = Uint32 raw off; off = off + 4;
          tgid = Uint32 raw off; off = off + 4;
          uid = Uint32 raw off; off = off + 4;
          gid = Uint32 raw off; off = off + 4;
          sc = raw ! off; off = off + 1;
          family = raw ! off; off = off + 1;
          proto = raw ! off; off = off + 1;
          pad = raw ! off; off = off + 1;
          lport = Uint16 raw off; off = off + 2;
          rport = Uint16 raw off; off = off + 2;
          saddr = Uint32 raw off; off = off + 4;
          daddr = Uint32 raw off; off = off + 4;
          comm = slice off 16 raw; off = off + 16;
          host = slice off 128 raw
      in \<lparr>ne_timestamp_ns = ts, ne_pid = pid, ne_tgid = tgid, ne_uid = uid, ne_gid = gid,
          ne_syscall_kind = sc, ne_family = family, ne_proto = proto, ne_pad = pad,
          ne_local_port = lport, ne_remote_port = rport, ne_saddr_v4 = saddr, ne_daddr_v4 = daddr,
          ne_comm = comm, ne_host = host\<rparr>)"

lemma net_offsets:
  "map (offsetof net_event_ty) [''timestamp_ns'', ''pid'', ''tgid'', ''uid'', ''gid'', ''syscall_kind'',
     ''family'', ''proto'', ''pad'', ''local_port'', ''remote_port'', ''saddr_v4'', ''daddr_v4'', ''comm'', ''host''] =
   [0, 8, 12, 16, 20, 24, 25, 26, 27, 28, 30, 32, 36, 40, 56]"
  "csize net_event_ty = 184"
  by (simp_all add: offset_simps net_event_ty_def TASK_COMM_LEN_def MAX_HOST_LEN_def)

text \<open>
  netwatch's decoder inverts the program's layout: decoding a stored
  record gives the record back, and the record has exactly the decoder's size.
\<close>

lemma net_record_decoded:
  assumes "net_event_ok e" and "length mem = csize net_event_ty"
  shows "length (net_bytes mem e) = net_recordSize \<and> decode_net (net_bytes mem e) = e"
proof -
  note facts = assms(1) [unfolded net_event_ok_def TASK_COMM_LEN_def MAX_HOST_LEN_def] assms(2) net_offsets
  obtain b where b: "net_bytes mem e = b" by simp
  have "in_order net_event_ty 0 (net_fields e) (length mem)"
    using facts by (simp add: net_fields_def)
  note all = store_fields_all [OF this b [unfolded net_bytes_def], unfolded net_fields_def]
  have "b ! 24 = ne_syscall_kind e" "b ! 25 = ne_family e" "b ! 26 = ne_proto e" "b ! 27 = ne_pad e"
    using all facts by (auto intro!: nth_slice)
  then show ?thesis
    using all facts unfolding b
    by (simp add: decode_net_def net_recordSize_def uint_defs Let_def)
qed

section \<open>Concrete records\<close>

theorem sensor_record_decoded_witness:
  "map_option r_kind (decodeRaw (sensor_bytes (replicate 1112 7) sample_event)) = Some 9"
  using sensor_record_decoded [OF sample_lin_ok(2), of "replicate 1112 7"] sensor_offsets(2)
  by (simp add: sample_event_def)

lemma net_record_decoded_witness:
  "decode_net (net_bytes (replicate 184 1) sample_net_event) = sample_net_event"
  using net_record_decoded [OF sample_net_ok, of "replicate 184 1"] net_offsets(2) by simp

text \<open>A start of \<open>/a\<close> under the sample rules: rule 7 blocks it.\<close>

definition sample_decision :: decision where
  "sample_decision =
     \<lparr>dc_ts = 0, dc_pid = 0, dc_tgid = 0, dc_ppid = 0, dc_uid = 0, dc_rule = 0, dc_action = 0,
      dc_comm = replicate 16 3, dc_path = replicate 256 3, dc_parent = replicate 32 3\<rparr>"

lemma sample_exec_rule:
  "exec_rule (sample_env [] pt ug) sample_rules 9472 (exec_scratch (sample_env [] pt ug) sample_rules 9472) = Some 7"
proof -
  let ?e = "sample_env [] pt ug"
  have path: "vfs_path ?e (exec_dentry ?e 9472) (exec_mnt ?e 9472) [str ''a'']"
    using sample_vfs_path by simp
  show ?thesis
    using bpf_helpers.exec_scratch_fields(1) [OF sample_helpers sample_rules_ok path]
    by (simp add: exec_rule_def policy_def sample_path sample_rules_def HAS_PATH_def del: path_consts)
qed

theorem decision_reported_witness:
  "\<exists>e d. decisions (snd (check_exec (sample_env [] (9 * 2 ^ 32) 0) (Some sample_decision) sample_rules 9472)) = [e] \<and>
     lsm_read (Some [0 ..< 8]) (decision_bytes (replicate 336 5) e) = Some d \<and> d_rule d = 7 \<and> d_blocked d"
proof -
  let ?e = "sample_env [] (9 * 2 ^ 32) 0"
  have w: "watching ?e sample_rules" by (simp add: watching_def sample_rules_def)
  have c: "length (dc_comm sample_decision) = 16" by (simp add: sample_decision_def)
  have m: "length (replicate 336 (5 :: u8)) = csize decision_ty" by (simp add: decision_offsets(2))
  have r: "unat (7 :: u32) < length [0 ..< 8 :: nat]" by simp
  have d: "decisions sample_rules = []" by (simp add: sample_rules_def)
  have b: "fst (check_exec ?e (Some sample_decision) sample_rules 9472) = - EPERM"
    using sample_exec_rule [of "9 * 2 ^ 32" 0] w
    by (simp add: check_exec_cases [OF sample_rules_ok] Let_def)
      (simp add: action_of_def sample_rules_def arr_lookup_def MAX_RULES_def)
  from decision_reported [OF sample_helpers sample_rules_ok w c sample_exec_rule r m] show ?thesis
    unfolding b d by auto
qed

lemma execve_reported_witness:
  "\<exists>e x. events (snd (handle_execve (sample_exec_env 9) cache_ops (Some sample_exec_event) sample_exec_st [300, 100])) = [e] \<and>
     decodeExec (exec_bytes (replicate 1592 5) e) = Some x \<and>
     x_image x = str ''/a'' \<and> x_command x = str ''a -x''"
proof -
  have n: "holds_user_str (sample_exec_env 9) ([300, 100] ! 0) (str ''/a'')"
    by (simp add: holds_user_str_def sample_env_def cell_env_def cell_read_str_def sample_user_def
        str_def chr_def cstr_def)
  have a: "argv_at (sample_exec_env 9) ([300, 100] ! 1) [str ''a'', str ''-x'']" using sample_argv by simp
  have m: "length (replicate 1592 (5 :: u8)) = csize exec_event_ty" by (simp add: exec_offsets(2))
  have args: "filter (\<lambda>s. s \<noteq> []) (map (take (ARGSIZE - 1)) (take MAXARG [str ''a'', str ''-x''])) =
      [str ''a'', str ''-x'']" "take (MAX_FILENAME_LEN - 1) (str ''/a'') = str ''/a''"
    "join_with [32] [str ''a'', str ''-x''] = str ''a -x''" "str ''a -x'' \<noteq> []" "str ''/a'' \<noteq> []"
    by (simp_all add: str_def chr_def)
  from execve_reported [OF sample_helpers sample_exec_ok n args(5) a _ m] show ?thesis
    unfolding args(1,2) sample_exec_events using args(3,4) by (metis append_Nil list.distinct(1))
qed

end
