(* ===== verification/Vmlinux_Task.thy ===== *)
theory Vmlinux_Task
  imports C_Layout
begin

text \<open>
  \<open>vmlinux.h\<close>: the kernel's \<open>struct task_struct\<close> and the types it contains, as C
  types. Pointers are opaque, typedefs of scalars are resolved to their
  size. Each definition is followed by its size and alignment.
\<close>

lemmas layout_base [layout_simps] = align_up_def bits_start_def

definition vm_thread_info :: cty where
  "vm_thread_info = CStruct [
    Field ''flags'' (CInt 8), Field ''syscall_work'' (CInt 8), Field ''status'' (CInt 4),
    Field ''cpu'' (CInt 4)]"

lemma vm_thread_info_layout [layout_simps]: "csize vm_thread_info = 24" "calign vm_thread_info = 8" "cty_ok vm_thread_info"
  by (simp_all add: vm_thread_info_def layout_simps)

definition vm_atomic_t :: cty where
  "vm_atomic_t = CStruct [
    Field ''counter'' (CInt 4)]"

lemma vm_atomic_t_layout [layout_simps]: "csize vm_atomic_t = 4" "calign vm_atomic_t = 4" "cty_ok vm_atomic_t"
  by (simp_all add: vm_atomic_t_def layout_simps)

definition vm_refcount_struct :: cty where
  "vm_refcount_struct = CStruct [
    Field ''refs'' vm_atomic_t]"

lemma vm_refcount_struct_layout [layout_simps]: "csize vm_refcount_struct = 4" "calign vm_refcount_struct = 4" "cty_ok vm_refcount_struct"
  by (simp_all add: vm_refcount_struct_def layout_simps)

definition vm_llist_node :: cty where
  "vm_llist_node = CStruct [
    Field ''next'' CPtr]"

lemma vm_llist_node_layout [layout_simps]: "csize vm_llist_node = 8" "calign vm_llist_node = 8" "cty_ok vm_llist_node"
  by (simp_all add: vm_llist_node_def layout_simps)

definition vm_call_single_node :: cty where
  "vm_call_single_node = CStruct [
    Field ''llist'' vm_llist_node,
    Field [] (CUnion [Field ''u_flags'' (CInt 4), Field ''a_flags'' vm_atomic_t]),
    Field ''src'' (CInt 2), Field ''dst'' (CInt 2)]"

lemma vm_call_single_node_layout [layout_simps]: "csize vm_call_single_node = 16" "calign vm_call_single_node = 8" "cty_ok vm_call_single_node"
  by (simp_all add: vm_call_single_node_def layout_simps)

definition vm_load_weight :: cty where
  "vm_load_weight = CStruct [
    Field ''weight'' (CInt 8), Field ''inv_weight'' (CInt 4)]"

lemma vm_load_weight_layout [layout_simps]: "csize vm_load_weight = 16" "calign vm_load_weight = 8" "cty_ok vm_load_weight"
  by (simp_all add: vm_load_weight_def layout_simps)

definition vm_rb_node :: cty where
  "vm_rb_node = CStruct [
    Field ''__rb_parent_color'' (CInt 8), Field ''rb_right'' CPtr, Field ''rb_left'' CPtr]"

lemma vm_rb_node_layout [layout_simps]: "csize vm_rb_node = 24" "calign vm_rb_node = 8" "cty_ok vm_rb_node"
  by (simp_all add: vm_rb_node_def layout_simps)

definition vm_list_head :: cty where
  "vm_list_head = CStruct [
    Field ''next'' CPtr, Field ''prev'' CPtr]"

lemma vm_list_head_layout [layout_simps]: "csize vm_list_head = 16" "calign vm_list_head = 8" "cty_ok vm_list_head"
  by (simp_all add: vm_list_head_def layout_simps)

definition vm_sched_avg :: cty where
  "vm_sched_avg = CStruct [
    Field ''last_update_time'' (CInt 8), Field ''load_sum'' (CInt 8),
    Field ''runnable_sum'' (CInt 8), Field ''util_sum'' (CInt 4), Field ''period_contrib'' (CInt 4),
    Field ''load_avg'' (CInt 8), Field ''runnable_avg'' (CInt 8), Field ''util_avg'' (CInt 8),
    Field ''util_est'' (CInt 4)]"

lemma vm_sched_avg_layout [layout_simps]: "csize vm_sched_avg = 64" "calign vm_sched_avg = 8" "cty_ok vm_sched_avg"
  by (simp_all add: vm_sched_avg_def layout_simps)

definition vm_sched_entity :: cty where
  "vm_sched_entity = CStruct [
    Field ''load'' vm_load_weight, Field ''run_node'' vm_rb_node, Field ''deadline'' (CInt 8),
    Field ''min_vruntime'' (CInt 8), Field ''min_slice'' (CInt 8), Field ''max_slice'' (CInt 8),
    Field ''group_node'' vm_list_head, Field ''on_rq'' (CInt 1), Field ''sched_delayed'' (CInt 1),
    Field ''rel_deadline'' (CInt 1), Field ''custom_slice'' (CInt 1), Field ''exec_start'' (CInt 8),
    Field ''sum_exec_runtime'' (CInt 8), Field ''prev_sum_exec_runtime'' (CInt 8),
    Field ''vruntime'' (CInt 8), Field ''vlag'' (CInt 8), Field ''vprot'' (CInt 8),
    Field ''slice'' (CInt 8), Field ''nr_migrations'' (CInt 8), Field ''depth'' (CInt 4),
    Field ''parent'' CPtr, Field ''cfs_rq'' CPtr, Field ''my_q'' CPtr,
    Field ''runnable_weight'' (CInt 8), Bits [] 8 64, Bits [] 8 64, Bits [] 8 64, Bits [] 8 64,
    Bits [] 8 64, Bits [] 8 64, Bits [] 8 64, Field ''avg'' vm_sched_avg]"

lemma vm_sched_entity_layout [layout_simps]: "csize vm_sched_entity = 320" "calign vm_sched_entity = 8" "cty_ok vm_sched_entity"
  by (simp_all add: vm_sched_entity_def layout_simps)

definition vm_sched_rt_entity :: cty where
  "vm_sched_rt_entity = CStruct [
    Field ''run_list'' vm_list_head, Field ''timeout'' (CInt 8), Field ''watchdog_stamp'' (CInt 8),
    Field ''time_slice'' (CInt 4), Field ''on_rq'' (CInt 2), Field ''on_list'' (CInt 2),
    Field ''back'' CPtr]"

lemma vm_sched_rt_entity_layout [layout_simps]: "csize vm_sched_rt_entity = 48" "calign vm_sched_rt_entity = 8" "cty_ok vm_sched_rt_entity"
  by (simp_all add: vm_sched_rt_entity_def layout_simps)

definition vm_timerqueue_node :: cty where
  "vm_timerqueue_node = CStruct [
    Field ''node'' vm_rb_node, Field ''expires'' (CInt 8)]"

lemma vm_timerqueue_node_layout [layout_simps]: "csize vm_timerqueue_node = 32" "calign vm_timerqueue_node = 8" "cty_ok vm_timerqueue_node"
  by (simp_all add: vm_timerqueue_node_def layout_simps)

definition vm_hrtimer :: cty where
  "vm_hrtimer = CStruct [
    Field ''node'' vm_timerqueue_node, Field ''_softexpires'' (CInt 8), Field ''function'' CPtr,
    Field ''base'' CPtr, Field ''state'' (CInt 1), Field ''is_rel'' (CInt 1),
    Field ''is_soft'' (CInt 1), Field ''is_hard'' (CInt 1)]"

lemma vm_hrtimer_layout [layout_simps]: "csize vm_hrtimer = 64" "calign vm_hrtimer = 8" "cty_ok vm_hrtimer"
  by (simp_all add: vm_hrtimer_def layout_simps)

definition vm_sched_dl_entity :: cty where
  "vm_sched_dl_entity = CStruct [
    Field ''rb_node'' vm_rb_node, Field ''dl_runtime'' (CInt 8), Field ''dl_deadline'' (CInt 8),
    Field ''dl_period'' (CInt 8), Field ''dl_bw'' (CInt 8), Field ''dl_density'' (CInt 8),
    Field ''runtime'' (CInt 8), Field ''deadline'' (CInt 8), Field ''flags'' (CInt 4),
    Bits ''dl_throttled'' 4 1, Bits ''dl_yielded'' 4 1, Bits ''dl_non_contending'' 4 1,
    Bits ''dl_overrun'' 4 1, Bits ''dl_server'' 4 1, Bits ''dl_server_active'' 4 1,
    Bits ''dl_defer'' 4 1, Bits ''dl_defer_armed'' 4 1, Bits ''dl_defer_running'' 4 1,
    Bits ''dl_defer_idle'' 4 1, Field ''dl_timer'' vm_hrtimer, Field ''inactive_timer'' vm_hrtimer,
    Field ''rq'' CPtr, Field ''server_pick_task'' CPtr, Field ''pi_se'' CPtr]"

lemma vm_sched_dl_entity_layout [layout_simps]: "csize vm_sched_dl_entity = 240" "calign vm_sched_dl_entity = 8" "cty_ok vm_sched_dl_entity"
  by (simp_all add: vm_sched_dl_entity_def layout_simps)

definition vm_scx_dsq_list_node :: cty where
  "vm_scx_dsq_list_node = CStruct [
    Field ''node'' vm_list_head, Field ''flags'' (CInt 4), Field ''priv'' (CInt 4)]"

lemma vm_scx_dsq_list_node_layout [layout_simps]: "csize vm_scx_dsq_list_node = 24" "calign vm_scx_dsq_list_node = 8" "cty_ok vm_scx_dsq_list_node"
  by (simp_all add: vm_scx_dsq_list_node_def layout_simps)

definition vm_atomic64_t :: cty where
  "vm_atomic64_t = CStruct [
    Field ''counter'' (CInt 8)]"

lemma vm_atomic64_t_layout [layout_simps]: "csize vm_atomic64_t = 8" "calign vm_atomic64_t = 8" "cty_ok vm_atomic64_t"
  by (simp_all add: vm_atomic64_t_def layout_simps)

definition vm_sched_ext_entity :: cty where
  "vm_sched_ext_entity = CStruct [
    Field ''dsq'' CPtr, Field ''dsq_list'' vm_scx_dsq_list_node, Field ''dsq_priq'' vm_rb_node,
    Field ''dsq_seq'' (CInt 4), Field ''dsq_flags'' (CInt 4), Field ''flags'' (CInt 4),
    Field ''weight'' (CInt 4), Field ''sticky_cpu'' (CInt 4), Field ''holding_cpu'' (CInt 4),
    Field ''selected_cpu'' (CInt 4), Field ''kf_mask'' (CInt 4), Field ''kf_tasks'' (CArr 2 CPtr),
    Field ''ops_state'' vm_atomic64_t, Field ''runnable_node'' vm_list_head,
    Field ''runnable_at'' (CInt 8), Field ''ddsp_dsq_id'' (CInt 8),
    Field ''ddsp_enq_flags'' (CInt 8), Field ''slice'' (CInt 8), Field ''dsq_vtime'' (CInt 8),
    Field ''disallow'' (CInt 1), Field ''cgrp_moving_from'' CPtr, Field ''tasks_node'' vm_list_head]"

lemma vm_sched_ext_entity_layout [layout_simps]: "csize vm_sched_ext_entity = 200" "calign vm_sched_ext_entity = 8" "cty_ok vm_sched_ext_entity"
  by (simp_all add: vm_sched_ext_entity_def layout_simps)

definition vm_callback_head :: cty where
  "vm_callback_head = CStruct [
    Field ''next'' CPtr, Field ''func'' CPtr]"

lemma vm_callback_head_layout [layout_simps]: "csize vm_callback_head = 16" "calign vm_callback_head = 8" "cty_ok vm_callback_head"
  by (simp_all add: vm_callback_head_def layout_simps)

definition vm_uclamp_se :: cty where
  "vm_uclamp_se = CStruct [
    Bits ''value'' 4 11, Bits ''bucket_id'' 4 3, Bits ''active'' 4 1, Bits ''user_defined'' 4 1]"

lemma vm_uclamp_se_layout [layout_simps]: "csize vm_uclamp_se = 4" "calign vm_uclamp_se = 4" "cty_ok vm_uclamp_se"
  by (simp_all add: vm_uclamp_se_def layout_simps)

definition vm_sched_statistics :: cty where
  "vm_sched_statistics = CStruct [
    Field ''wait_start'' (CInt 8), Field ''wait_max'' (CInt 8), Field ''wait_count'' (CInt 8),
    Field ''wait_sum'' (CInt 8), Field ''iowait_count'' (CInt 8), Field ''iowait_sum'' (CInt 8),
    Field ''sleep_start'' (CInt 8), Field ''sleep_max'' (CInt 8),
    Field ''sum_sleep_runtime'' (CInt 8), Field ''block_start'' (CInt 8),
    Field ''block_max'' (CInt 8), Field ''sum_block_runtime'' (CInt 8), Field ''exec_max'' (CInt 8),
    Field ''slice_max'' (CInt 8), Field ''nr_migrations_cold'' (CInt 8),
    Field ''nr_failed_migrations_affine'' (CInt 8), Field ''nr_failed_migrations_running'' (CInt 8),
    Field ''nr_failed_migrations_hot'' (CInt 8), Field ''nr_forced_migrations'' (CInt 8),
    Field ''nr_wakeups'' (CInt 8), Field ''nr_wakeups_sync'' (CInt 8),
    Field ''nr_wakeups_migrate'' (CInt 8), Field ''nr_wakeups_local'' (CInt 8),
    Field ''nr_wakeups_remote'' (CInt 8), Field ''nr_wakeups_affine'' (CInt 8),
    Field ''nr_wakeups_affine_attempts'' (CInt 8), Field ''nr_wakeups_passive'' (CInt 8),
    Field ''nr_wakeups_idle'' (CInt 8), Bits [] 8 64, Bits [] 8 64, Bits [] 8 64, Bits [] 8 64]"

lemma vm_sched_statistics_layout [layout_simps]: "csize vm_sched_statistics = 256" "calign vm_sched_statistics = 8" "cty_ok vm_sched_statistics"
  by (simp_all add: vm_sched_statistics_def layout_simps)

definition vm_hlist_head :: cty where
  "vm_hlist_head = CStruct [
    Field ''first'' CPtr]"

lemma vm_hlist_head_layout [layout_simps]: "csize vm_hlist_head = 8" "calign vm_hlist_head = 8" "cty_ok vm_hlist_head"
  by (simp_all add: vm_hlist_head_def layout_simps)

definition vm_cpumask :: cty where
  "vm_cpumask = CStruct [
    Field ''bits'' (CArr 128 (CInt 8))]"

lemma vm_cpumask_layout [layout_simps]: "csize vm_cpumask = 1024" "calign vm_cpumask = 8" "cty_ok vm_cpumask"
  by (simp_all add: vm_cpumask_def layout_simps)

definition vm_rcu_special :: cty where
  "vm_rcu_special = CUnion [
    Field ''b'' (CStruct [Field ''blocked'' (CInt 1), Field ''need_qs'' (CInt 1), Field ''exp_hint'' (CInt 1), Field ''need_mb'' (CInt 1)]),
    Field ''s'' (CInt 4)]"

lemma vm_rcu_special_layout [layout_simps]: "csize vm_rcu_special = 4" "calign vm_rcu_special = 4" "cty_ok vm_rcu_special"
  by (simp_all add: vm_rcu_special_def layout_simps)

definition vm_timespec64 :: cty where
  "vm_timespec64 = CStruct [
    Field ''tv_sec'' (CInt 8), Field ''tv_nsec'' (CInt 8)]"

lemma vm_timespec64_layout [layout_simps]: "csize vm_timespec64 = 16" "calign vm_timespec64 = 8" "cty_ok vm_timespec64"
  by (simp_all add: vm_timespec64_def layout_simps)

definition vm_sched_info :: cty where
  "vm_sched_info = CStruct [
    Field ''pcount'' (CInt 8), Field ''run_delay'' (CInt 8), Field ''max_run_delay'' (CInt 8),
    Field ''min_run_delay'' (CInt 8), Field ''last_arrival'' (CInt 8),
    Field ''last_queued'' (CInt 8), Field ''max_run_delay_ts'' vm_timespec64]"

lemma vm_sched_info_layout [layout_simps]: "csize vm_sched_info = 64" "calign vm_sched_info = 8" "cty_ok vm_sched_info"
  by (simp_all add: vm_sched_info_def layout_simps)

definition vm_plist_node :: cty where
  "vm_plist_node = CStruct [
    Field ''prio'' (CInt 4), Field ''prio_list'' vm_list_head, Field ''node_list'' vm_list_head]"

lemma vm_plist_node_layout [layout_simps]: "csize vm_plist_node = 40" "calign vm_plist_node = 8" "cty_ok vm_plist_node"
  by (simp_all add: vm_plist_node_def layout_simps)

definition vm_restart_block :: cty where
  "vm_restart_block = CStruct [
    Field ''arch_data'' (CInt 8), Field ''fn'' CPtr,
    Field [] (CUnion [Field ''futex'' (CStruct [Field ''uaddr'' CPtr, Field ''val'' (CInt 4), Field ''flags'' (CInt 4), Field ''bitset'' (CInt 4), Field ''time'' (CInt 8), Field ''uaddr2'' CPtr]), Field ''nanosleep'' (CStruct [Field ''clockid'' (CInt 4), Field ''type'' (CInt 4), Field [] (CUnion [Field ''rmtp'' CPtr, Field ''compat_rmtp'' CPtr]), Field ''expires'' (CInt 8)]), Field ''poll'' (CStruct [Field ''ufds'' CPtr, Field ''nfds'' (CInt 4), Field ''has_timeout'' (CInt 4), Field ''end_time'' vm_timespec64])])]"

lemma vm_restart_block_layout [layout_simps]: "csize vm_restart_block = 56" "calign vm_restart_block = 8" "cty_ok vm_restart_block"
  by (simp_all add: vm_restart_block_def layout_simps)

definition vm_hlist_node :: cty where
  "vm_hlist_node = CStruct [
    Field ''next'' CPtr, Field ''pprev'' CPtr]"

lemma vm_hlist_node_layout [layout_simps]: "csize vm_hlist_node = 16" "calign vm_hlist_node = 8" "cty_ok vm_hlist_node"
  by (simp_all add: vm_hlist_node_def layout_simps)

definition vm_qspinlock :: cty where
  "vm_qspinlock = CStruct [
    Field [] (CUnion [Field ''val'' vm_atomic_t, Field [] (CStruct [Field ''locked'' (CInt 1), Field ''pending'' (CInt 1)]), Field [] (CStruct [Field ''locked_pending'' (CInt 2), Field ''tail'' (CInt 2)])])]"

lemma vm_qspinlock_layout [layout_simps]: "csize vm_qspinlock = 4" "calign vm_qspinlock = 4" "cty_ok vm_qspinlock"
  by (simp_all add: vm_qspinlock_def layout_simps)

definition vm_raw_spinlock :: cty where
  "vm_raw_spinlock = CStruct [
    Field ''raw_lock'' vm_qspinlock]"

lemma vm_raw_spinlock_layout [layout_simps]: "csize vm_raw_spinlock = 4" "calign vm_raw_spinlock = 4" "cty_ok vm_raw_spinlock"
  by (simp_all add: vm_raw_spinlock_def layout_simps)

definition vm_prev_cputime :: cty where
  "vm_prev_cputime = CStruct [
    Field ''utime'' (CInt 8), Field ''stime'' (CInt 8), Field ''lock'' vm_raw_spinlock]"

lemma vm_prev_cputime_layout [layout_simps]: "csize vm_prev_cputime = 24" "calign vm_prev_cputime = 8" "cty_ok vm_prev_cputime"
  by (simp_all add: vm_prev_cputime_def layout_simps)

definition vm_seqcount :: cty where
  "vm_seqcount = CStruct [
    Field ''sequence'' (CInt 4)]"

lemma vm_seqcount_layout [layout_simps]: "csize vm_seqcount = 4" "calign vm_seqcount = 4" "cty_ok vm_seqcount"
  by (simp_all add: vm_seqcount_def layout_simps)

definition vm_vtime :: cty where
  "vm_vtime = CStruct [
    Field ''seqcount'' vm_seqcount, Field ''starttime'' (CInt 8), Field ''state'' (CInt 4),
    Field ''cpu'' (CInt 4), Field ''utime'' (CInt 8), Field ''stime'' (CInt 8),
    Field ''gtime'' (CInt 8)]"

lemma vm_vtime_layout [layout_simps]: "csize vm_vtime = 48" "calign vm_vtime = 8" "cty_ok vm_vtime"
  by (simp_all add: vm_vtime_def layout_simps)

definition vm_rb_root :: cty where
  "vm_rb_root = CStruct [
    Field ''rb_node'' CPtr]"

lemma vm_rb_root_layout [layout_simps]: "csize vm_rb_root = 8" "calign vm_rb_root = 8" "cty_ok vm_rb_root"
  by (simp_all add: vm_rb_root_def layout_simps)

definition vm_rb_root_cached :: cty where
  "vm_rb_root_cached = CStruct [
    Field ''rb_root'' vm_rb_root, Field ''rb_leftmost'' CPtr]"

lemma vm_rb_root_cached_layout [layout_simps]: "csize vm_rb_root_cached = 16" "calign vm_rb_root_cached = 8" "cty_ok vm_rb_root_cached"
  by (simp_all add: vm_rb_root_cached_def layout_simps)

definition vm_timerqueue_head :: cty where
  "vm_timerqueue_head = CStruct [
    Field ''rb_root'' vm_rb_root_cached]"

lemma vm_timerqueue_head_layout [layout_simps]: "csize vm_timerqueue_head = 16" "calign vm_timerqueue_head = 8" "cty_ok vm_timerqueue_head"
  by (simp_all add: vm_timerqueue_head_def layout_simps)

definition vm_posix_cputimer_base :: cty where
  "vm_posix_cputimer_base = CStruct [
    Field ''nextevt'' (CInt 8), Field ''tqhead'' vm_timerqueue_head]"

lemma vm_posix_cputimer_base_layout [layout_simps]: "csize vm_posix_cputimer_base = 24" "calign vm_posix_cputimer_base = 8" "cty_ok vm_posix_cputimer_base"
  by (simp_all add: vm_posix_cputimer_base_def layout_simps)

definition vm_posix_cputimers :: cty where
  "vm_posix_cputimers = CStruct [
    Field ''bases'' (CArr 3 vm_posix_cputimer_base), Field ''timers_active'' (CInt 4),
    Field ''expiry_active'' (CInt 4)]"

lemma vm_posix_cputimers_layout [layout_simps]: "csize vm_posix_cputimers = 80" "calign vm_posix_cputimers = 8" "cty_ok vm_posix_cputimers"
  by (simp_all add: vm_posix_cputimers_def layout_simps)

definition vm_optimistic_spin_queue :: cty where
  "vm_optimistic_spin_queue = CStruct [
    Field ''tail'' vm_atomic_t]"

lemma vm_optimistic_spin_queue_layout [layout_simps]: "csize vm_optimistic_spin_queue = 4" "calign vm_optimistic_spin_queue = 4" "cty_ok vm_optimistic_spin_queue"
  by (simp_all add: vm_optimistic_spin_queue_def layout_simps)

definition vm_mutex :: cty where
  "vm_mutex = CStruct [
    Field ''owner'' vm_atomic64_t, Field ''wait_lock'' vm_raw_spinlock,
    Field ''osq'' vm_optimistic_spin_queue, Field ''wait_list'' vm_list_head]"

lemma vm_mutex_layout [layout_simps]: "csize vm_mutex = 32" "calign vm_mutex = 8" "cty_ok vm_mutex"
  by (simp_all add: vm_mutex_def layout_simps)

definition vm_posix_cputimers_work :: cty where
  "vm_posix_cputimers_work = CStruct [
    Field ''work'' vm_callback_head, Field ''mutex'' vm_mutex, Field ''scheduled'' (CInt 4)]"

lemma vm_posix_cputimers_work_layout [layout_simps]: "csize vm_posix_cputimers_work = 56" "calign vm_posix_cputimers_work = 8" "cty_ok vm_posix_cputimers_work"
  by (simp_all add: vm_posix_cputimers_work_def layout_simps)

definition vm_sysv_sem :: cty where
  "vm_sysv_sem = CStruct [
    Field ''undo_list'' CPtr]"

lemma vm_sysv_sem_layout [layout_simps]: "csize vm_sysv_sem = 8" "calign vm_sysv_sem = 8" "cty_ok vm_sysv_sem"
  by (simp_all add: vm_sysv_sem_def layout_simps)

definition vm_sysv_shm :: cty where
  "vm_sysv_shm = CStruct [
    Field ''shm_clist'' vm_list_head]"

lemma vm_sysv_shm_layout [layout_simps]: "csize vm_sysv_shm = 16" "calign vm_sysv_shm = 8" "cty_ok vm_sysv_shm"
  by (simp_all add: vm_sysv_shm_def layout_simps)

definition vm_sigset_t :: cty where
  "vm_sigset_t = CStruct [
    Field ''sig'' (CArr 1 (CInt 8))]"

lemma vm_sigset_t_layout [layout_simps]: "csize vm_sigset_t = 8" "calign vm_sigset_t = 8" "cty_ok vm_sigset_t"
  by (simp_all add: vm_sigset_t_def layout_simps)

definition vm_sigpending :: cty where
  "vm_sigpending = CStruct [
    Field ''list'' vm_list_head, Field ''signal'' vm_sigset_t]"

lemma vm_sigpending_layout [layout_simps]: "csize vm_sigpending = 24" "calign vm_sigpending = 8" "cty_ok vm_sigpending"
  by (simp_all add: vm_sigpending_def layout_simps)

definition vm_kuid_t :: cty where
  "vm_kuid_t = CStruct [
    Field ''val'' (CInt 4)]"

lemma vm_kuid_t_layout [layout_simps]: "csize vm_kuid_t = 4" "calign vm_kuid_t = 4" "cty_ok vm_kuid_t"
  by (simp_all add: vm_kuid_t_def layout_simps)

definition vm_seccomp :: cty where
  "vm_seccomp = CStruct [
    Field ''mode'' (CInt 4), Field ''filter_count'' vm_atomic_t, Field ''filter'' CPtr]"

lemma vm_seccomp_layout [layout_simps]: "csize vm_seccomp = 16" "calign vm_seccomp = 8" "cty_ok vm_seccomp"
  by (simp_all add: vm_seccomp_def layout_simps)

definition vm_syscall_user_dispatch :: cty where
  "vm_syscall_user_dispatch = CStruct [
    Field ''selector'' CPtr, Field ''offset'' (CInt 8), Field ''len'' (CInt 8),
    Field ''on_dispatch'' (CInt 1)]"

lemma vm_syscall_user_dispatch_layout [layout_simps]: "csize vm_syscall_user_dispatch = 32" "calign vm_syscall_user_dispatch = 8" "cty_ok vm_syscall_user_dispatch"
  by (simp_all add: vm_syscall_user_dispatch_def layout_simps)

definition vm_spinlock :: cty where
  "vm_spinlock = CStruct [
    Field [] (CUnion [Field ''rlock'' vm_raw_spinlock])]"

lemma vm_spinlock_layout [layout_simps]: "csize vm_spinlock = 4" "calign vm_spinlock = 4" "cty_ok vm_spinlock"
  by (simp_all add: vm_spinlock_def layout_simps)

definition vm_wake_q_node :: cty where
  "vm_wake_q_node = CStruct [
    Field ''next'' CPtr]"

lemma vm_wake_q_node_layout [layout_simps]: "csize vm_wake_q_node = 8" "calign vm_wake_q_node = 8" "cty_ok vm_wake_q_node"
  by (simp_all add: vm_wake_q_node_def layout_simps)

definition vm_task_io_accounting :: cty where
  "vm_task_io_accounting = CStruct [
    Field ''rchar'' (CInt 8), Field ''wchar'' (CInt 8), Field ''syscr'' (CInt 8),
    Field ''syscw'' (CInt 8), Field ''read_bytes'' (CInt 8), Field ''write_bytes'' (CInt 8),
    Field ''cancelled_write_bytes'' (CInt 8)]"

lemma vm_task_io_accounting_layout [layout_simps]: "csize vm_task_io_accounting = 56" "calign vm_task_io_accounting = 8" "cty_ok vm_task_io_accounting"
  by (simp_all add: vm_task_io_accounting_def layout_simps)

definition vm_nodemask_t :: cty where
  "vm_nodemask_t = CStruct [
    Field ''bits'' (CArr 16 (CInt 8))]"

lemma vm_nodemask_t_layout [layout_simps]: "csize vm_nodemask_t = 128" "calign vm_nodemask_t = 8" "cty_ok vm_nodemask_t"
  by (simp_all add: vm_nodemask_t_def layout_simps)

definition vm_seqcount_spinlock :: cty where
  "vm_seqcount_spinlock = CStruct [
    Field ''seqcount'' vm_seqcount]"

lemma vm_seqcount_spinlock_layout [layout_simps]: "csize vm_seqcount_spinlock = 4" "calign vm_seqcount_spinlock = 4" "cty_ok vm_seqcount_spinlock"
  by (simp_all add: vm_seqcount_spinlock_def layout_simps)

definition vm_rseq_event :: cty where
  "vm_rseq_event = CStruct [
    Field [] (CUnion [Field ''all'' (CInt 8), Field [] (CStruct [Field [] (CUnion [Field ''events'' (CInt 4), Field [] (CStruct [Field ''sched_switch'' (CInt 1), Field ''ids_changed'' (CInt 1), Field ''user_irq'' (CInt 1)])]), Field ''has_rseq'' (CInt 1), Field ''__pad'' (CInt 1), Field [] (CUnion [Field ''error'' (CInt 2), Field [] (CStruct [Field ''fatal'' (CInt 1), Field ''slowpath'' (CInt 1)])])])])]"

lemma vm_rseq_event_layout [layout_simps]: "csize vm_rseq_event = 8" "calign vm_rseq_event = 8" "cty_ok vm_rseq_event"
  by (simp_all add: vm_rseq_event_def layout_simps)

definition vm_rseq_ids :: cty where
  "vm_rseq_ids = CStruct [
    Field [] (CUnion [Field ''cpu_cid'' (CInt 8), Field [] (CStruct [Field ''cpu_id'' (CInt 4), Field ''mm_cid'' (CInt 4)])]),
    Field ''node_id'' (CInt 4)]"

lemma vm_rseq_ids_layout [layout_simps]: "csize vm_rseq_ids = 16" "calign vm_rseq_ids = 8" "cty_ok vm_rseq_ids"
  by (simp_all add: vm_rseq_ids_def layout_simps)

definition vm_rseq_data :: cty where
  "vm_rseq_data = CStruct [
    Field ''usrptr'' CPtr, Field ''len'' (CInt 4), Field ''sig'' (CInt 4),
    Field ''event'' vm_rseq_event, Field ''ids'' vm_rseq_ids]"

lemma vm_rseq_data_layout [layout_simps]: "csize vm_rseq_data = 40" "calign vm_rseq_data = 8" "cty_ok vm_rseq_data"
  by (simp_all add: vm_rseq_data_def layout_simps)

definition vm_sched_mm_cid :: cty where
  "vm_sched_mm_cid = CStruct [
    Field ''active'' (CInt 4), Field ''cid'' (CInt 4), Field ''node'' vm_hlist_node]"

lemma vm_sched_mm_cid_layout [layout_simps]: "csize vm_sched_mm_cid = 24" "calign vm_sched_mm_cid = 8" "cty_ok vm_sched_mm_cid"
  by (simp_all add: vm_sched_mm_cid_def layout_simps)

definition vm_arch_tlbflush_unmap_batch :: cty where
  "vm_arch_tlbflush_unmap_batch = CStruct [
    Field ''cpumask'' vm_cpumask, Field ''unmapped_pages'' (CInt 1)]"

lemma vm_arch_tlbflush_unmap_batch_layout [layout_simps]: "csize vm_arch_tlbflush_unmap_batch = 1032" "calign vm_arch_tlbflush_unmap_batch = 8" "cty_ok vm_arch_tlbflush_unmap_batch"
  by (simp_all add: vm_arch_tlbflush_unmap_batch_def layout_simps)

definition vm_tlbflush_unmap_batch :: cty where
  "vm_tlbflush_unmap_batch = CStruct [
    Field ''arch'' vm_arch_tlbflush_unmap_batch, Field ''flush_required'' (CInt 1),
    Field ''writable'' (CInt 1)]"

lemma vm_tlbflush_unmap_batch_layout [layout_simps]: "csize vm_tlbflush_unmap_batch = 1040" "calign vm_tlbflush_unmap_batch = 8" "cty_ok vm_tlbflush_unmap_batch"
  by (simp_all add: vm_tlbflush_unmap_batch_def layout_simps)

definition vm_page_frag :: cty where
  "vm_page_frag = CStruct [
    Field ''page'' CPtr, Field ''offset'' (CInt 4), Field ''size'' (CInt 4)]"

lemma vm_page_frag_layout [layout_simps]: "csize vm_page_frag = 16" "calign vm_page_frag = 8" "cty_ok vm_page_frag"
  by (simp_all add: vm_page_frag_def layout_simps)

definition vm_lazy_mmu_state :: cty where
  "vm_lazy_mmu_state = CStruct [
    Field ''enable_count'' (CInt 1), Field ''pause_count'' (CInt 1)]"

lemma vm_lazy_mmu_state_layout [layout_simps]: "csize vm_lazy_mmu_state = 2" "calign vm_lazy_mmu_state = 1" "cty_ok vm_lazy_mmu_state"
  by (simp_all add: vm_lazy_mmu_state_def layout_simps)

definition vm_kmap_ctrl :: cty where
  "vm_kmap_ctrl = CStruct []"

lemma vm_kmap_ctrl_layout [layout_simps]: "csize vm_kmap_ctrl = 0" "calign vm_kmap_ctrl = 1" "cty_ok vm_kmap_ctrl"
  by (simp_all add: vm_kmap_ctrl_def layout_simps)

definition vm_timer_list :: cty where
  "vm_timer_list = CStruct [
    Field ''entry'' vm_hlist_node, Field ''expires'' (CInt 8), Field ''function'' CPtr,
    Field ''flags'' (CInt 4)]"

lemma vm_timer_list_layout [layout_simps]: "csize vm_timer_list = 40" "calign vm_timer_list = 8" "cty_ok vm_timer_list"
  by (simp_all add: vm_timer_list_def layout_simps)

definition vm_llist_head :: cty where
  "vm_llist_head = CStruct [
    Field ''first'' CPtr]"

lemma vm_llist_head_layout [layout_simps]: "csize vm_llist_head = 8" "calign vm_llist_head = 8" "cty_ok vm_llist_head"
  by (simp_all add: vm_llist_head_def layout_simps)

definition vm_unwind_task_id :: cty where
  "vm_unwind_task_id = CUnion [
    Field [] (CStruct [Field ''cpu'' (CInt 4), Field ''cnt'' (CInt 4)]), Field ''id'' (CInt 8)]"

lemma vm_unwind_task_id_layout [layout_simps]: "csize vm_unwind_task_id = 8" "calign vm_unwind_task_id = 8" "cty_ok vm_unwind_task_id"
  by (simp_all add: vm_unwind_task_id_def layout_simps)

definition vm_unwind_task_info :: cty where
  "vm_unwind_task_info = CStruct [
    Field ''unwind_mask'' vm_atomic64_t, Field ''cache'' CPtr, Field ''work'' vm_callback_head,
    Field ''id'' vm_unwind_task_id]"

lemma vm_unwind_task_info_layout [layout_simps]: "csize vm_unwind_task_info = 40" "calign vm_unwind_task_info = 8" "cty_ok vm_unwind_task_info"
  by (simp_all add: vm_unwind_task_info_def layout_simps)

definition vm_desc_struct :: cty where
  "vm_desc_struct = CStruct [
    Field ''limit0'' (CInt 2), Field ''base0'' (CInt 2), Bits ''base1'' 2 8, Bits ''type'' 2 4,
    Bits ''s'' 2 1, Bits ''dpl'' 2 2, Bits ''p'' 2 1, Bits ''limit1'' 2 4, Bits ''avl'' 2 1,
    Bits ''l'' 2 1, Bits ''d'' 2 1, Bits ''g'' 2 1, Bits ''base2'' 2 8]"

lemma vm_desc_struct_layout [layout_simps]: "csize vm_desc_struct = 8" "calign vm_desc_struct = 2" "cty_ok vm_desc_struct"
  by (simp_all add: vm_desc_struct_def layout_simps)

definition vm_thread_shstk :: cty where
  "vm_thread_shstk = CStruct [
    Field ''base'' (CInt 8), Field ''size'' (CInt 8)]"

lemma vm_thread_shstk_layout [layout_simps]: "csize vm_thread_shstk = 16" "calign vm_thread_shstk = 8" "cty_ok vm_thread_shstk"
  by (simp_all add: vm_thread_shstk_def layout_simps)

definition vm_thread_struct :: cty where
  "vm_thread_struct = CStruct [
    Field ''tls_array'' (CArr 3 vm_desc_struct), Field ''sp'' (CInt 8), Field ''es'' (CInt 2),
    Field ''ds'' (CInt 2), Field ''fsindex'' (CInt 2), Field ''gsindex'' (CInt 2),
    Field ''fsbase'' (CInt 8), Field ''gsbase'' (CInt 8), Field ''ptrace_bps'' (CArr 4 CPtr),
    Field ''virtual_dr6'' (CInt 8), Field ''ptrace_dr7'' (CInt 8), Field ''cr2'' (CInt 8),
    Field ''trap_nr'' (CInt 8), Field ''error_code'' (CInt 8), Field ''io_bitmap'' CPtr,
    Field ''iopl_emul'' (CInt 8), Bits ''iopl_warn'' 4 1, Field ''pkru'' (CInt 4),
    Field ''features'' (CInt 8), Field ''features_locked'' (CInt 8), Field ''shstk'' vm_thread_shstk]"

lemma vm_thread_struct_layout [layout_simps]: "csize vm_thread_struct = 184" "calign vm_thread_struct = 8" "cty_ok vm_thread_struct"
  by (simp_all add: vm_thread_struct_def layout_simps)

definition vm_task_struct_head :: "member list" where
  "vm_task_struct_head = [
    Field ''thread_info'' vm_thread_info, Field ''__state'' (CInt 4),
    Field ''saved_state'' (CInt 4), Field ''stack'' CPtr, Field ''usage'' vm_refcount_struct,
    Field ''flags'' (CInt 4), Field ''ptrace'' (CInt 4), Field ''on_cpu'' (CInt 4),
    Field ''wake_entry'' vm_call_single_node, Field ''wakee_flips'' (CInt 4),
    Field ''wakee_flip_decay_ts'' (CInt 8), Field ''last_wakee'' CPtr,
    Field ''recent_used_cpu'' (CInt 4), Field ''wake_cpu'' (CInt 4), Field ''on_rq'' (CInt 4),
    Field ''prio'' (CInt 4), Field ''static_prio'' (CInt 4), Field ''normal_prio'' (CInt 4),
    Field ''rt_priority'' (CInt 4), Field ''se'' vm_sched_entity, Field ''rt'' vm_sched_rt_entity,
    Field ''dl'' vm_sched_dl_entity, Field ''dl_server'' CPtr, Field ''scx'' vm_sched_ext_entity,
    Field ''sched_class'' CPtr, Field ''sched_task_group'' CPtr,
    Field ''sched_throttle_work'' vm_callback_head, Field ''throttle_node'' vm_list_head,
    Field ''throttled'' (CInt 1), Field ''uclamp_req'' (CArr 2 vm_uclamp_se),
    Field ''uclamp'' (CArr 2 vm_uclamp_se), Bits [] 8 64, Field ''stats'' vm_sched_statistics,
    Field ''preempt_notifiers'' vm_hlist_head, Field ''btrace_seq'' (CInt 4),
    Field ''policy'' (CInt 4), Field ''max_allowed_capacity'' (CInt 8),
    Field ''nr_cpus_allowed'' (CInt 4), Field ''cpus_ptr'' CPtr, Field ''user_cpus_ptr'' CPtr,
    Field ''cpus_mask'' vm_cpumask, Field ''migration_pending'' CPtr,
    Field ''migration_disabled'' (CInt 2), Field ''migration_flags'' (CInt 2),
    Field ''rcu_read_lock_nesting'' (CInt 4), Field ''rcu_read_unlock_special'' vm_rcu_special,
    Field ''rcu_node_entry'' vm_list_head, Field ''rcu_blocked_node'' CPtr,
    Field ''rcu_tasks_nvcsw'' (CInt 8), Field ''rcu_tasks_holdout'' (CInt 1),
    Field ''rcu_tasks_idx'' (CInt 1), Field ''rcu_tasks_idle_cpu'' (CInt 4),
    Field ''rcu_tasks_holdout_list'' vm_list_head, Field ''rcu_tasks_exit_cpu'' (CInt 4),
    Field ''rcu_tasks_exit_list'' vm_list_head, Field ''trc_reader_nesting'' (CInt 4),
    Field ''trc_reader_scp'' CPtr, Field ''sched_info'' vm_sched_info, Field ''tasks'' vm_list_head,
    Field ''pushable_tasks'' vm_plist_node, Field ''pushable_dl_tasks'' vm_rb_node,
    Field ''mm'' CPtr, Field ''active_mm'' CPtr, Field ''exit_state'' (CInt 4),
    Field ''exit_code'' (CInt 4), Field ''exit_signal'' (CInt 4), Field ''pdeath_signal'' (CInt 4),
    Field ''jobctl'' (CInt 8), Field ''personality'' (CInt 4), Bits ''sched_reset_on_fork'' 4 1,
    Bits ''sched_contributes_to_load'' 4 1, Bits ''sched_migrated'' 4 1,
    Bits ''sched_task_hot'' 4 1, Bits [] 8 28, Bits ''sched_remote_wakeup'' 4 1,
    Bits ''sched_rt_mutex'' 4 1, Bits ''user_dumpable'' 4 1, Bits ''in_execve'' 4 1,
    Bits ''in_iowait'' 4 1, Bits ''restore_sigmask'' 4 1, Bits ''in_lru_fault'' 4 1,
    Bits ''no_cgroup_migration'' 4 1, Bits ''frozen'' 4 1, Bits ''use_memdelay'' 4 1,
    Bits ''in_memstall'' 4 1, Bits ''in_eventfd'' 4 1, Bits ''pasid_activated'' 4 1,
    Bits ''reported_split_lock'' 4 1, Bits ''in_thrashing'' 4 1, Bits ''in_nf_duplicate'' 4 1,
    Field ''atomic_flags'' (CInt 8), Field ''restart_block'' vm_restart_block,
    Field ''pid'' (CInt 4), Field ''tgid'' (CInt 4), Field ''stack_canary'' (CInt 8),
    Field ''real_parent'' CPtr, Field ''parent'' CPtr, Field ''children'' vm_list_head,
    Field ''sibling'' vm_list_head, Field ''group_leader'' CPtr, Field ''ptraced'' vm_list_head,
    Field ''ptrace_entry'' vm_list_head, Field ''thread_pid'' CPtr,
    Field ''pid_links'' (CArr 4 vm_hlist_node), Field ''thread_node'' vm_list_head,
    Field ''vfork_done'' CPtr, Field ''set_child_tid'' CPtr, Field ''clear_child_tid'' CPtr,
    Field ''worker_private'' CPtr, Field ''utime'' (CInt 8), Field ''stime'' (CInt 8),
    Field ''gtime'' (CInt 8), Field ''prev_cputime'' vm_prev_cputime, Field ''vtime'' vm_vtime,
    Field ''tick_dep_mask'' vm_atomic_t, Field ''nvcsw'' (CInt 8), Field ''nivcsw'' (CInt 8),
    Field ''start_time'' (CInt 8), Field ''start_boottime'' (CInt 8), Field ''min_flt'' (CInt 8),
    Field ''maj_flt'' (CInt 8), Field ''posix_cputimers'' vm_posix_cputimers,
    Field ''posix_cputimers_work'' vm_posix_cputimers_work, Field ''ptracer_cred'' CPtr,
    Field ''real_cred'' CPtr, Field ''cred'' CPtr, Field ''cached_requested_key'' CPtr,
    Field ''comm'' (CArr 16 (CInt 1)), Field ''nameidata'' CPtr, Field ''sysvsem'' vm_sysv_sem,
    Field ''sysvshm'' vm_sysv_shm, Field ''last_switch_count'' (CInt 8),
    Field ''last_switch_time'' (CInt 8), Field ''fs'' CPtr, Field ''files'' CPtr,
    Field ''io_uring'' CPtr, Field ''io_uring_restrict'' CPtr, Field ''nsproxy'' CPtr,
    Field ''signal'' CPtr, Field ''sighand'' CPtr, Field ''blocked'' vm_sigset_t,
    Field ''real_blocked'' vm_sigset_t, Field ''saved_sigmask'' vm_sigset_t,
    Field ''pending'' vm_sigpending, Field ''sas_ss_sp'' (CInt 8), Field ''sas_ss_size'' (CInt 8),
    Field ''sas_ss_flags'' (CInt 4), Field ''task_works'' CPtr]"

lemma vm_task_struct_head_end [layout_simps]: "struct_end 0 vm_task_struct_head = 27840"
  by (simp add: vm_task_struct_head_def layout_simps)

definition vm_task_struct_tail :: "member list" where
  "vm_task_struct_tail = [
    Field ''audit_context'' CPtr, Field ''loginuid'' vm_kuid_t, Field ''sessionid'' (CInt 4),
    Field ''seccomp'' vm_seccomp, Field ''syscall_dispatch'' vm_syscall_user_dispatch,
    Field ''parent_exec_id'' (CInt 8), Field ''self_exec_id'' (CInt 8),
    Field ''alloc_lock'' vm_spinlock, Field ''pi_lock'' vm_raw_spinlock,
    Field ''wake_q'' vm_wake_q_node, Field ''pi_waiters'' vm_rb_root_cached,
    Field ''pi_top_task'' CPtr, Field ''pi_blocked_on'' CPtr, Field ''blocked_on'' CPtr,
    Field ''blocker'' (CInt 8), Field ''in_ubsan'' (CInt 4), Field ''journal_info'' CPtr,
    Field ''bio_list'' CPtr, Field ''plug'' CPtr, Field ''reclaim_state'' CPtr,
    Field ''io_context'' CPtr, Field ''capture_control'' CPtr, Field ''ptrace_message'' (CInt 8),
    Field ''last_siginfo'' CPtr, Field ''ioac'' vm_task_io_accounting, Field ''psi_flags'' (CInt 4),
    Field ''acct_rss_mem1'' (CInt 8), Field ''acct_vm_mem1'' (CInt 8),
    Field ''acct_timexpd'' (CInt 8), Field ''mems_allowed'' vm_nodemask_t,
    Field ''mems_allowed_seq'' vm_seqcount_spinlock, Field ''cpuset_mem_spread_rotor'' (CInt 4),
    Field ''cgroups'' CPtr, Field ''cg_list'' vm_list_head, Field ''closid'' (CInt 4),
    Field ''rmid'' (CInt 4), Field ''robust_list'' CPtr, Field ''compat_robust_list'' CPtr,
    Field ''pi_state_list'' vm_list_head, Field ''pi_state_cache'' CPtr,
    Field ''futex_exit_mutex'' vm_mutex, Field ''futex_state'' (CInt 4),
    Field ''perf_recursion'' (CArr 4 (CInt 1)), Field ''perf_event_ctxp'' CPtr,
    Field ''perf_event_mutex'' vm_mutex, Field ''perf_event_list'' vm_list_head,
    Field ''perf_ctx_data'' CPtr, Field ''mempolicy'' CPtr, Field ''il_prev'' (CInt 2),
    Field ''il_weight'' (CInt 1), Field ''pref_node_fork'' (CInt 2),
    Field ''numa_scan_seq'' (CInt 4), Field ''numa_scan_period'' (CInt 4),
    Field ''numa_scan_period_max'' (CInt 4), Field ''numa_preferred_nid'' (CInt 4),
    Field ''numa_migrate_retry'' (CInt 8), Field ''node_stamp'' (CInt 8),
    Field ''last_task_numa_placement'' (CInt 8), Field ''last_sum_exec_runtime'' (CInt 8),
    Field ''numa_work'' vm_callback_head, Field ''numa_group'' CPtr, Field ''numa_faults'' CPtr,
    Field ''total_numa_faults'' (CInt 8), Field ''numa_faults_locality'' (CArr 3 (CInt 8)),
    Field ''numa_pages_migrated'' (CInt 8), Field ''rseq'' vm_rseq_data,
    Field ''mm_cid'' vm_sched_mm_cid, Field ''tlb_ubc'' vm_tlbflush_unmap_batch,
    Field ''splice_pipe'' CPtr, Field ''task_frag'' vm_page_frag,
    Field ''lazy_mmu_state'' vm_lazy_mmu_state, Field ''delays'' CPtr,
    Field ''nr_dirtied'' (CInt 4), Field ''nr_dirtied_pause'' (CInt 4),
    Field ''dirty_paused_when'' (CInt 8), Field ''timer_slack_ns'' (CInt 8),
    Field ''default_timer_slack_ns'' (CInt 8), Field ''curr_ret_stack'' (CInt 4),
    Field ''curr_ret_depth'' (CInt 4), Field ''ret_stack'' CPtr,
    Field ''ftrace_timestamp'' (CInt 8), Field ''ftrace_sleeptime'' (CInt 8),
    Field ''trace_overrun'' vm_atomic_t, Field ''tracing_graph_pause'' vm_atomic_t,
    Field ''trace_recursion'' (CInt 8), Field ''memcg_nr_pages_over_high'' (CInt 4),
    Field ''active_memcg'' CPtr, Field ''objcg'' CPtr, Field ''throttle_disk'' CPtr,
    Field ''utask'' CPtr, Field ''sequential_io'' (CInt 4), Field ''sequential_io_avg'' (CInt 4),
    Field ''kmap_ctrl'' vm_kmap_ctrl, Field ''rcu'' vm_callback_head,
    Field ''rcu_users'' vm_refcount_struct, Field ''pagefault_disabled'' (CInt 4),
    Field ''oom_reaper_list'' CPtr, Field ''oom_reaper_timer'' vm_timer_list,
    Field ''stack_vm_area'' CPtr, Field ''stack_refcount'' vm_refcount_struct,
    Field ''patch_state'' (CInt 4), Field ''security'' CPtr, Field ''bpf_storage'' CPtr,
    Field ''bpf_ctx'' CPtr, Field ''bpf_net_context'' CPtr, Field ''kstack_offset'' (CInt 4),
    Field ''mce_vaddr'' CPtr, Field ''mce_kflags'' (CInt 8), Field ''mce_addr'' (CInt 8),
    Bits ''mce_ripv'' 8 1, Bits ''mce_whole_page'' 8 1, Bits ''__mce_reserved'' 8 62,
    Field ''mce_kill_me'' vm_callback_head, Field ''mce_count'' (CInt 4),
    Field ''kretprobe_instances'' vm_llist_head, Field ''rethooks'' vm_llist_head,
    Field ''l1d_flush_kill'' vm_callback_head, Field ''unwind_info'' vm_unwind_task_info,
    Field ''thread'' vm_thread_struct, Bits [] 8 64]"

definition vm_task_struct :: cty where
  "vm_task_struct = CStruct (vm_task_struct_head @ vm_task_struct_tail)"

lemma vm_task_struct_layout [layout_simps]: "csize vm_task_struct = 5952" "calign vm_task_struct = 8" "cty_ok vm_task_struct"
  by (simp_all add: vm_task_struct_def struct_end_append layout_simps)
    (simp_all add: vm_task_struct_head_def vm_task_struct_tail_def layout_simps)

end
