(* ===== verification/Vmlinux.thy ===== *)
theory Vmlinux
  imports Vmlinux_Task
begin

text \<open>
  \<open>vmlinux.h\<close>: the files, directory entries, mounts, memory maps, credentials,
  registers and tracepoint contexts the programs read, and the types these contain.
\<close>

definition vm_path :: cty where
  "vm_path = CStruct [
    Field ''mnt'' CPtr, Field ''dentry'' CPtr]"

lemma vm_path_layout [layout_simps]: "csize vm_path = 16" "calign vm_path = 8" "cty_ok vm_path"
  by (simp_all add: vm_path_def layout_simps)

definition vm_file_ra_state :: cty where
  "vm_file_ra_state = CStruct [
    Field ''start'' (CInt 8), Field ''size'' (CInt 4), Field ''async_size'' (CInt 4),
    Field ''ra_pages'' (CInt 4), Field ''order'' (CInt 2), Field ''mmap_miss'' (CInt 2),
    Field ''prev_pos'' (CInt 8)]"

lemma vm_file_ra_state_layout [layout_simps]: "csize vm_file_ra_state = 32" "calign vm_file_ra_state = 8" "cty_ok vm_file_ra_state"
  by (simp_all add: vm_file_ra_state_def layout_simps)

definition vm_freeptr_t :: cty where
  "vm_freeptr_t = CStruct [
    Field ''v'' (CInt 8)]"

lemma vm_freeptr_t_layout [layout_simps]: "csize vm_freeptr_t = 8" "calign vm_freeptr_t = 8" "cty_ok vm_freeptr_t"
  by (simp_all add: vm_freeptr_t_def layout_simps)

definition vm_file_ref_t :: cty where
  "vm_file_ref_t = CStruct [
    Field ''refcnt'' vm_atomic64_t]"

lemma vm_file_ref_t_layout [layout_simps]: "csize vm_file_ref_t = 8" "calign vm_file_ref_t = 8" "cty_ok vm_file_ref_t"
  by (simp_all add: vm_file_ref_t_def layout_simps)

definition vm_file :: cty where
  "vm_file = CStruct [
    Field ''f_lock'' vm_spinlock, Field ''f_mode'' (CInt 4), Field ''f_op'' CPtr,
    Field ''f_mapping'' CPtr, Field ''private_data'' CPtr, Field ''f_inode'' CPtr,
    Field ''f_flags'' (CInt 4), Field ''f_iocb_flags'' (CInt 4), Field ''f_cred'' CPtr,
    Field ''f_owner'' CPtr,
    Field [] (CUnion [Field ''f_path'' vm_path, Field ''__f_path'' vm_path]),
    Field [] (CUnion [Field ''f_pos_lock'' vm_mutex, Field ''f_pipe'' (CInt 8)]),
    Field ''f_pos'' (CInt 8), Field ''f_security'' CPtr, Field ''f_wb_err'' (CInt 4),
    Field ''f_sb_err'' (CInt 4), Field ''f_ep'' CPtr,
    Field [] (CUnion [Field ''f_task_work'' vm_callback_head, Field ''f_llist'' vm_llist_node, Field ''f_ra'' vm_file_ra_state, Field ''f_freeptr'' vm_freeptr_t]),
    Field ''f_ref'' vm_file_ref_t]"

lemma vm_file_layout [layout_simps]: "csize vm_file = 184" "calign vm_file = 8" "cty_ok vm_file"
  by (simp_all add: vm_file_def layout_simps)

definition vm_hlist_bl_node :: cty where
  "vm_hlist_bl_node = CStruct [
    Field ''next'' CPtr, Field ''pprev'' CPtr]"

lemma vm_hlist_bl_node_layout [layout_simps]: "csize vm_hlist_bl_node = 16" "calign vm_hlist_bl_node = 8" "cty_ok vm_hlist_bl_node"
  by (simp_all add: vm_hlist_bl_node_def layout_simps)

definition vm_qstr :: cty where
  "vm_qstr = CStruct [
    Field [] (CUnion [Field [] (CStruct [Field ''hash'' (CInt 4), Field ''len'' (CInt 4)]), Field ''hash_len'' (CInt 8)]),
    Field ''name'' CPtr]"

lemma vm_qstr_layout [layout_simps]: "csize vm_qstr = 16" "calign vm_qstr = 8" "cty_ok vm_qstr"
  by (simp_all add: vm_qstr_def layout_simps)

definition vm_shortname_store :: cty where
  "vm_shortname_store = CUnion [
    Field ''string'' (CArr 40 (CInt 1)), Field ''words'' (CArr 5 (CInt 8))]"

lemma vm_shortname_store_layout [layout_simps]: "csize vm_shortname_store = 40" "calign vm_shortname_store = 8" "cty_ok vm_shortname_store"
  by (simp_all add: vm_shortname_store_def layout_simps)

definition vm_lockref :: cty where
  "vm_lockref = CStruct [
    Field [] (CUnion [Field ''lock_count'' (CInt 8), Field [] (CStruct [Field ''lock'' vm_spinlock, Field ''count'' (CInt 4)])])]"

lemma vm_lockref_layout [layout_simps]: "csize vm_lockref = 8" "calign vm_lockref = 8" "cty_ok vm_lockref"
  by (simp_all add: vm_lockref_def layout_simps)

definition vm_dentry :: cty where
  "vm_dentry = CStruct [
    Field ''d_flags'' (CInt 4), Field ''d_seq'' vm_seqcount_spinlock,
    Field ''d_hash'' vm_hlist_bl_node, Field ''d_parent'' CPtr,
    Field [] (CUnion [Field ''__d_name'' vm_qstr, Field ''d_name'' vm_qstr]),
    Field ''d_inode'' CPtr, Field ''d_shortname'' vm_shortname_store, Field ''d_op'' CPtr,
    Field ''d_sb'' CPtr, Field ''d_time'' (CInt 8), Field ''d_fsdata'' CPtr,
    Field ''d_lockref'' vm_lockref,
    Field [] (CUnion [Field ''d_lru'' vm_list_head, Field ''d_wait'' CPtr]),
    Field ''d_sib'' vm_hlist_node, Field ''d_children'' vm_hlist_head,
    Field ''d_u'' (CUnion [Field ''d_alias'' vm_hlist_node, Field ''d_in_lookup_hash'' vm_hlist_bl_node, Field ''d_rcu'' vm_callback_head])]"

lemma vm_dentry_layout [layout_simps]: "csize vm_dentry = 192" "calign vm_dentry = 8" "cty_ok vm_dentry"
  by (simp_all add: vm_dentry_def layout_simps)

definition vm_vfsmount :: cty where
  "vm_vfsmount = CStruct [
    Field ''mnt_root'' CPtr, Field ''mnt_sb'' CPtr, Field ''mnt_flags'' (CInt 4),
    Field ''mnt_idmap'' CPtr]"

lemma vm_vfsmount_layout [layout_simps]: "csize vm_vfsmount = 32" "calign vm_vfsmount = 8" "cty_ok vm_vfsmount"
  by (simp_all add: vm_vfsmount_def layout_simps)

definition vm_mount :: cty where
  "vm_mount = CStruct [
    Field ''mnt_hash'' vm_hlist_node, Field ''mnt_parent'' CPtr, Field ''mnt_mountpoint'' CPtr,
    Field ''mnt'' vm_vfsmount,
    Field [] (CUnion [Field ''mnt_node'' vm_rb_node, Field ''mnt_rcu'' vm_callback_head, Field ''mnt_llist'' vm_llist_node]),
    Field ''mnt_pcp'' CPtr, Field ''mnt_mounts'' vm_list_head, Field ''mnt_child'' vm_list_head,
    Field ''mnt_next_for_sb'' CPtr, Field ''mnt_pprev_for_sb'' CPtr, Field ''mnt_devname'' CPtr,
    Field ''mnt_list'' vm_list_head, Field ''mnt_expire'' vm_list_head,
    Field ''mnt_share'' vm_list_head, Field ''mnt_slave_list'' vm_hlist_head,
    Field ''mnt_slave'' vm_hlist_node, Field ''mnt_master'' CPtr, Field ''mnt_ns'' CPtr,
    Field ''mnt_mp'' CPtr,
    Field [] (CUnion [Field ''mnt_mp_list'' vm_hlist_node, Field ''mnt_umount'' vm_hlist_node]),
    Field ''mnt_fsnotify_marks'' CPtr, Field ''mnt_fsnotify_mask'' (CInt 4),
    Field ''to_notify'' vm_list_head, Field ''prev_ns'' CPtr, Field ''mnt_t_flags'' (CInt 4),
    Field ''mnt_id'' (CInt 4), Field ''mnt_id_unique'' (CInt 8), Field ''mnt_group_id'' (CInt 4),
    Field ''mnt_expiry_mark'' (CInt 4), Field ''mnt_pins'' vm_hlist_head,
    Field ''mnt_stuck_children'' vm_hlist_head, Field ''overmount'' CPtr]"

lemma vm_mount_layout [layout_simps]: "csize vm_mount = 352" "calign vm_mount = 8" "cty_ok vm_mount"
  by (simp_all add: vm_mount_def layout_simps)

definition vm_kgid_t :: cty where
  "vm_kgid_t = CStruct [
    Field ''val'' (CInt 4)]"

lemma vm_kgid_t_layout [layout_simps]: "csize vm_kgid_t = 4" "calign vm_kgid_t = 4" "cty_ok vm_kgid_t"
  by (simp_all add: vm_kgid_t_def layout_simps)

definition vm_inode_state_flags :: cty where
  "vm_inode_state_flags = CStruct [
    Field ''__state'' (CInt 4)]"

lemma vm_inode_state_flags_layout [layout_simps]: "csize vm_inode_state_flags = 4" "calign vm_inode_state_flags = 4" "cty_ok vm_inode_state_flags"
  by (simp_all add: vm_inode_state_flags_def layout_simps)

definition vm_rw_semaphore :: cty where
  "vm_rw_semaphore = CStruct [
    Field ''count'' vm_atomic64_t, Field ''owner'' vm_atomic64_t,
    Field ''osq'' vm_optimistic_spin_queue, Field ''wait_lock'' vm_raw_spinlock,
    Field ''wait_list'' vm_list_head]"

lemma vm_rw_semaphore_layout [layout_simps]: "csize vm_rw_semaphore = 40" "calign vm_rw_semaphore = 8" "cty_ok vm_rw_semaphore"
  by (simp_all add: vm_rw_semaphore_def layout_simps)

definition vm_xarray :: cty where
  "vm_xarray = CStruct [
    Field ''xa_lock'' vm_spinlock, Field ''xa_flags'' (CInt 4), Field ''xa_head'' CPtr]"

lemma vm_xarray_layout [layout_simps]: "csize vm_xarray = 16" "calign vm_xarray = 8" "cty_ok vm_xarray"
  by (simp_all add: vm_xarray_def layout_simps)

definition vm_address_space :: cty where
  "vm_address_space = CStruct [
    Field ''host'' CPtr, Field ''i_pages'' vm_xarray, Field ''invalidate_lock'' vm_rw_semaphore,
    Field ''gfp_mask'' (CInt 4), Field ''i_mmap_writable'' vm_atomic_t,
    Field ''i_mmap'' vm_rb_root_cached, Field ''nrpages'' (CInt 8),
    Field ''writeback_index'' (CInt 8), Field ''a_ops'' CPtr, Field ''flags'' (CInt 8),
    Field ''wb_err'' (CInt 4), Field ''i_private_lock'' vm_spinlock,
    Field ''i_private_list'' vm_list_head, Field ''i_mmap_rwsem'' vm_rw_semaphore,
    Field ''i_private_data'' CPtr]"

lemma vm_address_space_layout [layout_simps]: "csize vm_address_space = 192" "calign vm_address_space = 8" "cty_ok vm_address_space"
  by (simp_all add: vm_address_space_def layout_simps)

definition vm_inode :: cty where
  "vm_inode = CStruct [
    Field ''i_mode'' (CInt 2), Field ''i_opflags'' (CInt 2), Field ''i_flags'' (CInt 4),
    Field ''i_acl'' CPtr, Field ''i_default_acl'' CPtr, Field ''i_uid'' vm_kuid_t,
    Field ''i_gid'' vm_kgid_t, Field ''i_op'' CPtr, Field ''i_sb'' CPtr, Field ''i_mapping'' CPtr,
    Field ''i_security'' CPtr, Field ''i_ino'' (CInt 8),
    Field [] (CUnion [Field ''i_nlink'' (CInt 4), Field ''__i_nlink'' (CInt 4)]),
    Field ''i_rdev'' (CInt 4), Field ''i_size'' (CInt 8), Field ''i_atime_sec'' (CInt 8),
    Field ''i_mtime_sec'' (CInt 8), Field ''i_ctime_sec'' (CInt 8), Field ''i_atime_nsec'' (CInt 4),
    Field ''i_mtime_nsec'' (CInt 4), Field ''i_ctime_nsec'' (CInt 4),
    Field ''i_generation'' (CInt 4), Field ''i_lock'' vm_spinlock, Field ''i_bytes'' (CInt 2),
    Field ''i_blkbits'' (CInt 1), Field ''i_write_hint'' (CInt 4), Field ''i_blocks'' (CInt 8),
    Field ''i_state'' vm_inode_state_flags, Field ''i_rwsem'' vm_rw_semaphore,
    Field ''dirtied_when'' (CInt 8), Field ''dirtied_time_when'' (CInt 8),
    Field ''i_hash'' vm_hlist_node, Field ''i_io_list'' vm_list_head, Field ''i_wb'' CPtr,
    Field ''i_wb_frn_winner'' (CInt 4), Field ''i_wb_frn_avg_time'' (CInt 2),
    Field ''i_wb_frn_history'' (CInt 2), Field ''i_lru'' vm_list_head,
    Field ''i_sb_list'' vm_list_head, Field ''i_wb_list'' vm_list_head,
    Field [] (CUnion [Field ''i_dentry'' vm_hlist_head, Field ''i_rcu'' vm_callback_head]),
    Field ''i_version'' vm_atomic64_t, Field ''i_sequence'' vm_atomic64_t,
    Field ''i_count'' vm_atomic_t, Field ''i_dio_count'' vm_atomic_t,
    Field ''i_writecount'' vm_atomic_t, Field ''i_readcount'' vm_atomic_t,
    Field [] (CUnion [Field ''i_fop'' CPtr, Field ''free_inode'' CPtr]), Field ''i_flctx'' CPtr,
    Field ''i_data'' vm_address_space,
    Field [] (CUnion [Field ''i_devices'' vm_list_head, Field ''i_linklen'' (CInt 4)]),
    Field [] (CUnion [Field ''i_pipe'' CPtr, Field ''i_cdev'' CPtr, Field ''i_link'' CPtr, Field ''i_dir_seq'' (CInt 4)]),
    Field ''i_fsnotify_mask'' (CInt 4), Field ''i_fsnotify_marks'' CPtr, Field ''i_private'' CPtr]"

lemma vm_inode_layout [layout_simps]: "csize vm_inode = 616" "calign vm_inode = 8" "cty_ok vm_inode"
  by (simp_all add: vm_inode_def layout_simps)

definition vm_hlist_bl_head :: cty where
  "vm_hlist_bl_head = CStruct [
    Field ''first'' CPtr]"

lemma vm_hlist_bl_head_layout [layout_simps]: "csize vm_hlist_bl_head = 8" "calign vm_hlist_bl_head = 8" "cty_ok vm_hlist_bl_head"
  by (simp_all add: vm_hlist_bl_head_def layout_simps)

definition vm_mem_dqinfo :: cty where
  "vm_mem_dqinfo = CStruct [
    Field ''dqi_format'' CPtr, Field ''dqi_fmt_id'' (CInt 4), Field ''dqi_dirty_list'' vm_list_head,
    Field ''dqi_flags'' (CInt 8), Field ''dqi_bgrace'' (CInt 4), Field ''dqi_igrace'' (CInt 4),
    Field ''dqi_max_spc_limit'' (CInt 8), Field ''dqi_max_ino_limit'' (CInt 8),
    Field ''dqi_priv'' CPtr]"

lemma vm_mem_dqinfo_layout [layout_simps]: "csize vm_mem_dqinfo = 72" "calign vm_mem_dqinfo = 8" "cty_ok vm_mem_dqinfo"
  by (simp_all add: vm_mem_dqinfo_def layout_simps)

definition vm_quota_info :: cty where
  "vm_quota_info = CStruct [
    Field ''flags'' (CInt 4), Field ''dqio_sem'' vm_rw_semaphore, Field ''files'' (CArr 3 CPtr),
    Field ''info'' (CArr 3 vm_mem_dqinfo), Field ''ops'' (CArr 3 CPtr)]"

lemma vm_quota_info_layout [layout_simps]: "csize vm_quota_info = 312" "calign vm_quota_info = 8" "cty_ok vm_quota_info"
  by (simp_all add: vm_quota_info_def layout_simps)

definition vm_wait_queue_head :: cty where
  "vm_wait_queue_head = CStruct [
    Field ''lock'' vm_spinlock, Field ''head'' vm_list_head]"

lemma vm_wait_queue_head_layout [layout_simps]: "csize vm_wait_queue_head = 24" "calign vm_wait_queue_head = 8" "cty_ok vm_wait_queue_head"
  by (simp_all add: vm_wait_queue_head_def layout_simps)

definition vm_rcu_sync :: cty where
  "vm_rcu_sync = CStruct [
    Field ''gp_state'' (CInt 4), Field ''gp_count'' (CInt 4), Field ''gp_wait'' vm_wait_queue_head,
    Field ''cb_head'' vm_callback_head]"

lemma vm_rcu_sync_layout [layout_simps]: "csize vm_rcu_sync = 48" "calign vm_rcu_sync = 8" "cty_ok vm_rcu_sync"
  by (simp_all add: vm_rcu_sync_def layout_simps)

definition vm_rcuwait :: cty where
  "vm_rcuwait = CStruct [
    Field ''task'' CPtr]"

lemma vm_rcuwait_layout [layout_simps]: "csize vm_rcuwait = 8" "calign vm_rcuwait = 8" "cty_ok vm_rcuwait"
  by (simp_all add: vm_rcuwait_def layout_simps)

definition vm_percpu_rw_semaphore :: cty where
  "vm_percpu_rw_semaphore = CStruct [
    Field ''rss'' vm_rcu_sync, Field ''read_count'' CPtr, Field ''writer'' vm_rcuwait,
    Field ''waiters'' vm_wait_queue_head, Field ''block'' vm_atomic_t]"

lemma vm_percpu_rw_semaphore_layout [layout_simps]: "csize vm_percpu_rw_semaphore = 96" "calign vm_percpu_rw_semaphore = 8" "cty_ok vm_percpu_rw_semaphore"
  by (simp_all add: vm_percpu_rw_semaphore_def layout_simps)

definition vm_sb_writers :: cty where
  "vm_sb_writers = CStruct [
    Field ''frozen'' (CInt 2), Field ''freeze_kcount'' (CInt 4), Field ''freeze_ucount'' (CInt 4),
    Field ''freeze_owner'' CPtr, Field ''rw_sem'' (CArr 3 vm_percpu_rw_semaphore)]"

lemma vm_sb_writers_layout [layout_simps]: "csize vm_sb_writers = 312" "calign vm_sb_writers = 8" "cty_ok vm_sb_writers"
  by (simp_all add: vm_sb_writers_def layout_simps)

definition vm_uuid_t :: cty where
  "vm_uuid_t = CStruct [
    Field ''b'' (CArr 16 (CInt 1))]"

lemma vm_uuid_t_layout [layout_simps]: "csize vm_uuid_t = 16" "calign vm_uuid_t = 1" "cty_ok vm_uuid_t"
  by (simp_all add: vm_uuid_t_def layout_simps)

definition vm_list_lru :: cty where
  "vm_list_lru = CStruct [
    Field ''node'' CPtr, Field ''list'' vm_list_head, Field ''shrinker_id'' (CInt 4),
    Field ''memcg_aware'' (CInt 1), Field ''xa'' vm_xarray]"

lemma vm_list_lru_layout [layout_simps]: "csize vm_list_lru = 48" "calign vm_list_lru = 8" "cty_ok vm_list_lru"
  by (simp_all add: vm_list_lru_def layout_simps)

definition vm_work_struct :: cty where
  "vm_work_struct = CStruct [
    Field ''data'' vm_atomic64_t, Field ''entry'' vm_list_head, Field ''func'' CPtr]"

lemma vm_work_struct_layout [layout_simps]: "csize vm_work_struct = 32" "calign vm_work_struct = 8" "cty_ok vm_work_struct"
  by (simp_all add: vm_work_struct_def layout_simps)

definition vm_super_block :: cty where
  "vm_super_block = CStruct [
    Field ''s_list'' vm_list_head, Field ''s_dev'' (CInt 4), Field ''s_blocksize_bits'' (CInt 1),
    Field ''s_blocksize'' (CInt 8), Field ''s_maxbytes'' (CInt 8), Field ''s_type'' CPtr,
    Field ''s_op'' CPtr, Field ''dq_op'' CPtr, Field ''s_qcop'' CPtr, Field ''s_export_op'' CPtr,
    Field ''s_flags'' (CInt 8), Field ''s_iflags'' (CInt 8), Field ''s_magic'' (CInt 8),
    Field ''s_root'' CPtr, Field ''s_umount'' vm_rw_semaphore, Field ''s_count'' (CInt 4),
    Field ''s_active'' vm_atomic_t, Field ''s_security'' CPtr, Field ''s_xattr'' CPtr,
    Field ''s_cop'' CPtr, Field ''s_master_keys'' CPtr, Field ''s_vop'' CPtr,
    Field ''s_encoding'' CPtr, Field ''s_encoding_flags'' (CInt 2),
    Field ''s_roots'' vm_hlist_bl_head, Field ''s_mounts'' CPtr, Field ''s_bdev'' CPtr,
    Field ''s_bdev_file'' CPtr, Field ''s_bdi'' CPtr, Field ''s_mtd'' CPtr,
    Field ''s_instances'' vm_hlist_node, Field ''s_quota_types'' (CInt 4),
    Field ''s_dquot'' vm_quota_info, Field ''s_writers'' vm_sb_writers, Field ''s_fs_info'' CPtr,
    Field ''s_time_gran'' (CInt 4), Field ''s_time_min'' (CInt 8), Field ''s_time_max'' (CInt 8),
    Field ''s_fsnotify_mask'' (CInt 4), Field ''s_fsnotify_info'' CPtr,
    Field ''s_id'' (CArr 32 (CInt 1)), Field ''s_uuid'' vm_uuid_t, Field ''s_uuid_len'' (CInt 1),
    Field ''s_sysfs_name'' (CArr 37 (CInt 1)), Field ''s_max_links'' (CInt 4),
    Field ''s_d_flags'' (CInt 4), Field ''s_vfs_rename_mutex'' vm_mutex, Field ''s_subtype'' CPtr,
    Field ''__s_d_op'' CPtr, Field ''s_shrink'' CPtr, Field ''s_remove_count'' vm_atomic64_t,
    Field ''s_readonly_remount'' (CInt 4), Field ''s_wb_err'' (CInt 4),
    Field ''s_dio_done_wq'' CPtr, Field ''s_pins'' vm_hlist_head, Field ''s_user_ns'' CPtr,
    Field ''s_dentry_lru'' vm_list_lru, Field ''s_inode_lru'' vm_list_lru,
    Field ''rcu'' vm_callback_head, Field ''destroy_work'' vm_work_struct,
    Field ''s_sync_lock'' vm_mutex, Field ''s_stack_depth'' (CInt 4), Bits [] 8 64,
    Field ''s_inode_list_lock'' vm_spinlock, Field ''s_inodes'' vm_list_head,
    Field ''s_inode_wblist_lock'' vm_spinlock, Field ''s_inodes_wb'' vm_list_head,
    Field ''s_min_writeback_pages'' (CInt 8), Field ''s_pending_errors'' vm_refcount_struct]"

lemma vm_super_block_layout [layout_simps]: "csize vm_super_block = 1408" "calign vm_super_block = 8" "cty_ok vm_super_block"
  by (simp_all add: vm_super_block_def layout_simps)

definition vm_maple_tree :: cty where
  "vm_maple_tree = CStruct [
    Field [] (CUnion [Field ''ma_lock'' vm_spinlock]), Field ''ma_flags'' (CInt 4),
    Field ''ma_root'' CPtr]"

lemma vm_maple_tree_layout [layout_simps]: "csize vm_maple_tree = 16" "calign vm_maple_tree = 8" "cty_ok vm_maple_tree"
  by (simp_all add: vm_maple_tree_def layout_simps)

definition vm_irq_work :: cty where
  "vm_irq_work = CStruct [
    Field ''node'' vm_call_single_node, Field ''func'' CPtr, Field ''irqwait'' vm_rcuwait]"

lemma vm_irq_work_layout [layout_simps]: "csize vm_irq_work = 32" "calign vm_irq_work = 8" "cty_ok vm_irq_work"
  by (simp_all add: vm_irq_work_def layout_simps)

definition vm_mm_mm_cid :: cty where
  "vm_mm_mm_cid = CStruct [
    Field ''pcpu'' CPtr, Field ''mode'' (CInt 4), Field ''max_cids'' (CInt 4),
    Field ''irq_work'' vm_irq_work, Field ''work'' vm_work_struct, Field ''lock'' vm_raw_spinlock,
    Field ''mutex'' vm_mutex, Field ''user_list'' vm_hlist_head, Field ''nr_cpus_allowed'' (CInt 4),
    Field ''users'' (CInt 4), Field ''pcpu_thrs'' (CInt 4), Field ''update_deferred'' (CInt 4),
    Bits [] 8 64, Bits [] 8 64, Bits [] 8 64, Bits [] 8 64, Bits [] 8 64, Bits [] 8 64]"

lemma vm_mm_mm_cid_layout [layout_simps]: "csize vm_mm_mm_cid = 192" "calign vm_mm_mm_cid = 8" "cty_ok vm_mm_mm_cid"
  by (simp_all add: vm_mm_mm_cid_def layout_simps)

definition vm_percpu_counter :: cty where
  "vm_percpu_counter = CStruct [
    Field ''lock'' vm_raw_spinlock, Field ''count'' (CInt 8), Field ''list'' vm_list_head,
    Field ''counters'' CPtr]"

lemma vm_percpu_counter_layout [layout_simps]: "csize vm_percpu_counter = 40" "calign vm_percpu_counter = 8" "cty_ok vm_percpu_counter"
  by (simp_all add: vm_percpu_counter_def layout_simps)

definition vm_mm_context_t :: cty where
  "vm_mm_context_t = CStruct [
    Field ''ctx_id'' (CInt 8), Field ''tlb_gen'' vm_atomic64_t,
    Field ''next_trim_cpumask'' (CInt 8), Field ''ldt_usr_sem'' vm_rw_semaphore, Field ''ldt'' CPtr,
    Field ''flags'' (CInt 8), Field ''lock'' vm_mutex, Field ''vdso'' CPtr,
    Field ''vdso_image'' CPtr, Field ''perf_rdpmc_allowed'' vm_atomic_t,
    Field ''pkey_allocation_map'' (CInt 2), Field ''execute_only_pkey'' (CInt 2),
    Field ''global_asid'' (CInt 2), Field ''asid_transition'' (CInt 1)]"

lemma vm_mm_context_t_layout [layout_simps]: "csize vm_mm_context_t = 144" "calign vm_mm_context_t = 8" "cty_ok vm_mm_context_t"
  by (simp_all add: vm_mm_context_t_def layout_simps)

definition vm_mm_flags_t :: cty where
  "vm_mm_flags_t = CStruct [
    Field ''__mm_flags'' (CArr 1 (CInt 8))]"

lemma vm_mm_flags_t_layout [layout_simps]: "csize vm_mm_flags_t = 8" "calign vm_mm_flags_t = 8" "cty_ok vm_mm_flags_t"
  by (simp_all add: vm_mm_flags_t_def layout_simps)

definition vm_uprobes_state :: cty where
  "vm_uprobes_state = CStruct [
    Field ''xol_area'' CPtr, Field ''head_tramps'' vm_hlist_head]"

lemma vm_uprobes_state_layout [layout_simps]: "csize vm_uprobes_state = 16" "calign vm_uprobes_state = 8" "cty_ok vm_uprobes_state"
  by (simp_all add: vm_uprobes_state_def layout_simps)

definition vm_mm_struct :: cty where
  "vm_mm_struct = CStruct [
    Field [] (CStruct [Field [] (CStruct [Field ''mm_count'' vm_atomic_t, Bits [] 8 64, Bits [] 8 64, Bits [] 8 64, Bits [] 8 64, Bits [] 8 64, Bits [] 8 64, Bits [] 8 64]), Field ''mm_mt'' vm_maple_tree, Field ''mmap_base'' (CInt 8), Field ''mmap_legacy_base'' (CInt 8), Field ''mmap_compat_base'' (CInt 8), Field ''mmap_compat_legacy_base'' (CInt 8), Field ''task_size'' (CInt 8), Field ''pgd'' CPtr, Field ''membarrier_state'' vm_atomic_t, Field ''mm_users'' vm_atomic_t, Bits [] 8 64, Bits [] 8 64, Bits [] 8 64, Bits [] 8 64, Bits [] 8 64, Bits [] 8 64, Bits [] 8 64, Field ''mm_cid'' vm_mm_mm_cid, Field ''pgtables_bytes'' vm_atomic64_t, Field ''map_count'' (CInt 4), Field ''page_table_lock'' vm_spinlock, Field ''mmap_lock'' vm_rw_semaphore, Field ''mmlist'' vm_list_head, Field ''vma_writer_wait'' vm_rcuwait, Field ''mm_lock_seq'' vm_seqcount, Field ''futex_hash_lock'' vm_mutex, Field ''futex_phash'' CPtr, Field ''futex_phash_new'' CPtr, Field ''futex_batches'' (CInt 8), Field ''futex_rcu'' vm_callback_head, Field ''futex_atomic'' vm_atomic64_t, Field ''futex_ref'' CPtr, Field ''hiwater_rss'' (CInt 8), Field ''hiwater_vm'' (CInt 8), Field ''total_vm'' (CInt 8), Field ''locked_vm'' (CInt 8), Field ''pinned_vm'' vm_atomic64_t, Field ''data_vm'' (CInt 8), Field ''exec_vm'' (CInt 8), Field ''stack_vm'' (CInt 8), Field ''def_flags'' (CInt 8), Field ''write_protect_seq'' vm_seqcount, Field ''arg_lock'' vm_spinlock, Field ''start_code'' (CInt 8), Field ''end_code'' (CInt 8), Field ''start_data'' (CInt 8), Field ''end_data'' (CInt 8), Field ''start_brk'' (CInt 8), Field ''brk'' (CInt 8), Field ''start_stack'' (CInt 8), Field ''arg_start'' (CInt 8), Field ''arg_end'' (CInt 8), Field ''env_start'' (CInt 8), Field ''env_end'' (CInt 8), Field ''saved_auxv'' (CArr 56 (CInt 8)), Field ''rss_stat'' (CArr 4 vm_percpu_counter), Field ''binfmt'' CPtr, Field ''context'' vm_mm_context_t, Field ''flags'' vm_mm_flags_t, Field ''ioctx_lock'' vm_spinlock, Field ''ioctx_table'' CPtr, Field ''owner'' CPtr, Field ''user_ns'' CPtr, Field ''exe_file'' CPtr, Field ''notifier_subscriptions'' CPtr, Field ''numa_next_scan'' (CInt 8), Field ''numa_scan_offset'' (CInt 8), Field ''numa_scan_seq'' (CInt 4), Field ''tlb_flush_pending'' vm_atomic_t, Field ''tlb_flush_batched'' vm_atomic_t, Field ''uprobes_state'' vm_uprobes_state, Field ''hugetlb_usage'' vm_atomic64_t, Field ''async_put_work'' vm_work_struct, Field ''iommu_mm'' CPtr, Field ''ksm_merging_pages'' (CInt 8), Field ''ksm_rmap_items'' (CInt 8), Field ''ksm_zero_pages'' vm_atomic64_t, Field ''lru_gen'' (CStruct [Field ''list'' vm_list_head, Field ''bitmap'' (CInt 8), Field ''memcg'' CPtr]), Field ''mm_id'' (CInt 4), Bits [] 8 64, Bits [] 8 64, Bits [] 8 64]),
    Field ''flexible_array'' (CArr 0 (CInt 1))]"

lemma vm_mm_struct_layout [layout_simps]: "csize vm_mm_struct = 1728" "calign vm_mm_struct = 8" "cty_ok vm_mm_struct"
  by (simp_all add: vm_mm_struct_def layout_simps)

definition vm_kernel_cap_t :: cty where
  "vm_kernel_cap_t = CStruct [
    Field ''val'' (CInt 8)]"

lemma vm_kernel_cap_t_layout [layout_simps]: "csize vm_kernel_cap_t = 8" "calign vm_kernel_cap_t = 8" "cty_ok vm_kernel_cap_t"
  by (simp_all add: vm_kernel_cap_t_def layout_simps)

definition vm_cred :: cty where
  "vm_cred = CStruct [
    Field ''usage'' vm_atomic64_t, Field ''uid'' vm_kuid_t, Field ''gid'' vm_kgid_t,
    Field ''suid'' vm_kuid_t, Field ''sgid'' vm_kgid_t, Field ''euid'' vm_kuid_t,
    Field ''egid'' vm_kgid_t, Field ''fsuid'' vm_kuid_t, Field ''fsgid'' vm_kgid_t,
    Field ''securebits'' (CInt 4), Field ''cap_inheritable'' vm_kernel_cap_t,
    Field ''cap_permitted'' vm_kernel_cap_t, Field ''cap_effective'' vm_kernel_cap_t,
    Field ''cap_bset'' vm_kernel_cap_t, Field ''cap_ambient'' vm_kernel_cap_t,
    Field ''jit_keyring'' (CInt 1), Field ''session_keyring'' CPtr, Field ''process_keyring'' CPtr,
    Field ''thread_keyring'' CPtr, Field ''request_key_auth'' CPtr, Field ''security'' CPtr,
    Field ''user'' CPtr, Field ''user_ns'' CPtr, Field ''ucounts'' CPtr, Field ''group_info'' CPtr,
    Field [] (CUnion [Field ''non_rcu'' (CInt 4), Field ''rcu'' vm_callback_head])]"

lemma vm_cred_layout [layout_simps]: "csize vm_cred = 184" "calign vm_cred = 8" "cty_ok vm_cred"
  by (simp_all add: vm_cred_def layout_simps)

definition vm_seqlock :: cty where
  "vm_seqlock = CStruct [
    Field ''seqcount'' vm_seqcount_spinlock, Field ''lock'' vm_spinlock]"

lemma vm_seqlock_layout [layout_simps]: "csize vm_seqlock = 8" "calign vm_seqlock = 4" "cty_ok vm_seqlock"
  by (simp_all add: vm_seqlock_def layout_simps)

definition vm_fs_struct :: cty where
  "vm_fs_struct = CStruct [
    Field ''users'' (CInt 4), Field ''seq'' vm_seqlock, Field ''umask'' (CInt 4),
    Field ''in_exec'' (CInt 4), Field ''root'' vm_path, Field ''pwd'' vm_path]"

lemma vm_fs_struct_layout [layout_simps]: "csize vm_fs_struct = 56" "calign vm_fs_struct = 8" "cty_ok vm_fs_struct"
  by (simp_all add: vm_fs_struct_def layout_simps)

definition vm_fdtable :: cty where
  "vm_fdtable = CStruct [
    Field ''max_fds'' (CInt 4), Field ''fd'' CPtr, Field ''close_on_exec'' CPtr,
    Field ''open_fds'' CPtr, Field ''full_fds_bits'' CPtr, Field ''rcu'' vm_callback_head]"

lemma vm_fdtable_layout [layout_simps]: "csize vm_fdtable = 56" "calign vm_fdtable = 8" "cty_ok vm_fdtable"
  by (simp_all add: vm_fdtable_def layout_simps)

definition vm_files_struct :: cty where
  "vm_files_struct = CStruct [
    Field ''count'' vm_atomic_t, Field ''resize_in_progress'' (CInt 1),
    Field ''resize_wait'' vm_wait_queue_head, Field ''fdt'' CPtr, Field ''fdtab'' vm_fdtable,
    Bits [] 8 64, Bits [] 8 64, Bits [] 8 64, Bits [] 8 64, Field ''file_lock'' vm_spinlock,
    Field ''next_fd'' (CInt 4), Field ''close_on_exec_init'' (CArr 1 (CInt 8)),
    Field ''open_fds_init'' (CArr 1 (CInt 8)), Field ''full_fds_bits_init'' (CArr 1 (CInt 8)),
    Field ''fd_array'' (CArr 64 CPtr), Bits [] 8 64, Bits [] 8 64, Bits [] 8 64, Bits [] 8 64]"

lemma vm_files_struct_layout [layout_simps]: "csize vm_files_struct = 704" "calign vm_files_struct = 8" "cty_ok vm_files_struct"
  by (simp_all add: vm_files_struct_def layout_simps)

definition vm_rlimit :: cty where
  "vm_rlimit = CStruct [
    Field ''rlim_cur'' (CInt 8), Field ''rlim_max'' (CInt 8)]"

lemma vm_rlimit_layout [layout_simps]: "csize vm_rlimit = 16" "calign vm_rlimit = 8" "cty_ok vm_rlimit"
  by (simp_all add: vm_rlimit_def layout_simps)

definition vm_linux_binprm :: cty where
  "vm_linux_binprm = CStruct [
    Field ''vma'' CPtr, Field ''vma_pages'' (CInt 8), Field ''argmin'' (CInt 8), Field ''mm'' CPtr,
    Field ''p'' (CInt 8), Bits ''have_execfd'' 4 1, Bits ''execfd_creds'' 4 1,
    Bits ''secureexec'' 4 1, Bits ''point_of_no_return'' 4 1, Bits ''comm_from_dentry'' 4 1,
    Bits ''is_check'' 4 1, Field ''executable'' CPtr, Field ''interpreter'' CPtr,
    Field ''file'' CPtr, Field ''cred'' CPtr, Field ''unsafe'' (CInt 4),
    Field ''per_clear'' (CInt 4), Field ''argc'' (CInt 4), Field ''envc'' (CInt 4),
    Field ''filename'' CPtr, Field ''interp'' CPtr, Field ''fdpath'' CPtr,
    Field ''interp_flags'' (CInt 4), Field ''execfd'' (CInt 4), Field ''exec'' (CInt 8),
    Field ''rlim_stack'' vm_rlimit, Field ''buf'' (CArr 256 (CInt 1))]"

lemma vm_linux_binprm_layout [layout_simps]: "csize vm_linux_binprm = 408" "calign vm_linux_binprm = 8" "cty_ok vm_linux_binprm"
  by (simp_all add: vm_linux_binprm_def layout_simps)

definition vm_fred_cs :: cty where
  "vm_fred_cs = CStruct [
    Bits ''cs'' 8 16, Bits ''sl'' 8 2, Bits ''wfe'' 8 1]"

lemma vm_fred_cs_layout [layout_simps]: "csize vm_fred_cs = 8" "calign vm_fred_cs = 8" "cty_ok vm_fred_cs"
  by (simp_all add: vm_fred_cs_def layout_simps)

definition vm_fred_ss :: cty where
  "vm_fred_ss = CStruct [
    Bits ''ss'' 8 16, Bits ''sti'' 8 1, Bits ''swevent'' 8 1, Bits ''nmi'' 8 1, Bits [] 4 13,
    Bits ''vector'' 8 8, Bits [] 2 8, Bits ''type'' 8 4, Bits [] 1 4, Bits ''enclave'' 8 1,
    Bits ''l'' 8 1, Bits ''nested'' 8 1, Bits [] 1 1, Bits ''insnlen'' 8 4]"

lemma vm_fred_ss_layout [layout_simps]: "csize vm_fred_ss = 8" "calign vm_fred_ss = 8" "cty_ok vm_fred_ss"
  by (simp_all add: vm_fred_ss_def layout_simps)

definition vm_pt_regs :: cty where
  "vm_pt_regs = CStruct [
    Field ''r15'' (CInt 8), Field ''r14'' (CInt 8), Field ''r13'' (CInt 8), Field ''r12'' (CInt 8),
    Field ''bp'' (CInt 8), Field ''bx'' (CInt 8), Field ''r11'' (CInt 8), Field ''r10'' (CInt 8),
    Field ''r9'' (CInt 8), Field ''r8'' (CInt 8), Field ''ax'' (CInt 8), Field ''cx'' (CInt 8),
    Field ''dx'' (CInt 8), Field ''si'' (CInt 8), Field ''di'' (CInt 8), Field ''orig_ax'' (CInt 8),
    Field ''ip'' (CInt 8),
    Field [] (CUnion [Field ''cs'' (CInt 2), Field ''csx'' (CInt 8), Field ''fred_cs'' vm_fred_cs]),
    Field ''flags'' (CInt 8), Field ''sp'' (CInt 8),
    Field [] (CUnion [Field ''ss'' (CInt 2), Field ''ssx'' (CInt 8), Field ''fred_ss'' vm_fred_ss])]"

lemma vm_pt_regs_layout [layout_simps]: "csize vm_pt_regs = 168" "calign vm_pt_regs = 8" "cty_ok vm_pt_regs"
  by (simp_all add: vm_pt_regs_def layout_simps)

definition vm_in_addr :: cty where
  "vm_in_addr = CStruct [
    Field ''s_addr'' (CInt 4)]"

lemma vm_in_addr_layout [layout_simps]: "csize vm_in_addr = 4" "calign vm_in_addr = 4" "cty_ok vm_in_addr"
  by (simp_all add: vm_in_addr_def layout_simps)

definition vm_sockaddr_in :: cty where
  "vm_sockaddr_in = CStruct [
    Field ''sin_family'' (CInt 2), Field ''sin_port'' (CInt 2), Field ''sin_addr'' vm_in_addr,
    Field ''__pad'' (CArr 8 (CInt 1))]"

lemma vm_sockaddr_in_layout [layout_simps]: "csize vm_sockaddr_in = 16" "calign vm_sockaddr_in = 4" "cty_ok vm_sockaddr_in"
  by (simp_all add: vm_sockaddr_in_def layout_simps)

definition vm_trace_entry :: cty where
  "vm_trace_entry = CStruct [
    Field ''type'' (CInt 2), Field ''flags'' (CInt 1), Field ''preempt_count'' (CInt 1),
    Field ''pid'' (CInt 4)]"

lemma vm_trace_entry_layout [layout_simps]: "csize vm_trace_entry = 8" "calign vm_trace_entry = 4" "cty_ok vm_trace_entry"
  by (simp_all add: vm_trace_entry_def layout_simps)

definition vm_trace_event_raw_sys_enter :: cty where
  "vm_trace_event_raw_sys_enter = CStruct [
    Field ''ent'' vm_trace_entry, Field ''id'' (CInt 8), Field ''args'' (CArr 6 (CInt 8)),
    Field ''__data'' (CArr 0 (CInt 1))]"

lemma vm_trace_event_raw_sys_enter_layout [layout_simps]: "csize vm_trace_event_raw_sys_enter = 64" "calign vm_trace_event_raw_sys_enter = 8" "cty_ok vm_trace_event_raw_sys_enter"
  by (simp_all add: vm_trace_event_raw_sys_enter_def layout_simps)

definition vm_trace_event_raw_sys_exit :: cty where
  "vm_trace_event_raw_sys_exit = CStruct [
    Field ''ent'' vm_trace_entry, Field ''id'' (CInt 8), Field ''ret'' (CInt 8),
    Field ''__data'' (CArr 0 (CInt 1))]"

lemma vm_trace_event_raw_sys_exit_layout [layout_simps]: "csize vm_trace_event_raw_sys_exit = 24" "calign vm_trace_event_raw_sys_exit = 8" "cty_ok vm_trace_event_raw_sys_exit"
  by (simp_all add: vm_trace_event_raw_sys_exit_def layout_simps)

definition vm_trace_event_raw_sched_process_exec :: cty where
  "vm_trace_event_raw_sched_process_exec = CStruct [
    Field ''ent'' vm_trace_entry, Field ''__data_loc_filename'' (CInt 4), Field ''pid'' (CInt 4),
    Field ''old_pid'' (CInt 4), Field ''__data'' (CArr 0 (CInt 1))]"

lemma vm_trace_event_raw_sched_process_exec_layout [layout_simps]: "csize vm_trace_event_raw_sched_process_exec = 20" "calign vm_trace_event_raw_sched_process_exec = 4" "cty_ok vm_trace_event_raw_sched_process_exec"
  by (simp_all add: vm_trace_event_raw_sched_process_exec_def layout_simps)

definition vm_bpf_raw_tracepoint_args :: cty where
  "vm_bpf_raw_tracepoint_args = CStruct [
    Field ''args'' (CArr 0 (CInt 8))]"

lemma vm_bpf_raw_tracepoint_args_layout [layout_simps]: "csize vm_bpf_raw_tracepoint_args = 0" "calign vm_bpf_raw_tracepoint_args = 8" "cty_ok vm_bpf_raw_tracepoint_args"
  by (simp_all add: vm_bpf_raw_tracepoint_args_def layout_simps)

definition vm_user_cap_data_struct :: cty where
  "vm_user_cap_data_struct = CStruct [
    Field ''effective'' (CInt 4), Field ''permitted'' (CInt 4), Field ''inheritable'' (CInt 4)]"

lemma vm_user_cap_data_struct_layout [layout_simps]: "csize vm_user_cap_data_struct = 12" "calign vm_user_cap_data_struct = 4" "cty_ok vm_user_cap_data_struct"
  by (simp_all add: vm_user_cap_data_struct_def layout_simps)

end
