(* ===== verification/Kernel_Objects.thy ===== *)
theory Kernel_Objects
  imports Vmlinux Prevent Linsensor
begin

text \<open>
  The programs' reads over the kernel's own structures: on a kernel whose
  types are those of \<open>vmlinux.h\<close>, every relocated access reads a field of the
  width the programs assume, and the chains of reads follow the objects in memory.
\<close>

section \<open>Objects in memory\<close>

definition kernel_types :: "(string \<times> cty) list" where
  "kernel_types =
     [(''dentry'', vm_dentry), (''vfsmount'', vm_vfsmount), (''mount'', vm_mount), (''file'', vm_file),
      (''inode'', vm_inode), (''super_block'', vm_super_block), (''task_struct'', vm_task_struct),
      (''mm_struct'', vm_mm_struct), (''cred'', vm_cred), (''fs_struct'', vm_fs_struct),
      (''files_struct'', vm_files_struct), (''fdtable'', vm_fdtable), (''linux_binprm'', vm_linux_binprm),
      (''pt_regs'', vm_pt_regs)]"

definition kernel_type :: "string \<Rightarrow> cty option" where
  "kernel_type s = map_of kernel_types s"

text \<open>The relocations the loader makes on a kernel with these types.\<close>

definition vm_off :: "string \<Rightarrow> string \<Rightarrow> u64" where
  "vm_off s f = (case kernel_type s of None \<Rightarrow> 0 | Some t \<Rightarrow> word_of_nat (offsetof t f))"

definition laid_out :: "'a bpf_env_scheme \<Rightarrow> bool" where
  "laid_out env \<longleftrightarrow> core_off env = vm_off"

text \<open>Memory from \<open>a\<close> on is readable and holds \<open>bs\<close>, as an object of its structure's size.\<close>

definition region :: "'a bpf_env_scheme \<Rightarrow> u64 \<Rightarrow> bytes \<Rightarrow> bool" where
  "region env a bs \<longleftrightarrow>
     (\<forall>k n. k + n \<le> length bs \<longrightarrow> holds_kernel env (a + word_of_nat k) (take n (drop k bs)))"

definition object :: "'a bpf_env_scheme \<Rightarrow> string \<Rightarrow> u64 \<Rightarrow> bytes \<Rightarrow> bool" where
  "object env s a bs \<longleftrightarrow> map_option csize (kernel_type s) = Some (length bs) \<and> region env a bs"

text \<open>The bytes of a field.\<close>

definition field_bytes :: "string \<Rightarrow> string \<Rightarrow> bytes \<Rightarrow> bytes" where
  "field_bytes s f bs =
     (case kernel_type s of None \<Rightarrow> []
      | Some t \<Rightarrow> (case designator f t of None \<Rightarrow> [] | Some (p, u) \<Rightarrow> take (csize u) (drop (p div 8) bs)))"

text \<open>Structure \<open>s\<close> has a field \<open>f\<close> of \<open>n\<close> bytes.\<close>

definition has_field :: "string \<Rightarrow> string \<Rightarrow> nat \<Rightarrow> bool" where
  "has_field s f n \<longleftrightarrow>
     (case kernel_type s of None \<Rightarrow> False
      | Some t \<Rightarrow> (case designator f t of None \<Rightarrow> False | Some (p, u) \<Rightarrow> csize u = n))"

section \<open>Every structure is well formed\<close>

lemma kernel_types_ok: "kernel_type s = Some t \<Longrightarrow> cty_ok t"
proof -
  assume "kernel_type s = Some t"
  then have "t \<in> snd ` set kernel_types" unfolding kernel_type_def by (force dest: map_of_SomeD)
  moreover have "list_all cty_ok (map snd kernel_types)" by (simp add: kernel_types_def layout_simps)
  ultimately show ?thesis by (auto simp: list_all_iff)
qed

lemma kernel_field_inside:
  assumes "kernel_type s = Some t" and "designator f t = Some (p, u)"
  shows "p div 8 + csize u \<le> csize t" and "8 * calign u dvd p" and "p div 8 * 8 = p"
proof -
  have b: "8 * calign u dvd p" "p + 8 * csize u \<le> 8 * csize t"
    using designator_bounds [OF kernel_types_ok [OF assms(1)] assms(2)] by (simp_all add: field_in_def)
  then have "8 dvd p" using dvd_mult_left by blast
  with b show "p div 8 + csize u \<le> csize t" "8 * calign u dvd p" "p div 8 * 8 = p" by auto
qed

lemma region_read:
  assumes "region env a bs" and "k + length d \<le> length bs"
  shows "probe_read_kernel env (a + word_of_nat k) d = (0, take (length d) (drop k bs))"
proof -
  have "holds_kernel env (a + word_of_nat k) (take (length d) (drop k bs))"
    using assms by (simp add: region_def)
  moreover have "length (take (length d) (drop k bs)) = length d" using assms(2) by simp
  ultimately show ?thesis by (simp add: holds_kernel_def)
qed

lemma region_sub:
  assumes "region env a bs" and "k + n \<le> length bs"
  shows "region env (a + word_of_nat k) (take n (drop k bs))"
proof -
  have "holds_kernel env (a + word_of_nat k + word_of_nat j) (take m (drop j (take n (drop k bs))))"
    if "j + m \<le> n" for j m
  proof -
    have "take m (drop j (take n (drop k bs))) = take m (drop (k + j) bs)"
      using that by (simp add: drop_take min.absorb1 le_diff_conv add.commute)
    moreover have "k + j + m \<le> length bs" using assms(2) that by simp
    ultimately show ?thesis using assms(1) unfolding region_def by (metis add.assoc of_nat_add)
  qed
  then show ?thesis using assms(2) by (simp add: region_def)
qed

section \<open>Relocated reads\<close>

lemma object_field:
  assumes "laid_out env" and "object env s a bs" and "has_field s f n"
  shows "region env (a + core_off env s f) (field_bytes s f bs) \<and> length (field_bytes s f bs) = n"
proof -
  obtain t p u where t: "kernel_type s = Some t" "designator f t = Some (p, u)" "csize u = n"
    using assms(3) by (auto simp: has_field_def split: option.splits prod.splits)
  have l: "length bs = csize t" "region env a bs" using assms(2) t(1) by (simp_all add: object_def)
  have "core_off env s f = word_of_nat (p div 8)"
    using assms(1) t(1,2) by (simp add: laid_out_def vm_off_def offsetof_def)
  then show ?thesis
    using region_sub [OF l(2), of "p div 8" n] kernel_field_inside(1) [OF t(1,2)] l(1) t
    by (simp add: field_bytes_def)
qed

lemma core_read_object:
  assumes "laid_out env" and "object env s a bs" and "has_field s f n" and "length d = n"
  shows "bpf_core_read env d a (s, f) = (0, field_bytes s f bs)"
  using region_read [where k = 0 and d = d] object_field [OF assms(1-3)] assms(4)
  by (fastforce simp: bpf_core_read_def)

text \<open>A member that is a structure of its own is an object again.\<close>

lemma sub_object:
  assumes "laid_out env" and "object env s a bs" and "has_field s f n"
    and "map_option csize (kernel_type s') = Some n"
  shows "object env s' (a + core_off env s f) (field_bytes s f bs)"
  using object_field [OF assms(1-3)] assms(4) by (simp add: object_def)

lemma core_read_chain:
  "BPF_CORE_READ env n a [x, y] = BPF_CORE_READ env n (core_ptr env a [x]) [y]"
  by (simp add: BPF_CORE_READ_def BPF_CORE_READ_INTO_def)

lemma core_read_field:
  assumes "bpf_helpers env" and "laid_out env" and "object env s a bs" and "has_field s f n"
  shows "BPF_CORE_READ env n a [(s, f)] = field_bytes s f bs"
  using core_read_object [OF assms(2-4) bpf_helpers.uninit_length [OF assms(1)]]
  by (simp add: BPF_CORE_READ_def BPF_CORE_READ_INTO_def)

text \<open>The fields the programs access, with the width of each access.\<close>

lemmas lookup_simps = has_field_def kernel_type_def kernel_types_def designator_def layout_simps
  struct_field_append

lemma task_fields:
  "has_field ''task_struct'' ''mm'' 8" "has_field ''task_struct'' ''real_parent'' 8"
  "has_field ''task_struct'' ''tgid'' 4" "has_field ''task_struct'' ''cred'' 8"
  "has_field ''task_struct'' ''fs'' 8" "has_field ''task_struct'' ''files'' 8"
  "has_field ''task_struct'' ''exit_code'' 4"
  by (simp_all add: lookup_simps vm_task_struct_def)
    (simp_all add: vm_task_struct_head_def vm_task_struct_tail_def layout_simps)

lemma dentry_fields:
  "has_field ''dentry'' ''d_parent'' 8" "has_field ''dentry'' ''d_name'' 16"
  "has_field ''dentry'' ''d_name.name'' 8" "has_field ''dentry'' ''d_name.len'' 4"
  "has_field ''dentry'' ''d_inode'' 8" "has_field ''dentry'' ''d_sb'' 8"
  by (simp_all add: lookup_simps vm_dentry_def vm_qstr_def)

lemma mount_fields:
  "has_field ''vfsmount'' ''mnt_root'' 8" "has_field ''mount'' ''mnt_parent'' 8"
  "has_field ''mount'' ''mnt_mountpoint'' 8" "has_field ''mount'' ''mnt'' 32"
  by (simp_all add: lookup_simps vm_vfsmount_def vm_mount_def)

lemma file_fields:
  "has_field ''file'' ''f_path.dentry'' 8" "has_field ''file'' ''f_path.mnt'' 8"
  "has_field ''file'' ''f_inode'' 8" "has_field ''inode'' ''i_ino'' 8"
  "has_field ''inode'' ''__i_nlink'' 4" "has_field ''super_block'' ''s_dev'' 4"
  "has_field ''fs_struct'' ''pwd.dentry'' 8" "has_field ''fs_struct'' ''pwd.mnt'' 8"
  "has_field ''files_struct'' ''fdt'' 8" "has_field ''fdtable'' ''fd'' 8"
  "has_field ''fdtable'' ''max_fds'' 4"
  by (simp_all add: lookup_simps vm_file_def vm_path_def vm_inode_def vm_super_block_def
      vm_fs_struct_def vm_files_struct_def vm_fdtable_def)

lemma process_fields:
  "has_field ''mm_struct'' ''exe_file'' 8" "has_field ''linux_binprm'' ''file'' 8"
  "has_field ''cred'' ''euid.val'' 4"
  by (simp_all add: lookup_simps vm_mm_struct_def vm_linux_binprm_def vm_cred_def vm_kuid_t_def)

lemma pt_regs_fields:
  "has_field ''pt_regs'' ''di'' 8" "has_field ''pt_regs'' ''si'' 8"
  "has_field ''pt_regs'' ''dx'' 8" "has_field ''pt_regs'' ''r10'' 8"
  by (simp_all add: lookup_simps vm_pt_regs_def)

lemmas accessed_fields = task_fields dentry_fields mount_fields file_fields process_fields pt_regs_fields

section \<open>The reads of the path walk\<close>

lemma dentry_name_bytes:
  "field_bytes ''dentry'' ''d_name.len'' bs = take 4 (drop 4 (field_bytes ''dentry'' ''d_name'' bs))"
  "field_bytes ''dentry'' ''d_name.name'' bs = take 8 (drop 8 (field_bytes ''dentry'' ''d_name'' bs))"
  by (simp_all add: field_bytes_def lookup_simps vm_dentry_def vm_qstr_def drop_take)

lemma mount_root_bytes:
  "field_bytes ''vfsmount'' ''mnt_root'' (field_bytes ''mount'' ''mnt'' bs) =
   field_bytes ''mount'' ''mnt.mnt_root'' bs"
  by (simp add: field_bytes_def lookup_simps vm_mount_def vm_vfsmount_def)

lemma vfsmount_size: "map_option csize (kernel_type ''vfsmount'') = Some 32"
  by (simp add: kernel_type_def kernel_types_def layout_simps)

text \<open>
  C26: On a kernel with the types of \<open>vmlinux.h\<close> the path walk reads what it
  names: the parent, name pointer and name length of a directory entry, the
  parent mount, mount point and root of a mount, which \<open>container_of\<close> finds
  from the \<open>vfsmount\<close> inside it; and the key of a directory rule is the
  entry's inode number and device.
\<close>

theorem path_walk_reads:
  assumes "bpf_helpers env" and "laid_out env"
    and "object env ''dentry'' d db" and "object env ''mount'' m mb"
    and "object env ''inode'' (le_word (field_bytes ''dentry'' ''d_inode'' db)) ib"
    and "object env ''super_block'' (le_word (field_bytes ''dentry'' ''d_sb'' db)) sb"
  shows "d_parent env d = le_word (field_bytes ''dentry'' ''d_parent'' db) \<and>
    d_name env d = \<lparr>q_len = le_word (field_bytes ''dentry'' ''d_name.len'' db),
                    q_name = le_word (field_bytes ''dentry'' ''d_name.name'' db)\<rparr> \<and>
    mnt_parent env m = le_word (field_bytes ''mount'' ''mnt_parent'' mb) \<and>
    mnt_mountpoint env m = le_word (field_bytes ''mount'' ''mnt_mountpoint'' mb) \<and>
    mount_of env (vfsmount_of env m) = m \<and>
    mnt_root env (vfsmount_of env m) = le_word (field_bytes ''mount'' ''mnt.mnt_root'' mb) \<and>
    dir_key_of env d = \<lparr>dk_ino = le_word (field_bytes ''inode'' ''i_ino'' ib),
                        dk_dev = le_word (field_bytes ''super_block'' ''s_dev'' sb), dk_pad = 0\<rparr>"
proof -
  note read = core_read_field [OF assms(1,2)]
  have "object env ''vfsmount'' (vfsmount_of env m) (field_bytes ''mount'' ''mnt'' mb)"
    using sub_object [OF assms(2,4) mount_fields(4) vfsmount_size] by (simp add: bpf_core_field_offset_def)
  then have "mnt_root env (vfsmount_of env m) = le_word (field_bytes ''mount'' ''mnt.mnt_root'' mb)"
    by (simp only: read [OF _ mount_fields(1)] mount_root_bytes)
  moreover have "d_name env d = \<lparr>q_len = le_word (field_bytes ''dentry'' ''d_name.len'' db),
      q_name = le_word (field_bytes ''dentry'' ''d_name.name'' db)\<rparr>"
    by (simp only: d_name_def Let_def read [OF assms(3) dentry_fields(2)] dentry_name_bytes)
  moreover have "dir_key_of env d = \<lparr>dk_ino = le_word (field_bytes ''inode'' ''i_ino'' ib),
      dk_dev = le_word (field_bytes ''super_block'' ''s_dev'' sb), dk_pad = 0\<rparr>"
    by (simp only: dir_key_of_def core_read_chain read [OF assms(3) dentry_fields(5)]
        read [OF assms(3) dentry_fields(6)] read [OF assms(5) file_fields(4)] read [OF assms(6) file_fields(6)])
  ultimately show ?thesis
    by (simp add: read [OF assms(3) dentry_fields(1)] read [OF assms(4) mount_fields(2)]
        read [OF assms(4) mount_fields(3)])
qed

section \<open>The descriptor table\<close>

text \<open>
  C27: \<open>fd_file\<close> is the look-up in the current task's descriptor table: the
  entry of the descriptor while it is not negative and below the table's
  size, and no file otherwise.
\<close>

theorem fd_file_lookup:
  assumes "bpf_helpers env" and "laid_out env"
    and "object env ''task_struct'' (current_task env) tb"
    and "object env ''files_struct'' (le_word (field_bytes ''task_struct'' ''files'' tb)) sb"
    and "object env ''fdtable'' (le_word (field_bytes ''files_struct'' ''fdt'' sb)) fb"
    and "region env (le_word (field_bytes ''fdtable'' ''fd'' fb)) (concat (map (le_bytes 8 \<circ> unat) (files :: u64 list)))"
    and "length files = unat (le_word (field_bytes ''fdtable'' ''max_fds'' fb) :: u32)"
  shows "fd_file env fd = (if 0 \<le> sint fd \<and> unat fd < length files then files ! unat fd else 0)"
proof -
  note read = core_read_field [OF assms(1,2)]
  let ?fds = "le_word (field_bytes ''fdtable'' ''fd'' fb) :: u64"
  have entry: "le_word (snd (probe_read_kernel env (?fds + 8 * ucast fd) (replicate 8 0))) = files ! unat fd"
    if "unat fd < length files"
  proof -
    have at: "take 8 (drop (8 * i) (concat (map (le_bytes 8 \<circ> unat) fs))) = le_bytes 8 (unat (fs ! i))"
      if "i < length fs" for i and fs :: "u64 list"
      using that by (induction fs arbitrary: i) (auto simp: less_Suc_eq_0_disj)
    have "length (concat (map (le_bytes 8 \<circ> unat) fs)) = 8 * length fs" for fs :: "u64 list"
      by (induction fs) auto
    then have len: "8 * unat fd + 8 \<le> length (concat (map (le_bytes 8 \<circ> unat) files))" using that by simp
    have "?fds + 8 * ucast fd = ?fds + word_of_nat (8 * unat fd)" by (simp add: unsigned_ucast_eq)
    then show ?thesis
      using region_read [OF assms(6), of "8 * unat fd" "replicate 8 0"] at [OF that] len by simp
  qed
  show ?thesis
    using entry assms(7)
    by (simp add: fd_file_def Let_def core_read_chain read [OF assms(3) task_fields(6)]
        read [OF assms(4) file_fields(9)] read [OF assms(5) file_fields(10)] read [OF assms(5) file_fields(11)]
        word_le_nat_alt not_le)
qed

section \<open>The saved registers\<close>

text \<open>
  On x86-64 the arguments the dispatcher reads are the registers of the
  system call convention, in their order, from the task's saved registers.
\<close>

lemma syscall_regs_x86:
  assumes "bpf_helpers env" and "laid_out env" and "object env ''pt_regs'' regs rb"
  shows "syscall_regs env False regs =
    map (\<lambda>r. le_word (field_bytes ''pt_regs'' r rb)) [''di'', ''si'', ''dx'', ''r10'']"
  using core_read_field [OF assms pt_regs_fields(1)] core_read_field [OF assms pt_regs_fields(2)]
    core_read_field [OF assms pt_regs_fields(3)] core_read_field [OF assms pt_regs_fields(4)]
  by (simp add: syscall_regs_def PT_REGS_PARM_CORE_SYSCALL_def x86_kernel_regs_def default_syscall_parms_def
      supported_def nth_Cons_numeral)

section \<open>A concrete kernel memory\<close>

text \<open>All of memory is mapped and zero, except for some cells.\<close>

definition patched :: "(u64 \<times> bytes) list \<Rightarrow> u64 \<Rightarrow> u8 option" where
  "patched cells a = (case mem_of cells a of None \<Rightarrow> Some 0 | Some b \<Rightarrow> Some b)"

definition bytes_at :: "(u64 \<times> bytes) list \<Rightarrow> u64 \<Rightarrow> nat \<Rightarrow> bytes" where
  "bytes_at cells a n = map (\<lambda>i. the (patched cells (a + word_of_nat i))) [0..<n]"

definition kernel_env :: "(u64 \<times> bytes) list \<Rightarrow> u64 \<Rightarrow> bpf_env" where
  "kernel_env cells tk = mem_env Map.empty (patched cells) [] 0 0 0 tk vm_off"

lemma kernel_env [simp]:
  "bpf_helpers (kernel_env cells tk)" "laid_out (kernel_env cells tk)" "current_task (kernel_env cells tk) = tk"
  by (simp_all add: kernel_env_def mem_env.bpf_helpers_axioms laid_out_def) (simp_all add: mem_env_def)

lemma kernel_region: "region (kernel_env cells tk) a (bytes_at cells a n)"
proof -
  have "patched cells x = Some (the (patched cells x))" for x by (simp add: patched_def split: option.split)
  then show ?thesis
    by (auto simp: region_def kernel_env_def bytes_at_def add.assoc intro!: holds_kernel_mem)
qed

lemma kernel_object:
  "kernel_type s = Some t \<Longrightarrow> object (kernel_env cells tk) s a (bytes_at cells a (csize t))"
  by (simp add: object_def kernel_region) (simp add: bytes_at_def)

lemma field_bytes_at:
  assumes "kernel_type s = Some t" and "designator f t = Some (p, u)"
  shows "field_bytes s f (bytes_at cells a (csize t)) = bytes_at cells (a + word_of_nat (p div 8)) (csize u)"
proof -
  have "map ((+) k) [0..<m] = [k..<k + m]" for k m by (induction m) simp_all
  then have "take m (drop k [0..<n]) = map ((+) k) [0..<m]" if "k + m \<le> n" for k m n
    using that by (simp add: take_upt drop_upt)
  then show ?thesis
    using assms kernel_field_inside(1) [OF assms]
    by (simp add: field_bytes_def bytes_at_def drop_map take_map add.assoc o_def)
qed

lemma kernel_type_cases:
  "kernel_type ''dentry'' = Some vm_dentry" "kernel_type ''mount'' = Some vm_mount"
  "kernel_type ''inode'' = Some vm_inode" "kernel_type ''super_block'' = Some vm_super_block"
  "kernel_type ''task_struct'' = Some vm_task_struct" "kernel_type ''files_struct'' = Some vm_files_struct"
  "kernel_type ''fdtable'' = Some vm_fdtable" "kernel_type ''pt_regs'' = Some vm_pt_regs"
  by (simp_all add: kernel_type_def kernel_types_def)

lemma witness_offsets:
  "designator ''d_parent'' vm_dentry = Some (8 * 24, CPtr)"
  "designator ''fdt'' vm_files_struct = Some (8 * 32, CPtr)"
  "designator ''max_fds'' vm_fdtable = Some (0, CInt 4)"
  "designator ''fd'' vm_fdtable = Some (8 * 8, CPtr)"
  "designator ''di'' vm_pt_regs = Some (8 * 112, CInt 8)"
  subgoal by (simp add: lookup_simps vm_dentry_def)
  subgoal by (simp add: lookup_simps vm_files_struct_def)
  subgoal by (simp add: lookup_simps vm_fdtable_def)
  subgoal by (simp add: lookup_simps vm_fdtable_def)
  subgoal by (simp add: lookup_simps vm_pt_regs_def)
  done

lemma task_files_offset: "designator ''files'' vm_task_struct = Some (8 * 3352, CPtr)"
  by (simp add: lookup_simps vm_task_struct_def)
    (simp add: vm_task_struct_head_def vm_task_struct_tail_def layout_simps)

lemmas witness_fields = kernel_type_cases [THEN field_bytes_at]

lemma le_bytes_numeral:
  "le_bytes (numeral k) n = word_of_nat (n mod 256) # le_bytes (pred_numeral k) (n div 256)"
  by (subst numeral_eq_Suc) (rule le_bytes.simps(2))

lemmas memory_simps = bytes_at_def patched_def mem_of_def upt_conv_Cons le_bytes_numeral

text \<open>The entry at 4096 has the parent at 6144.\<close>

theorem path_walk_reads_witness:
  "d_parent (kernel_env [(4120, le_bytes 8 6144)] 0) 4096 = 6144"
proof -
  let ?c = "[(4120 :: u64, le_bytes 8 6144)]"
  note obj = kernel_type_cases [THEN kernel_object [where cells = ?c and tk = 0]]
  have "d_parent (kernel_env ?c 0) 4096 =
      le_word (field_bytes ''dentry'' ''d_parent'' (bytes_at ?c 4096 (csize vm_dentry)))"
    using path_walk_reads [OF kernel_env(1,2) obj(1) obj(2) obj(3) obj(4)] by blast
  also have "\<dots> = le_word (bytes_at ?c 4120 8)"
    by (simp add: witness_fields(1) [OF witness_offsets(1)])
  also have "\<dots> = 6144"
    by (simp add: memory_simps le_word_def)
  finally show ?thesis .
qed

text \<open>A task at 8192 with two open files, at 7 and 9.\<close>

definition fd_cells :: "(u64 \<times> bytes) list" where
  "fd_cells = [(11544, le_bytes 8 20480), (20512, le_bytes 8 28672), (28672, le_bytes 4 2),
     (28680, le_bytes 8 40960), (40960, le_bytes 8 7 @ le_bytes 8 9)]"

lemma fd_cells_reads:
  "bytes_at fd_cells 11544 8 = le_bytes 8 20480" "bytes_at fd_cells 20512 8 = le_bytes 8 28672"
  "bytes_at fd_cells 28672 4 = le_bytes 4 2" "bytes_at fd_cells 28680 8 = le_bytes 8 40960"
  "bytes_at fd_cells 40960 16 = le_bytes 8 7 @ le_bytes 8 9"
  by (simp_all add: memory_simps fd_cells_def)

theorem fd_file_lookup_witness:
  "fd_file (kernel_env fd_cells 8192) 1 = 9 \<and> fd_file (kernel_env fd_cells 8192) 2 = 0"
proof -
  note obj = kernel_type_cases [THEN kernel_object [where cells = fd_cells and tk = 8192]]
  let ?tb = "bytes_at fd_cells 8192 (csize vm_task_struct)"
  let ?sb = "bytes_at fd_cells 20480 (csize vm_files_struct)"
  let ?fb = "bytes_at fd_cells 28672 (csize vm_fdtable)"
  have f: "le_word (field_bytes ''task_struct'' ''files'' ?tb) = (20480 :: u64)"
    "le_word (field_bytes ''files_struct'' ''fdt'' ?sb) = (28672 :: u64)"
    "le_word (field_bytes ''fdtable'' ''fd'' ?fb) = (40960 :: u64)"
    "le_word (field_bytes ''fdtable'' ''max_fds'' ?fb) = (2 :: u32)"
    by (simp_all add: witness_fields(5) [OF task_files_offset] witness_fields(6) [OF witness_offsets(2)]
        witness_fields(7) [OF witness_offsets(3)] witness_fields(7) [OF witness_offsets(4)] fd_cells_reads
        le_word_bytes del: le_bytes.simps)
  have t: "object (kernel_env fd_cells 8192) ''task_struct'' (current_task (kernel_env fd_cells 8192)) ?tb"
    using obj(5) [of 8192] by simp
  have r: "region (kernel_env fd_cells 8192) 40960 (concat (map (le_bytes 8 \<circ> unat) [7, 9 :: u64]))"
    using kernel_region [of fd_cells 8192 40960 16] by (simp add: fd_cells_reads del: le_bytes.simps)
  have "fd_file (kernel_env fd_cells 8192) fd = (if 0 \<le> sint fd \<and> unat fd < 2 then [7, 9] ! unat fd else 0)" for fd
    using fd_file_lookup [OF kernel_env(1,2) t, unfolded f, OF obj(6) , unfolded f, OF obj(7), unfolded f, OF r] by simp
  from this [of 1] this [of 2] show ?thesis by simp
qed

lemma syscall_regs_x86_witness:
  "hd (syscall_regs (kernel_env [(4208, le_bytes 8 42)] 0) False 4096) = 42"
proof -
  let ?c = "[(4208 :: u64, le_bytes 8 42)]"
  have "hd (syscall_regs (kernel_env ?c 0) False 4096) = le_word (bytes_at ?c 4208 8)"
    using syscall_regs_x86 [OF kernel_env(1,2) kernel_object [OF kernel_type_cases(8)], of ?c 0 4096]
    by (simp add: witness_fields(8) [OF witness_offsets(5)])
  also have "\<dots> = 42"
    by (simp add: memory_simps le_word_def)
  finally show ?thesis .
qed

end
