(* ===== verification/Core_Read_Macros.thy ===== *)
theory Core_Read_Macros
  imports Bpf_Core_Read
begin

text \<open>
  \<open>bpf_core_read.h\<close>, the macros behind \<open>BPF_CORE_READ\<close>: argument counting, the
  ladders \<open>___last\<close>, \<open>___nolast\<close>, \<open>___arrow\<close> and \<open>___rd_p\<close>, and the family of
  readers built from them. \<open>None\<close> is an expansion that does not compile. The
  ladders are shown to chase pointers from left to right, which is how
  \<open>Bpf_Core_Read\<close> models them.
\<close>

section \<open>Counting and selecting arguments\<close>

text \<open>\<open>___nth\<close> returns its 12th argument; the first is a filler.\<close>

definition core_narg :: "'b list \<Rightarrow> nat option" where
  "core_narg args = (map (\<lambda>_. None) args @ map Some [10, 9, 8, 7, 6, 5, 4, 3, 2, 1, 0]) ! 10"

text \<open>\<open>___empty\<close>: \<open>True\<close> stands for the suffix N, \<open>False\<close> for 0.\<close>

definition core_empty :: "'b list \<Rightarrow> bool option" where
  "core_empty args =
     (map (\<lambda>_. None) args @ map Some [True, True, True, True, True, True, True, True, True, True, False]) ! 10"

text \<open>\<open>___last1\<close> to \<open>___last10\<close>, \<open>___nolast2\<close> to \<open>___nolast10\<close>, \<open>___arrow1\<close> to \<open>___arrow10\<close>.\<close>

definition core_last :: "'b list \<Rightarrow> 'b option" where
  "core_last args =
     (case core_narg args of None \<Rightarrow> None
      | Some n \<Rightarrow> if n \<in> {1..10} then Some (args ! (n - 1)) else None)"

definition core_nolast :: "'b list \<Rightarrow> 'b list option" where
  "core_nolast args =
     (case core_narg args of None \<Rightarrow> None
      | Some n \<Rightarrow> if n \<in> {2..10} then Some (take (n - 1) args) else None)"

definition core_arrow :: "'b list \<Rightarrow> 'b list option" where
  "core_arrow args =
     (case core_narg args of None \<Rightarrow> None
      | Some n \<Rightarrow> if n \<in> {1..10} then Some (take n args) else None)"

section \<open>Chasing pointers\<close>

text \<open>A read function: destination, source and accessed field.\<close>

type_synonym reader = "bytes \<Rightarrow> u64 \<Rightarrow> accessor \<Rightarrow> int \<times> bytes"

text \<open>
  \<open>___rd_p1\<close> to \<open>___rd_p9\<close>, on the argument list \<open>src, a, ...\<close>, where \<open>None\<close> stands
  for \<open>src\<close>; \<open>t\<close> is the pointer variable \<open>__t\<close>. The type of the last read is the
  arrow expression of the arguments before it.
\<close>

fun rd_p :: "nat \<Rightarrow> reader \<Rightarrow> bytes \<Rightarrow> u64 \<Rightarrow> accessor option list \<Rightarrow> bytes option" where
  "rd_p 0 fn t src args = None"
| "rd_p (Suc 0) fn t src args =
     (case args of [None, Some a] \<Rightarrow> Some (snd (fn t src a)) | _ \<Rightarrow> None)"
| "rd_p (Suc (Suc n)) fn t src args =
     (case (core_nolast args, core_last args) of
        (Some front, Some (Some a)) \<Rightarrow>
          (case (rd_p (Suc n) fn t src front, core_arrow front) of
             (Some t', Some _) \<Rightarrow> Some (snd (fn t' (le_word t') a))
           | _ \<Rightarrow> None)
      | _ \<Rightarrow> None)"

definition core_read_ptrs :: "reader \<Rightarrow> bytes \<Rightarrow> u64 \<Rightarrow> accessor list \<Rightarrow> bytes option" where
  "core_read_ptrs fn t src as =
     (case core_narg as of None \<Rightarrow> None
      | Some n \<Rightarrow> if n \<in> {1..9} then rd_p n fn t src (None # map Some as) else None)"

text \<open>\<open>___core_read\<close>: \<open>fn_ptr\<close> reads the pointers on the way, \<open>fn\<close> the last field.\<close>

definition core_read0 :: "reader \<Rightarrow> bytes \<Rightarrow> u64 \<Rightarrow> accessor \<Rightarrow> int \<times> bytes" where
  "core_read0 fn dst src a = fn dst src a"

definition core_readN :: "reader \<Rightarrow> reader \<Rightarrow> bytes \<Rightarrow> bytes \<Rightarrow> u64 \<Rightarrow> accessor list \<Rightarrow> (int \<times> bytes) option" where
  "core_readN fn fn_ptr t dst src as =
     (case core_nolast as of None \<Rightarrow> None
      | Some front \<Rightarrow>
          (case (core_read_ptrs fn_ptr t src front, core_arrow (None # map Some front), core_last as) of
             (Some t', Some _, Some a) \<Rightarrow> Some (fn dst (le_word t') a)
           | _ \<Rightarrow> None))"

definition core_read :: "reader \<Rightarrow> reader \<Rightarrow> bytes \<Rightarrow> bytes \<Rightarrow> u64 \<Rightarrow> accessor list \<Rightarrow> (int \<times> bytes) option" where
  "core_read fn fn_ptr t dst src as =
     (case as of [] \<Rightarrow> None
      | a # rest \<Rightarrow>
          (case core_empty rest of None \<Rightarrow> None
           | Some False \<Rightarrow> Some (core_read0 fn dst src a)
           | Some True \<Rightarrow> core_readN fn fn_ptr t dst src as))"

section \<open>The readers\<close>

definition bpf_core_read_user :: "'a bpf_env_scheme \<Rightarrow> reader" where
  "bpf_core_read_user env dst src acc = probe_read_user env (src + core_off env (fst acc) (snd acc)) dst"

definition bpf_core_read_str :: "'a bpf_env_scheme \<Rightarrow> reader" where
  "bpf_core_read_str env dst src acc =
     probe_read_kernel_str env (src + core_off env (fst acc) (snd acc)) dst"

definition bpf_core_read_user_str :: "'a bpf_env_scheme \<Rightarrow> reader" where
  "bpf_core_read_user_str env dst src acc =
     probe_read_user_str env (src + core_off env (fst acc) (snd acc)) dst"

text \<open>
  Without relocation a field is at the offset \<open>off\<close> of the program's own
  types: the four probe helpers behind \<open>___read\<close>.
\<close>

definition core_read_step :: "(u64 \<Rightarrow> bytes \<Rightarrow> int \<times> bytes) \<Rightarrow> (string \<Rightarrow> string \<Rightarrow> u64) \<Rightarrow> reader" where
  "core_read_step fn off dst src acc = fn (src + off (fst acc) (snd acc)) dst"

definition BPF_CORE_READ_USER_INTO ::
  "'a bpf_env_scheme \<Rightarrow> bytes \<Rightarrow> u64 \<Rightarrow> accessor list \<Rightarrow> (int \<times> bytes) option" where
  "BPF_CORE_READ_USER_INTO env dst src as =
     core_read (bpf_core_read_user env) (bpf_core_read_user env) (uninit env 8) dst src as"

definition BPF_PROBE_READ_INTO ::
  "'a bpf_env_scheme \<Rightarrow> (string \<Rightarrow> string \<Rightarrow> u64) \<Rightarrow> bytes \<Rightarrow> u64 \<Rightarrow> accessor list \<Rightarrow> (int \<times> bytes) option" where
  "BPF_PROBE_READ_INTO env off dst src as =
     core_read (core_read_step (probe_read_kernel env) off) (core_read_step (probe_read_kernel env) off)
       (uninit env 8) dst src as"

definition BPF_PROBE_READ_USER_INTO ::
  "'a bpf_env_scheme \<Rightarrow> (string \<Rightarrow> string \<Rightarrow> u64) \<Rightarrow> bytes \<Rightarrow> u64 \<Rightarrow> accessor list \<Rightarrow> (int \<times> bytes) option" where
  "BPF_PROBE_READ_USER_INTO env off dst src as =
     core_read (core_read_step (probe_read_user env) off) (core_read_step (probe_read_user env) off)
       (uninit env 8) dst src as"

definition BPF_CORE_READ_STR_INTO ::
  "'a bpf_env_scheme \<Rightarrow> bytes \<Rightarrow> u64 \<Rightarrow> accessor list \<Rightarrow> (int \<times> bytes) option" where
  "BPF_CORE_READ_STR_INTO env dst src as =
     core_read (bpf_core_read_str env) (bpf_core_read env) (uninit env 8) dst src as"

definition BPF_CORE_READ_USER_STR_INTO ::
  "'a bpf_env_scheme \<Rightarrow> bytes \<Rightarrow> u64 \<Rightarrow> accessor list \<Rightarrow> (int \<times> bytes) option" where
  "BPF_CORE_READ_USER_STR_INTO env dst src as =
     core_read (bpf_core_read_user_str env) (bpf_core_read_user env) (uninit env 8) dst src as"

definition BPF_PROBE_READ_STR_INTO ::
  "'a bpf_env_scheme \<Rightarrow> (string \<Rightarrow> string \<Rightarrow> u64) \<Rightarrow> bytes \<Rightarrow> u64 \<Rightarrow> accessor list \<Rightarrow> (int \<times> bytes) option" where
  "BPF_PROBE_READ_STR_INTO env off dst src as =
     core_read (core_read_step (probe_read_kernel_str env) off) (core_read_step (probe_read_kernel env) off)
       (uninit env 8) dst src as"

definition BPF_PROBE_READ_USER_STR_INTO ::
  "'a bpf_env_scheme \<Rightarrow> (string \<Rightarrow> string \<Rightarrow> u64) \<Rightarrow> bytes \<Rightarrow> u64 \<Rightarrow> accessor list \<Rightarrow> (int \<times> bytes) option" where
  "BPF_PROBE_READ_USER_STR_INTO env off dst src as =
     core_read (core_read_step (probe_read_user_str env) off) (core_read_step (probe_read_user env) off)
       (uninit env 8) dst src as"

text \<open>The value forms read into an uninitialised variable of \<open>n\<close> bytes.\<close>

definition BPF_CORE_READ_USER :: "'a bpf_env_scheme \<Rightarrow> nat \<Rightarrow> u64 \<Rightarrow> accessor list \<Rightarrow> bytes option" where
  "BPF_CORE_READ_USER env n src as = map_option snd (BPF_CORE_READ_USER_INTO env (uninit env n) src as)"

definition BPF_PROBE_READ ::
  "'a bpf_env_scheme \<Rightarrow> (string \<Rightarrow> string \<Rightarrow> u64) \<Rightarrow> nat \<Rightarrow> u64 \<Rightarrow> accessor list \<Rightarrow> bytes option" where
  "BPF_PROBE_READ env off n src as = map_option snd (BPF_PROBE_READ_INTO env off (uninit env n) src as)"

definition BPF_PROBE_READ_USER ::
  "'a bpf_env_scheme \<Rightarrow> (string \<Rightarrow> string \<Rightarrow> u64) \<Rightarrow> nat \<Rightarrow> u64 \<Rightarrow> accessor list \<Rightarrow> bytes option" where
  "BPF_PROBE_READ_USER env off n src as =
     map_option snd (BPF_PROBE_READ_USER_INTO env off (uninit env n) src as)"

section \<open>The ladders chase pointers from left to right\<close>

lemma nth_after_map: "(map (\<lambda>_. None) args @ xs) ! 10 = (if length args \<le> 10 then xs ! (10 - length args) else None)"
  by (simp add: nth_append)

lemma up_to_10: "n \<le> 10 \<Longrightarrow> n \<in> {0, 1, 2, 3, 4, 5, 6, 7, 8, 9, 10 :: nat}"
  by (simp; presburger)

lemma core_narg: "core_narg args = (if length args \<le> 10 then Some (length args) else None)"
proof (cases "length args \<le> 10")
  case True
  from up_to_10 [OF True] have "map Some [10, 9, 8, 7, 6, 5, 4, 3, 2, 1, 0] ! (10 - length args) = Some (length args)" by auto
  then show ?thesis using True unfolding core_narg_def nth_after_map by simp
qed (simp only: core_narg_def nth_after_map if_False)

lemma core_empty: "core_empty args = (if length args \<le> 10 then Some (args \<noteq> []) else None)"
proof (cases "length args \<le> 10")
  case True
  from up_to_10 [OF True] have "map Some [True, True, True, True, True, True, True, True, True, True, False] ! (10 - length args) =
      Some (length args \<noteq> 0)" by auto
  then show ?thesis using True unfolding core_empty_def nth_after_map by simp
qed (simp only: core_empty_def nth_after_map if_False)

text \<open>The reference: every accessor in turn, through one pointer variable.\<close>

fun chase :: "reader \<Rightarrow> bytes \<Rightarrow> u64 \<Rightarrow> accessor list \<Rightarrow> bytes" where
  "chase fn t src [] = t"
| "chase fn t src (a # as) = (let t' = snd (fn t src a) in chase fn t' (le_word t') as)"

definition chase_read :: "reader \<Rightarrow> reader \<Rightarrow> bytes \<Rightarrow> bytes \<Rightarrow> u64 \<Rightarrow> accessor list \<Rightarrow> int \<times> bytes" where
  "chase_read fn fn_ptr t dst src as =
     (if length as = 1 then fn dst src (hd as)
      else fn dst (le_word (chase fn_ptr t src (butlast as))) (last as))"

lemma chase_snoc:
  "as \<noteq> [] \<Longrightarrow> chase fn t src (as @ [a]) =
     snd (fn (chase fn t src as) (le_word (chase fn t src as)) a)"
  by (induction as arbitrary: t src rule: induct_list012) (simp_all add: Let_def)

lemma select_args:
  "length args \<in> {1..10} \<Longrightarrow> core_last args = Some (args ! (length args - 1))"
  "length args \<in> {2..10} \<Longrightarrow> core_nolast args = Some (take (length args - 1) args)"
  "length args \<in> {1..10} \<Longrightarrow> core_arrow args = Some args"
  by (simp_all add: core_last_def core_nolast_def core_arrow_def core_narg)

lemma rd_p_chase:
  "length as = Suc n \<Longrightarrow> n < 9 \<Longrightarrow> rd_p (Suc n) fn t src (None # map Some as) = Some (chase fn t src as)"
proof (induction n arbitrary: as)
  case 0
  then show ?case by (auto simp: length_Suc_conv)
next
  case (Suc n)
  then obtain front a where as: "as = front @ [a]" and front: "length front = Suc n"
    by (cases as rule: rev_cases) auto
  let ?args = "None # map Some as"
  have len: "length ?args = Suc (Suc (Suc n))" using as front by simp
  have "core_nolast ?args = Some (None # map Some front)" "core_last ?args = Some (Some a)"
    using Suc.prems(2) len as front by (simp_all add: select_args nth_append)
  moreover have "core_arrow (None # map Some front) = Some (None # map Some front)"
    using Suc.prems(2) front by (simp add: select_args)
  moreover have "rd_p (Suc n) fn t src (None # map Some front) = Some (chase fn t src front)"
    using Suc.IH [OF front] Suc.prems(2) by simp
  moreover have "front \<noteq> []" using front by auto
  ultimately show ?case by (simp add: as chase_snoc)
qed

lemma core_read_ladder:
  "core_read fn fn_ptr t dst src as =
     (if as \<noteq> [] \<and> length as \<le> 10 then Some (chase_read fn fn_ptr t dst src as) else None)"
proof (cases as)
  case (Cons a rest)
  show ?thesis
  proof (cases "rest = [] \<or> 10 < length as")
    case True
    then consider "rest = []" | "rest \<noteq> []" "length as = 11" | "10 < length rest" using Cons by force
    then show ?thesis
      by cases (simp_all add: Cons core_read_def core_empty core_read0_def chase_read_def
          core_readN_def core_nolast_def core_narg)
  next
    case False
    let ?front = "butlast as"
    have len: "length ?front = Suc (length rest - 1)" "length rest - 1 < 9" "length as \<in> {2..10}"
      using False Cons by (auto simp: Suc_le_eq)
    have "core_nolast as = Some ?front" "core_last as = Some (last as)"
      using len(3) Cons by (simp_all add: select_args butlast_conv_take last_conv_nth)
    moreover have "core_read_ptrs fn_ptr t src ?front = Some (chase fn_ptr t src ?front)"
      using rd_p_chase [OF len(1,2)] len(1,2) by (simp add: core_read_ptrs_def core_narg)
    moreover have "core_arrow (None # map Some ?front) = Some (None # map Some ?front)"
      using len(1,2) by (simp add: select_args)
    ultimately show ?thesis
      using False Cons len(3) by (simp add: core_read_def core_empty core_readN_def chase_read_def)
  qed
qed (simp add: core_read_def)

lemma read_ptrs_chase: "read_ptrs env t src as = chase (bpf_core_read env) t src as"
  by (induction env t src as rule: read_ptrs.induct) (simp_all add: Let_def)

text \<open>
  C39: The macro ladders chase pointers. \<open>___core_read\<close> compiles for one to ten
  accessors, one more than its documentation promises, and then reads every
  accessor but the last with the pointer reader, each at the address read
  before, and the last with the final reader; \<open>BPF_CORE_READ_INTO\<close> is the
  relocated instance.
\<close>

theorem core_read_chases:
  "core_read fn fn_ptr t dst src as =
     (if as \<noteq> [] \<and> length as \<le> 10 then Some (chase_read fn fn_ptr t dst src as) else None) \<and>
   core_read (bpf_core_read env) (bpf_core_read env) (uninit env 8) dst src as =
     (if as \<noteq> [] \<and> length as \<le> 10 then Some (BPF_CORE_READ_INTO env dst src as) else None)"
  by (cases as; cases "tl as")
    (simp_all add: core_read_ladder BPF_CORE_READ_INTO_def chase_read_def read_ptrs_chase)

end
