(* ===== verification/Bpf_Helpers.thy ===== *)
theory Bpf_Helpers
  imports Prelude
begin

text \<open>
  \<open>bpf_helpers.h\<close>: the version number, the macros that count and collect
  variadic arguments, the printing macros built from them, and the loops over
  kernel iterators. \<open>None\<close> stands for an expansion that does not compile. The
  helper functions and the iterator functions are the kernel's; they are
  arguments of the definitions, and what the number iterator documents is the
  locale \<open>num_iter\<close>.
\<close>

section \<open>Versions and enumerations\<close>

definition KERNEL_VERSION :: "int \<Rightarrow> int \<Rightarrow> int \<Rightarrow> int" where
  "KERNEL_VERSION a b c = push_bit 16 a + push_bit 8 b + (if 255 < c then 255 else c)"

text \<open>
  Versions compare as their numbers do, as long as the minor number is a
  byte; patch levels from 255 on are all the same.
\<close>

lemma kernel_version_order:
  assumes "0 \<le> b" "b \<le> 255" "0 \<le> c" "0 \<le> b'" "b' \<le> 255" "0 \<le> c'"
  shows "KERNEL_VERSION a b c \<le> KERNEL_VERSION a' b' c' \<longleftrightarrow>
    a < a' \<or> a = a' \<and> (b < b' \<or> b = b' \<and> min c 255 \<le> min c' 255)"
  using assms by (auto simp: KERNEL_VERSION_def push_bit_eq_mult)

datatype libbpf_pin_type = LIBBPF_PIN_NONE | LIBBPF_PIN_BY_NAME

fun pin_type_value :: "libbpf_pin_type \<Rightarrow> int" where
  "pin_type_value LIBBPF_PIN_NONE = 0"
| "pin_type_value LIBBPF_PIN_BY_NAME = 1"

datatype libbpf_tristate = TRI_NO | TRI_YES | TRI_MODULE

fun tristate_value :: "libbpf_tristate \<Rightarrow> int" where
  "tristate_value TRI_NO = 0"
| "tristate_value TRI_YES = 1"
| "tristate_value TRI_MODULE = 2"

section \<open>Counting and collecting arguments\<close>

text \<open>\<open>___bpf_nth\<close>: the fourteenth argument; \<open>None\<close> when there are fewer.\<close>

definition bpf_nth :: "'t list \<Rightarrow> 't option" where
  "bpf_nth ts = (if 13 < length ts then Some (ts ! 13) else None)"

text \<open>
  The tokens handed to \<open>___bpf_nth\<close>: the filler \<open>_\<close>, an argument of the call,
  or one of the tokens the macro lists behind them.
\<close>

datatype ('a, 'n) token = Filler | Arg 'a | Listed 'n

text \<open>A macro that lists \<open>ns\<close> behind the arguments and uses what \<open>___bpf_nth\<close> picks.\<close>

definition pick_token :: "'n list \<Rightarrow> 'a list \<Rightarrow> 'n option" where
  "pick_token ns args =
     (case bpf_nth (Filler # map Arg args @ map Listed ns) of Some (Listed n) \<Rightarrow> Some n | _ \<Rightarrow> None)"

lemma pick_token_nth:
  assumes "length ns = 13"
  shows "pick_token ns args = (if length args \<le> 12 then Some (ns ! (12 - length args)) else None)"
proof (cases "length args \<le> 12")
  case True
  then have "12 - length args < length ns" using assms by simp
  then show ?thesis using True assms by (simp add: pick_token_def bpf_nth_def nth_append)
next
  case False
  then have "12 < length args" by simp
  then show ?thesis using assms by (simp add: pick_token_def bpf_nth_def nth_append)
qed

definition helpers_narg :: "'a list \<Rightarrow> nat option" where
  "helpers_narg args = pick_token [12, 11, 10, 9, 8, 7, 6, 5, 4, 3, 2, 1, 0] args"

lemma helpers_narg: "helpers_narg args = (if length args \<le> 12 then Some (length args) else None)"
proof -
  have "[12, 11, 10, 9, 8, 7, 6, 5, 4, 3, 2, 1, 0] = rev [0..<13]" by (simp add: upt_rec)
  moreover have "rev [0..<13] ! (12 - n) = n" if "n \<le> 12" for n
    using that by (simp add: rev_nth del: upt_Suc)
  ultimately show ?thesis
    unfolding helpers_narg_def by (simp add: pick_token_nth del: upt_Suc)
qed

text \<open>The ladder \<open>___bpf_fill0\<close> to \<open>___bpf_fill12\<close>; the first argument is the number in the name.\<close>

fun bpf_fillN :: "nat \<Rightarrow> 'a list \<Rightarrow> nat \<Rightarrow> 'a list \<Rightarrow> 'a list option" where
  "bpf_fillN 0 arr p args = Some arr"
| "bpf_fillN (Suc n) arr p [] = None"
| "bpf_fillN (Suc 0) arr p [x] = Some (arr[p := x])"
| "bpf_fillN (Suc 0) arr p (x # y # args) = None"
| "bpf_fillN (Suc (Suc n)) arr p (x # args) = bpf_fillN (Suc n) (arr[p := x]) (p + 1) args"

definition bpf_fill :: "'a list \<Rightarrow> 'a list \<Rightarrow> 'a list option" where
  "bpf_fill arr args =
     (case helpers_narg args of None \<Rightarrow> None | Some n \<Rightarrow> bpf_fillN n arr 0 args)"

lemma bpf_fillN_blit:
  "length args = n \<Longrightarrow> p + n \<le> length arr \<Longrightarrow> bpf_fillN n arr p args = Some (blit p arr args)"
proof (induction n arr p args rule: bpf_fillN.induct)
  case (3 arr p x)
  then show ?case by (simp add: blit_def upd_conv_take_nth_drop)
next
  case (5 n arr p x args)
  then have "bpf_fillN (Suc n) (arr[p := x]) (p + 1) args = Some (blit (p + 1) (arr[p := x]) args)"
    by simp
  moreover have "take (p + 1) (arr[p := x]) = take p arr @ [x]"
    using 5 by (simp add: take_Suc_conv_app_nth)
  ultimately show ?case using 5 by (simp add: blit_def)
qed (simp_all add: blit_def)

lemma bpf_fill_args:
  assumes "length args \<le> 12" and "length arr = length args"
  shows "bpf_fill arr args = Some args"
  using assms bpf_fillN_blit [of args "length args" 0 arr]
  by (simp add: bpf_fill_def helpers_narg blit_def)

section \<open>Printing\<close>

text \<open>
  The array \<open>___param\<close> is as long as there are arguments and uninitialised
  until it is filled; \<open>sizeof\<close> of it counts 8 bytes each. The format string
  is an array with a final NUL.
\<close>

definition param_array :: "(nat \<Rightarrow> u64 list) \<Rightarrow> u64 list \<Rightarrow> u64 list option" where
  "param_array uninit args =
     (case helpers_narg args of None \<Rightarrow> None | Some n \<Rightarrow> bpf_fill (uninit n) args)"

definition fmt_array :: "bytes \<Rightarrow> bytes" where
  "fmt_array fmt = fmt @ [0]"

definition BPF_SEQ_PRINTF ::
  "(nat \<Rightarrow> u64 list) \<Rightarrow> ('seq \<Rightarrow> bytes \<Rightarrow> nat \<Rightarrow> u64 list \<Rightarrow> nat \<Rightarrow> 'r) \<Rightarrow> 'seq \<Rightarrow> bytes \<Rightarrow> u64 list \<Rightarrow> 'r option" where
  "BPF_SEQ_PRINTF uninit bpf_seq_printf seq fmt args =
     map_option (\<lambda>param. bpf_seq_printf seq (fmt_array fmt) (length (fmt_array fmt)) param (8 * length param))
       (param_array uninit args)"

definition BPF_SNPRINTF ::
  "(nat \<Rightarrow> u64 list) \<Rightarrow> ('out \<Rightarrow> nat \<Rightarrow> bytes \<Rightarrow> u64 list \<Rightarrow> nat \<Rightarrow> 'r) \<Rightarrow> 'out \<Rightarrow> nat \<Rightarrow> bytes \<Rightarrow> u64 list \<Rightarrow> 'r option" where
  "BPF_SNPRINTF uninit bpf_snprintf out out_size fmt args =
     map_option (\<lambda>param. bpf_snprintf out out_size (fmt_array fmt) param (8 * length param))
       (param_array uninit args)"

text \<open>The helpers behind \<open>bpf_printk\<close>, as functions of what the macros pass them.\<close>

record 'r trace_helpers =
  trace_printk :: "bytes \<Rightarrow> nat \<Rightarrow> u64 list \<Rightarrow> 'r"
  trace_vprintk :: "bytes \<Rightarrow> nat \<Rightarrow> u64 list \<Rightarrow> nat \<Rightarrow> 'r"

definition bpf_printk_raw :: "'r trace_helpers \<Rightarrow> bytes \<Rightarrow> u64 list \<Rightarrow> 'r" where
  "bpf_printk_raw h fmt args = trace_printk h (fmt_array fmt) (length (fmt_array fmt)) args"

definition bpf_vprintk :: "(nat \<Rightarrow> u64 list) \<Rightarrow> 'r trace_helpers \<Rightarrow> bytes \<Rightarrow> u64 list \<Rightarrow> 'r option" where
  "bpf_vprintk uninit h fmt args =
     map_option (\<lambda>param. trace_vprintk h (fmt_array fmt) (length (fmt_array fmt)) param (8 * length param))
       (param_array uninit args)"

definition bpf_stream_printk ::
  "(nat \<Rightarrow> u64 list) \<Rightarrow> (int \<Rightarrow> bytes \<Rightarrow> u64 list \<Rightarrow> nat \<Rightarrow> 'r) \<Rightarrow> int \<Rightarrow> bytes \<Rightarrow> u64 list \<Rightarrow> 'r option" where
  "bpf_stream_printk uninit bpf_stream_vprintk stream_id fmt args =
     map_option (\<lambda>param. bpf_stream_vprintk stream_id (fmt_array fmt) param (8 * length param))
       (param_array uninit args)"

datatype printk_macro = Printk | Vprintk

definition bpf_pick_printk :: "'a list \<Rightarrow> printk_macro option" where
  "bpf_pick_printk args =
     pick_token [Vprintk, Vprintk, Vprintk, Vprintk, Vprintk, Vprintk, Vprintk, Vprintk, Vprintk,
       Printk, Printk, Printk, Printk] args"

definition bpf_printk :: "(nat \<Rightarrow> u64 list) \<Rightarrow> 'r trace_helpers \<Rightarrow> bytes \<Rightarrow> u64 list \<Rightarrow> 'r option" where
  "bpf_printk uninit h fmt args =
     (case bpf_pick_printk args of None \<Rightarrow> None
      | Some Printk \<Rightarrow> Some (bpf_printk_raw h fmt args)
      | Some Vprintk \<Rightarrow> bpf_vprintk uninit h fmt args)"

lemma param_array:
  assumes "\<And>n. length (uninit n) = n"
  shows "param_array uninit args = (if length args \<le> 12 then Some args else None)"
  by (simp add: param_array_def helpers_narg bpf_fill_args assms)

lemma pick_printk:
  "bpf_pick_printk args =
     (if length args \<le> 3 then Some Printk else if length args \<le> 12 then Some Vprintk else None)"
proof -
  let ?ns = "[Vprintk, Vprintk, Vprintk, Vprintk, Vprintk, Vprintk, Vprintk, Vprintk, Vprintk,
    Printk, Printk, Printk, Printk]"
  have "?ns ! (12 - n) = (if n \<le> 3 then Printk else Vprintk)" if "n \<le> 12" for n
    using that by (auto simp: le_Suc_eq numeral_eq_Suc)
  moreover obtain ns where ns: "?ns = ns" by simp
  ultimately have "ns ! (12 - n) = (if n \<le> 3 then Printk else Vprintk)" if "n \<le> 12" for n
    using that by simp
  moreover have "length ns = 13" using ns by auto
  ultimately show ?thesis unfolding bpf_pick_printk_def ns by (simp add: pick_token_nth)
qed

text \<open>
  C31: Every printing macro hands the helper the arguments of the call, in order,
  with the sizes of the format and of the argument array: \<open>bpf_printk\<close> passes
  up to three of them directly to \<open>bpf_trace_printk\<close>, four to twelve as an
  array to \<open>bpf_trace_vprintk\<close>, and does not compile with more.
\<close>

theorem printk_passes_arguments:
  assumes "\<And>n. length (uninit n) = n"
  shows "bpf_printk uninit h fmt args =
      (if length args \<le> 3 then Some (trace_printk h (fmt @ [0]) (length fmt + 1) args)
       else if length args \<le> 12
       then Some (trace_vprintk h (fmt @ [0]) (length fmt + 1) args (8 * length args))
       else None) \<and>
    BPF_SEQ_PRINTF uninit seq_printf seq fmt args =
      (if length args \<le> 12 then Some (seq_printf seq (fmt @ [0]) (length fmt + 1) args (8 * length args)) else None) \<and>
    BPF_SNPRINTF uninit snprintf out n fmt args =
      (if length args \<le> 12 then Some (snprintf out n (fmt @ [0]) args (8 * length args)) else None) \<and>
    bpf_stream_printk uninit stream_vprintk sid fmt args =
      (if length args \<le> 12 then Some (stream_vprintk sid (fmt @ [0]) args (8 * length args)) else None)"
  by (simp_all add: bpf_printk_def pick_printk bpf_printk_raw_def bpf_vprintk_def BPF_SEQ_PRINTF_def
      BPF_SNPRINTF_def bpf_stream_printk_def param_array [OF assms] fmt_array_def)

theorem printk_passes_arguments_witness:
  "bpf_printk (\<lambda>n. replicate n 7) \<lparr>trace_printk = (\<lambda>f n a. (n, a, 0)), trace_vprintk = (\<lambda>f n a s. (n, a, s))\<rparr>
     (str ''x'') [1, 2, 3, 4] = Some (2, [1, 2, 3, 4], 32)"
  by (subst printk_passes_arguments [THEN conjunct1]) (simp_all add: str_def)

end
