(* ===== verification/Bpf_Iter.thy ===== *)
theory Bpf_Iter
  imports Prelude
begin

text \<open>
  The loops of \<open>bpf_helpers.h\<close> over kernel iterators: \<open>bpf_for_each\<close>, \<open>bpf_for\<close>
  and \<open>bpf_repeat\<close>. The iterator functions are kernel functions the header only
  declares; a loop that goes on for ever is \<open>None\<close>. The locale \<open>iterator\<close> says
  what a \<open>next\<close> function promises, \<open>num_iter\<close> adds what \<open>bpf_iter_num_new\<close>
  documents; under it every loop ends, with the result of running its body
  over the numbers in order.
\<close>

section \<open>The loops\<close>

text \<open>How one run of a loop body ends: \<open>continue\<close> or falling through, or \<open>break\<close>.\<close>

datatype ctl = Continue | Break

type_synonym ('c, 's) loop_body = "'c \<Rightarrow> 's \<Rightarrow> ctl \<times> 's"

text \<open>The \<open>for\<close> statement behind the three macros: ask for an element, stop at NULL.\<close>

partial_function (option) iter_loop ::
  "('it \<Rightarrow> 'c option \<times> 'it) \<Rightarrow> ('c, 's) loop_body \<Rightarrow> 'it \<Rightarrow> 's \<Rightarrow> ('it \<times> 's) option" where
  "iter_loop next body it s =
     (case next it of
        (None, it') \<Rightarrow> Some (it', s)
      | (Some c, it') \<Rightarrow>
          (case body c s of
             (Break, s') \<Rightarrow> Some (it', s')
           | (Continue, s') \<Rightarrow> iter_loop next body it' s'))"

text \<open>\<open>new\<close> initialises the iterator once; \<open>destroy\<close> runs when the loop is left, whichever way.\<close>

definition bpf_for_each ::
  "('a \<Rightarrow> 'it) \<Rightarrow> ('it \<Rightarrow> 'c option \<times> 'it) \<Rightarrow> ('it \<Rightarrow> 'd) \<Rightarrow> 'a \<Rightarrow> ('c, 's) loop_body \<Rightarrow> 's \<Rightarrow> ('d \<times> 's) option" where
  "bpf_for_each new next destroy args body s =
     map_option (\<lambda>(it, s). (destroy it, s)) (iter_loop next body (new args) s)"

text \<open>The step of \<open>bpf_for\<close>: an element outside the range ends the loop as well.\<close>

definition bpf_for_next :: "('it \<Rightarrow> int option \<times> 'it) \<Rightarrow> int \<Rightarrow> int \<Rightarrow> 'it \<Rightarrow> int option \<times> 'it" where
  "bpf_for_next next start fin it =
     (case next it of
        (None, it') \<Rightarrow> (None, it')
      | (Some t, it') \<Rightarrow> (if start \<le> t \<and> t < fin then Some t else None, it'))"

definition bpf_for ::
  "(int \<times> int \<Rightarrow> 'it) \<Rightarrow> ('it \<Rightarrow> int option \<times> 'it) \<Rightarrow> ('it \<Rightarrow> 'd) \<Rightarrow> int \<Rightarrow> int \<Rightarrow> (int, 's) loop_body \<Rightarrow> 's \<Rightarrow> ('d \<times> 's) option" where
  "bpf_for new next destroy start fin body s =
     map_option (\<lambda>(it, s). (destroy it, s))
       (iter_loop (bpf_for_next next start fin) body (new (start, fin)) s)"

definition bpf_repeat ::
  "(int \<times> int \<Rightarrow> 'it) \<Rightarrow> ('it \<Rightarrow> int option \<times> 'it) \<Rightarrow> ('it \<Rightarrow> 'd) \<Rightarrow> int \<Rightarrow> ('s \<Rightarrow> ctl \<times> 's) \<Rightarrow> 's \<Rightarrow> ('d \<times> 's) option" where
  "bpf_repeat new next destroy n body s =
     map_option (\<lambda>(it, s). (destroy it, s)) (iter_loop next (\<lambda>_. body) (new (0, n)) s)"

section \<open>Running a body over a list\<close>

fun run_body :: "('c, 's) loop_body \<Rightarrow> 'c list \<Rightarrow> 's \<Rightarrow> 's" where
  "run_body body [] s = s"
| "run_body body (c # cs) s =
     (case body c s of (Break, s') \<Rightarrow> s' | (Continue, s') \<Rightarrow> run_body body cs s')"

lemma run_body_fold: "run_body (\<lambda>c s. (Continue, f c s)) cs s = fold f cs s"
  by (induction cs arbitrary: s) simp_all

lemma run_body_const:
  "length cs = length cs' \<Longrightarrow> run_body (\<lambda>_. body) cs s = run_body (\<lambda>_. body) cs' s"
proof (induction cs cs' arbitrary: s rule: list_induct2)
  case (Cons x xs y ys)
  then show ?case by (auto split: prod.split ctl.split)
qed simp

section \<open>What iterators promise\<close>

text \<open>\<open>left\<close> lists the elements an iterator has still to give.\<close>

locale iterator =
  fixes nxt :: "'it \<Rightarrow> 'c option \<times> 'it"
    and left :: "'it \<Rightarrow> 'c list"
  assumes next_end: "left it = [] \<Longrightarrow> fst (nxt it) = None"
    and next_more: "left it = c # cs \<Longrightarrow> fst (nxt it) = Some c \<and> left (snd (nxt it)) = cs"
begin

lemma loop_runs: "\<exists>it'. iter_loop nxt body it s = Some (it', run_body body (left it) s)"
proof (induction "left it" arbitrary: it s)
  case Nil
  then obtain it' where "nxt it = (None, it')" using next_end [of it] by (cases "nxt it") auto
  then show ?case using Nil by (subst iter_loop.simps) (simp flip: Nil)
next
  case (Cons c cs)
  obtain it' where n: "nxt it = (Some c, it')" and l: "left it' = cs"
    using next_more [OF Cons(2) [symmetric]] by (cases "nxt it") auto
  obtain k s' where b: "body c s = (k, s')" by fastforce
  show ?case
  proof (cases k)
    case Continue
    then show ?thesis
      using Cons(1) [OF l [symmetric], of s'] by (subst iter_loop.simps) (simp add: n b l flip: Cons(2))
  next
    case Break
    then show ?thesis by (subst iter_loop.simps) (simp add: n b flip: Cons(2))
  qed
qed

end

locale int_iter = iterator nxt left
  for nxt :: "'it \<Rightarrow> int option \<times> 'it" and left
begin

lemma bounded_iterator:
  "iterator (bpf_for_next nxt start fin) (\<lambda>it. takeWhile (\<lambda>t. start \<le> t \<and> t < fin) (left it))"
proof
  fix it
  assume e: "takeWhile (\<lambda>t. start \<le> t \<and> t < fin) (left it) = []"
  show "fst (bpf_for_next nxt start fin it) = None"
  proof (cases "left it")
    case Nil
    then show ?thesis using next_end [of it] by (auto simp: bpf_for_next_def split: prod.splits option.splits)
  next
    case (Cons c cs)
    then show ?thesis
      using next_more [OF Cons] e by (auto simp: bpf_for_next_def split: prod.split option.split if_splits)
  qed
next
  fix it c cs
  assume e: "takeWhile (\<lambda>t. start \<le> t \<and> t < fin) (left it) = c # cs"
  then obtain ds where l: "left it = c # ds" by (cases "left it") (auto split: if_splits)
  then show "fst (bpf_for_next nxt start fin it) = Some c \<and>
      takeWhile (\<lambda>t. start \<le> t \<and> t < fin) (left (snd (bpf_for_next nxt start fin it))) = cs"
    using next_more [OF l] e by (auto simp: bpf_for_next_def split: prod.split option.split if_splits)
qed

lemma bounded_loop_runs:
  "\<exists>it'. iter_loop (bpf_for_next nxt start fin) body it s =
     Some (it', run_body body (takeWhile (\<lambda>t. start \<le> t \<and> t < fin) (left it)) s)"
  by (rule iterator.loop_runs [OF bounded_iterator])

end

text \<open>
  The number iterator: between \<open>start\<close> and \<open>end\<close>, in order. An empty or
  inverted range, or one longer than the kernel's limit, gives nothing.
\<close>

definition BPF_MAX_LOOPS :: int where "BPF_MAX_LOOPS = 8 * 1024 * 1024"

definition num_range :: "int \<Rightarrow> int \<Rightarrow> int list" where
  "num_range start fin = (if fin - start \<le> BPF_MAX_LOOPS then [start..fin - 1] else [])"

locale num_iter = int_iter nxt left
  for nxt :: "'it \<Rightarrow> int option \<times> 'it" and left +
  fixes new :: "int \<times> int \<Rightarrow> 'it"
  assumes left_new: "left (new (start, fin)) = num_range start fin"
begin

lemma for_runs:
  "\<exists>it. bpf_for new nxt destroy start fin body s =
     Some (destroy it, run_body body (num_range start fin) s)"
proof -
  have all: "takeWhile (\<lambda>t. start \<le> t \<and> t < fin) (num_range start fin) = num_range start fin"
    unfolding takeWhile_eq_all_conv by (auto simp: num_range_def)
  obtain it where "iter_loop (bpf_for_next nxt start fin) body (new (start, fin)) s =
      Some (it, run_body body (num_range start fin) s)"
    using bounded_loop_runs [of start fin body "new (start, fin)" s] unfolding left_new all by blast
  then show ?thesis unfolding bpf_for_def by auto
qed

lemma for_each_runs:
  "\<exists>it. bpf_for_each new nxt destroy (start, fin) body s =
     Some (destroy it, run_body body (num_range start fin) s)"
  using loop_runs [of body "new (start, fin)" s] by (auto simp: bpf_for_each_def left_new)

lemma repeat_runs:
  "\<exists>it. bpf_repeat new nxt destroy n body s =
     Some (destroy it, run_body (\<lambda>_. body) (num_range 0 n) s)"
  using loop_runs [of "\<lambda>_. body" "new (0, n)" s] by (auto simp: bpf_repeat_def left_new)

end

section \<open>The kernel's iterator\<close>

text \<open>
  The state \<open>vmlinux.h\<close> gives the number iterator, with the documented
  behaviour of its functions: \<open>cur\<close> is one before the next number.
\<close>

record bpf_iter_num_kern =
  it_cur :: int
  it_end :: int

definition counter_new :: "int \<times> int \<Rightarrow> bpf_iter_num_kern" where
  "counter_new = (\<lambda>(start, fin).
     if start \<le> fin \<and> fin - start \<le> BPF_MAX_LOOPS
     then \<lparr>it_cur = start - 1, it_end = fin\<rparr> else \<lparr>it_cur = 0, it_end = 0\<rparr>)"

definition counter_next :: "bpf_iter_num_kern \<Rightarrow> int option \<times> bpf_iter_num_kern" where
  "counter_next it =
     (if it_end it \<le> it_cur it + 1 then (None, \<lparr>it_cur = 0, it_end = 0\<rparr>)
      else (Some (it_cur it + 1), it\<lparr>it_cur := it_cur it + 1\<rparr>))"

definition counter_left :: "bpf_iter_num_kern \<Rightarrow> int list" where
  "counter_left it = [it_cur it + 1..it_end it - 1]"

interpretation counter: num_iter counter_next counter_left counter_new
proof
  fix it :: bpf_iter_num_kern
  assume "counter_left it = []"
  then show "fst (counter_next it) = None" by (simp add: counter_left_def counter_next_def)
next
  fix it :: bpf_iter_num_kern and c cs
  assume "counter_left it = c # cs"
  then have "it_cur it + 1 \<le> it_end it - 1" and "c = it_cur it + 1" and "cs = [it_cur it + 1 + 1..it_end it - 1]"
    by (auto simp: counter_left_def upto.simps [of "it_cur it + 1"] split: if_splits)
  then show "fst (counter_next it) = Some c \<and> counter_left (snd (counter_next it)) = cs"
    by (simp add: counter_next_def counter_left_def)
next
  fix start fin :: int
  show "counter_left (counter_new (start, fin)) = num_range start fin"
    by (simp add: counter_left_def counter_new_def num_range_def)
qed

section \<open>Every loop ends\<close>

text \<open>
  C20: With any kernel iterator that keeps its promise, the loops end and run their
  body over the numbers from the start to before the end, in order, until it
  breaks; the iterator is destroyed once. \<open>bpf_repeat\<close> runs its body the given
  number of times.
\<close>

theorem iterator_loops_end:
  assumes "num_iter nxt left new"
  shows "(\<exists>it. bpf_for new nxt destroy start fin body s =
        Some (destroy it, run_body body (num_range start fin) s)) \<and>
    (\<exists>it. bpf_for_each new nxt destroy (start, fin) body s =
        Some (destroy it, run_body body (num_range start fin) s)) \<and>
    (\<exists>it. bpf_repeat new nxt destroy n action s =
        Some (destroy it, run_body (\<lambda>_. action) (num_range 0 n) s))"
  by (intro conjI num_iter.for_runs [OF assms] num_iter.for_each_runs [OF assms] num_iter.repeat_runs [OF assms])

theorem iterator_loops_end_witness:
  "map_option snd (bpf_for counter_new counter_next (\<lambda>it. ()) 3 7
     (\<lambda>i s. (if i = 5 then Break else Continue, s @ [i])) []) = Some [3, 4, 5]"
proof -
  have "num_range 3 7 = [3, 4, 5, 6]" by (simp add: num_range_def BPF_MAX_LOOPS_def upto.simps)
  then show ?thesis
    using iterator_loops_end [OF counter.num_iter_axioms, of "\<lambda>_. ()" 3 7
        "\<lambda>i s. (if i = 5 then Break else Continue, s @ [i])" "[]"] by auto
qed

end
