(* ===== verification/Prevent_Enforce.thy ===== *)
theory Prevent_Enforce
  imports Prevent_Apply
begin

text \<open>
  What the kernel enforces once the agent has loaded a compiled policy: the
  rule a policy gives for a program start, the verdict of \<open>check_exec\<close> after
  \<open>apply\<close>, the executables no path or directory rule stops, agreement with the
  decision the agent takes in user space, and the loads that fail.
\<close>

section \<open>The rule a policy enforces\<close>

fun nearest_dir :: "go_os \<Rightarrow> compiled list \<Rightarrow> dir_key list \<Rightarrow> compiled option" where
  "nearest_dir os rs [] = None"
| "nearest_dir os rs (key # keys) =
     (case find (dir_rule os key) (rev rs) of Some c \<Rightarrow> Some c | None \<Rightarrow> nearest_dir os rs keys)"

text \<open>The path's own rule, else the nearest directory's, else the first parent rule that names both.\<close>

definition enforced_rule ::
  "go_os \<Rightarrow> compiled list \<Rightarrow> bytes \<Rightarrow> dir_key list \<Rightarrow> bytes \<Rightarrow> bytes \<Rightarrow> compiled option" where
  "enforced_rule os rs key dirs base pbase =
     (case find (path_rule key) (rev rs) of Some c \<Rightarrow> Some c
      | None \<Rightarrow>
        (case nearest_dir os rs dirs of Some c \<Rightarrow> Some c
         | None \<Rightarrow> find (name_rule base pbase) rs))"

text \<open>The identities of the directories above a file, nearest first.\<close>

definition keys_above :: "'a bpf_env_scheme \<Rightarrow> u64 \<times> u64 \<Rightarrow> nat list \<Rightarrow> dir_key list" where
  "keys_above env p ks =
     List.map_filter (\<lambda>k. map_option (\<lambda>(d, vm). dir_key_of env d) (up_n env k p)) ks"

definition dir_keys :: "'a bpf_env_scheme \<Rightarrow> u64 \<Rightarrow> u64 \<Rightarrow> dir_key list" where
  "dir_keys env d vm = keys_above env (d_parent env d, vm) [0..<MAX_DEPTH]"

lemma nearest_rule_above:
  assumes "deny_dir st = (\<lambda>k. map_option rule_idx (find (dir_rule os k) (rev rs)))"
  shows "(case find (\<lambda>k. rule_at env st p k \<noteq> None) ks of None \<Rightarrow> None | Some k \<Rightarrow> rule_at env st p k) =
    map_option rule_idx (nearest_dir os rs (keys_above env p ks))"
proof (induction ks)
  case (Cons k ks)
  then show ?case
    by (cases "up_n env k p")
      (auto simp: rule_at_def keys_above_def List.map_filter_simps assms split: option.split)
qed (simp add: keys_above_def List.map_filter_simps)

lemma nearest_dir_set: "nearest_dir os rs keys = Some c \<Longrightarrow> c \<in> set rs"
  by (induction keys) (auto simp: find_Some_iff rev_nth split: option.splits)

lemma enforced_rule_set: "enforced_rule os rs key dirs base pbase = Some c \<Longrightarrow> c \<in> set rs"
  by (auto simp: enforced_rule_def find_Some_iff rev_nth dest: nearest_dir_set split: option.splits)

definition names_clash_free :: "go_policy \<Rightarrow> bool" where
  "names_clash_free p \<longleftrightarrow>
     inj_on (\<lambda>n. fixed n NAME_LEN) (\<Union>c \<in> set (parents_in (pol_rules p)). set (c_parents c)) \<and>
     inj_on (\<lambda>n. fixed n NAME_LEN) (\<Union>c \<in> set (parents_in (pol_rules p)). set (c_children c))"

text \<open>
  The maps hold exactly a list of rules: for every path and directory the
  number of the last rule that names it, the action of every rule, the number
  of every parent rule in its slot, the masks of all names, and in the
  configuration which kinds of rules there are. Nothing else is left in them.
\<close>

definition holds_policy :: "go_os \<Rightarrow> compiled list \<Rightarrow> prevent_st \<Rightarrow> bool" where
  "holds_policy os rs st \<longleftrightarrow>
     deny_path st = (\<lambda>k. map_option rule_idx (find (path_rule k) (rev rs))) \<and>
     deny_dir st = (\<lambda>k. map_option rule_idx (find (dir_rule os k) (rev rs))) \<and>
     (\<forall>c \<in> set rs. rule_action st ! c_index c = rule_act c) \<and>
     (\<forall>j < length (parents_in rs). parent_rule st ! j = rule_idx (parents_in rs ! j)) \<and>
     mask_ok c_parents (parents_in rs) (parent_mask st) \<and>
     mask_ok c_children (parents_in rs) (child_mask st) \<and>
     (bit (prevent_config st ! 0) 0 \<longleftrightarrow> (\<exists>c \<in> set rs. r_type c = TypePath \<and> length (r_value c) < PATH_LEN)) \<and>
     (bit (prevent_config st ! 0) 1 \<longleftrightarrow> (\<exists>c \<in> set rs. r_type c = TypeDir \<and> stat_key os (r_value c) \<noteq> None)) \<and>
     (bit (prevent_config st ! 0) 2 \<longleftrightarrow> parents_in rs \<noteq> []) \<and>
     (\<forall>n > 2. \<not> bit (prevent_config st ! 0) n)"

lemma load_masks_result:
  assumes "load_masks range_map l = (st, None)" and "loaded os rs l" and "names_loaded rs l"
    and "\<And>xs. set (range_map xs) = set xs"
  shows "deny_path st = deny_path (ld_st l)" "deny_dir st = deny_dir (ld_st l)"
    "rule_action st = rule_action (ld_st l)" "parent_rule st = parent_rule (ld_st l)"
    "mask_ok c_parents (parents_in rs) (parent_mask st)" "mask_ok c_children (parents_in rs) (child_mask st)"
proof -
  obtain st1 st2 where 1: "fold_until put_parent_mask (range_map (ld_parent l)) (ld_st l) = (st1, None)"
    and 2: "fold_until put_child_mask (range_map (ld_child l)) st1 = (st2, None)"
    and st: "st = st2\<lparr>prevent_config := prevent_config st\<rparr>"
    using assms(1) by (auto simp: load_masks_def split: prod.splits option.splits)
  note s1 = put_parent_all [OF 1] and s2 = put_child_all [OF 2]
  show "deny_path st = deny_path (ld_st l)" "deny_dir st = deny_dir (ld_st l)"
    "rule_action st = rule_action (ld_st l)" "parent_rule st = parent_rule (ld_st l)"
    by (subst st, subst s2, subst s1, simp)+
  have tables: "child_mask st = (\<lambda>k. case find (\<lambda>e. fixed (fst e) NAME_LEN = k) (rev (range_map (ld_child l))) of
        None \<Rightarrow> None | Some e \<Rightarrow> Some (snd e))"
    "parent_mask st = (\<lambda>k. case find (\<lambda>e. fixed (fst e) NAME_LEN = k) (rev (range_map (ld_parent l))) of
        None \<Rightarrow> None | Some e \<Rightarrow> Some (snd e))"
    using assms(3) arg_cong [OF st, of child_mask] arg_cong [OF s2, of child_mask] arg_cong [OF s1, of child_mask]
      arg_cong [OF st, of parent_mask] arg_cong [OF s2, of parent_mask] arg_cong [OF s1, of parent_mask]
    by (simp_all add: names_loaded_def fun_eq_iff split: option.split)
  note n = assms(3) [unfolded names_loaded_def] and L = assms(2) [unfolded loaded_def]
  show "mask_ok c_parents (parents_in rs) (parent_mask st)"
    unfolding tables(2) by (rule mask_ok_put [where xs = "ld_parent l"]) (use n L assms(4) in simp_all)
  show "mask_ok c_children (parents_in rs) (child_mask st)"
    unfolding tables(1) by (rule mask_ok_put [where xs = "ld_child l"]) (use n L assms(4) in simp_all)
qed

lemma applied_holds:
  assumes "prevent_ok (le_maps e)" and "policy_ok os g p"
    and "lsm_apply os range_map p e = (e', None)" and "\<And>xs. set (range_map xs) = set xs"
  shows "holds_policy os (pol_rules p) (le_maps e')"
proof -
  let ?st = "le_maps e'" and ?rs = "pol_rules p"
  have ix: "map c_index ?rs = [0..<length ?rs]" and len: "length ?rs \<le> MAX_RULES"
    using assms(2) by (simp_all add: policy_ok_def maxRules_def MAX_RULES_def)
  from assms(3) obtain l where l: "fold_until (load_rule os) ?rs (start_load (le_maps e)) = (l, None)"
    and m: "load_masks range_map l = (?st, None)"
    by (auto simp: lsm_apply_cases [OF assms(1)] split: prod.splits option.splits)
  note L = load_rules_loaded [OF l ix len assms(1)]
  note R = load_masks_result [OF m L [THEN conjunct1] L [THEN conjunct2] assms(4)]
  have cfg: "prevent_config ?st ! 0 = ld_has l"
    using load_masks_shape [of "(prevent_config (le_maps e))[0 := 0]" "scratch_map (le_maps e)" l range_map]
      load_rules_shape [OF assms(1), of os ?rs] l m assms(1)
    by (simp add: shape_ok_def prevent_ok_def)
  have "(\<exists>k. \<exists>c \<in> set ?rs. path_rule k c) \<longleftrightarrow> (\<exists>c \<in> set ?rs. r_type c = TypePath \<and> length (r_value c) < PATH_LEN)"
    "(\<exists>k. \<exists>c \<in> set ?rs. dir_rule os k c) \<longleftrightarrow> (\<exists>c \<in> set ?rs. r_type c = TypeDir \<and> stat_key os (r_value c) \<noteq> None)"
    by (auto simp: path_rule_def dir_rule_def)
  then show ?thesis
    using L [THEN conjunct1, unfolded loaded_def] R unfolding holds_policy_def cfg by simp
qed

lemma rule_idx_nth:
  assumes "map c_index rs = [0..<length rs]" and "length rs \<le> MAX_RULES" and "c \<in> set rs"
  shows "unat (rule_idx c) = c_index c" "c_index c < length rs" "rs ! c_index c = c"
proof -
  obtain j where j: "j < length rs" "rs ! j = c" using assms(3) by (auto simp: in_set_conv_nth)
  have "map c_index rs ! j = j" using assms(1) j(1) by simp
  then have "c_index c = j" using j by simp
  then show "c_index c < length rs" "rs ! c_index c = c" using j by simp_all
  then show "unat (rule_idx c) = c_index c"
    using assms(2) by (simp add: rule_idx_def MAX_RULES_def unat_of_nat)
qed

lemma policy_options:
  assumes "\<And>k. deny_path st k \<noteq> None \<Longrightarrow> bit has 0" and "dir \<noteq> None \<Longrightarrow> bit has 1"
    and "parent_spec st base pbase \<noteq> None \<Longrightarrow> bit has 2"
  shows "policy st has path dir base pbase =
    (case deny_path st path of Some r \<Rightarrow> Some r
     | None \<Rightarrow> (case dir of Some r \<Rightarrow> Some r | None \<Rightarrow> parent_spec st base pbase))"
  using assms(1) [of path] assms(2,3)
  by (cases "deny_path st path"; cases dir; cases "parent_spec st base pbase") (simp_all add: policy_def)

lemma word_zero_bits: "(h :: u32) = 0 \<longleftrightarrow> (\<forall>n. \<not> bit h n)"
  by (metis bit_0_eq bit_eqI bot_apply bot_bool_def)

lemma find_SomeD: "find P xs = Some x \<Longrightarrow> x \<in> set xs \<and> P x"
  by (auto simp: find_Some_iff)

lemma find_ex: "find P xs \<noteq> None \<Longrightarrow> \<exists>c \<in> set xs. P c"
  by (auto dest: find_SomeD)

lemma nearest_dir_ex: "nearest_dir os rs keys \<noteq> None \<Longrightarrow> \<exists>k. \<exists>c \<in> set rs. dir_rule os k c"
proof (induction keys)
  case (Cons k ks)
  then show ?case
    using find_ex [of "dir_rule os k" "rev rs"] by (cases "find (dir_rule os k) (rev rs)") auto
qed simp

text \<open>
  Maps that hold a policy give, for any program, the number of the rule the
  policy enforces, and its action.
\<close>

lemma holds_kinds:
  assumes "holds_policy os rs st"
  shows "find (path_rule key) (rev rs) \<noteq> None \<Longrightarrow> bit (prevent_config st ! 0) 0"
    and "nearest_dir os rs ks \<noteq> None \<Longrightarrow> bit (prevent_config st ! 0) 1"
    and "c \<in> set rs \<Longrightarrow> r_type c = TypeParent \<Longrightarrow> bit (prevent_config st ! 0) 2"
  using assms find_ex [of "path_rule key" "rev rs"] nearest_dir_ex [of os rs ks]
  by (auto simp: holds_policy_def path_rule_def dir_rule_def filter_empty_conv)

lemma holds_parent_spec:
  assumes "holds_policy os rs st"
  shows "parent_spec st base pbase = Some r \<Longrightarrow> \<exists>c \<in> set rs. r = rule_idx c \<and> name_rule base pbase c"
    and "inj_on (\<lambda>n. fixed n NAME_LEN) (\<Union>c \<in> set (parents_in rs). set (c_parents c)) \<Longrightarrow>
      inj_on (\<lambda>n. fixed n NAME_LEN) (\<Union>c \<in> set (parents_in rs). set (c_children c)) \<Longrightarrow>
      parent_spec st base pbase = map_option rule_idx (find (name_rule base pbase) rs)"
proof -
  note h = assms [unfolded holds_policy_def]
  show "\<exists>c \<in> set rs. r = rule_idx c \<and> name_rule base pbase c" if "parent_spec st base pbase = Some r"
    using parent_spec_names [of "parents_in rs" st base pbase r] h that by (auto simp: name_rule_def)
  show "parent_spec st base pbase = map_option rule_idx (find (name_rule base pbase) rs)"
    if "inj_on (\<lambda>n. fixed n NAME_LEN) (\<Union>c \<in> set (parents_in rs). set (c_parents c))"
      and "inj_on (\<lambda>n. fixed n NAME_LEN) (\<Union>c \<in> set (parents_in rs). set (c_children c))"
    by (rule parent_spec_rule [where ps = "parents_in rs"])
      (use h mask_ok_iff [OF _ that(1)] mask_ok_iff [OF _ that(2)] in auto)
qed

lemma holds_policy_rule:
  assumes "holds_policy os rs st"
  shows "policy st (prevent_config st ! 0) key (nearest_dir_rule env st d vm) base pbase =
    (case find (path_rule key) (rev rs) of Some c \<Rightarrow> Some (rule_idx c)
     | None \<Rightarrow>
       (case nearest_dir os rs (dir_keys env d vm) of Some c \<Rightarrow> Some (rule_idx c)
        | None \<Rightarrow> parent_spec st base pbase))"
proof -
  note h = assms [unfolded holds_policy_def]
  have near: "nearest_dir_rule env st d vm = map_option rule_idx (nearest_dir os rs (dir_keys env d vm))"
    unfolding nearest_dir_rule_def dir_keys_def using h by (intro nearest_rule_above) simp
  have par: "bit (prevent_config st ! 0) 2" if "parent_spec st base pbase = Some r" for r
    using holds_parent_spec(1) [OF assms that] holds_kinds(3) [OF assms] by (auto simp: name_rule_def)
  show ?thesis
    unfolding near
    by (subst policy_options)
      (use h par holds_kinds(1,2) [OF assms] in \<open>auto split: option.split\<close>)
qed

lemma holds_enforced:
  assumes "holds_policy os (pol_rules p) st" and "names_clash_free p"
  shows "policy st (prevent_config st ! 0) key (nearest_dir_rule env st d vm) base pbase =
    map_option rule_idx (enforced_rule os (pol_rules p) key (dir_keys env d vm) base pbase)"
  unfolding holds_policy_rule [OF assms(1)]
    holds_parent_spec(2) [OF assms(1) assms(2) [unfolded names_clash_free_def, THEN conjunct1]
      assms(2) [unfolded names_clash_free_def, THEN conjunct2]]
  by (simp add: enforced_rule_def split: option.split)

lemma applied_action:
  assumes "prevent_ok st" and "holds_policy os rs st" and "map c_index rs = [0..<length rs]"
    and "length rs \<le> MAX_RULES" and "c \<in> set rs"
  shows "action_of st (rule_idx c) = rule_act c"
  using rule_idx_nth [OF assms(3-5)] assms
  by (simp add: action_of_def arr_lookup_def holds_policy_def prevent_ok_def)

section \<open>From the server's rules to the kernel's verdict\<close>

text \<open>The rule enforced for the program at \<open>bprm\<close>, whose path is made of the components \<open>cs\<close>.\<close>

definition start_rule ::
  "go_os \<Rightarrow> go_policy \<Rightarrow> 'a bpf_env_scheme \<Rightarrow> u64 \<Rightarrow> bytes list \<Rightarrow> compiled option" where
  "start_rule os p env bprm cs =
     enforced_rule os (pol_rules p) (pad_to PATH_LEN (path_of cs))
       (dir_keys env (exec_dentry env bprm) (exec_mnt env bprm))
       (basename_of env (exec_dentry env bprm)) (basename_of env (parent_dentry env))"

lemma compile_rules_policy_ok: "policy_ok os (newGuard os) (fst (Compile os rs))"
  unfolding Compile_def by (rule compiled_policy_ok)

text \<open>What \<open>check_exec\<close> does at a start for which the rule \<open>found\<close> is enforced.\<close>

definition enforced ::
  "go_policy \<Rightarrow> compiled option \<Rightarrow> 'a bpf_env_scheme \<Rightarrow> decision option \<Rightarrow> prevent_st \<Rightarrow> u64 \<Rightarrow> bool" where
  "enforced p found env slot st bprm \<longleftrightarrow>
     (case found of
        None \<Rightarrow> fst (check_exec env slot st bprm) = 0 \<and>
          decisions (snd (check_exec env slot st bprm)) = decisions st
      | Some c \<Rightarrow>
          fst (check_exec env slot st bprm) = (if c_block c then - EPERM else 0) \<and>
          c \<in> set (pol_rules p) \<and> pol_rules p ! unat (rule_idx c) = c \<and>
          (case slot of
             None \<Rightarrow> decisions (snd (check_exec env slot st bprm)) = decisions st
           | Some ev \<Rightarrow> \<exists>r. decisions (snd (check_exec env slot st bprm)) = decisions st @ [r] \<and>
               dc_rule r = rule_idx c \<and> dc_action r = rule_act c))"

lemma check_exec_enforced:
  assumes "prevent_ok st" and "policy_ok os g p" and "holds_policy os (pol_rules p) st"
    and "ucast (prevent_config st ! 1) \<noteq> drop_bit 32 (current_pid_tgid env)"
    and "exec_rule env st bprm (exec_scratch env st bprm) = map_option rule_idx found"
    and "\<And>c. found = Some c \<Longrightarrow> c \<in> set (pol_rules p) \<and> prevent_config st ! 0 \<noteq> 0"
  shows "enforced p found env slot st bprm"
proof (cases found)
  case None
  then show ?thesis using assms(5) by (simp add: enforced_def check_exec_cases [OF assms(1)] Let_def)
next
  case (Some c)
  have ix: "map c_index (pol_rules p) = [0..<length (pol_rules p)]" "length (pol_rules p) \<le> MAX_RULES"
    using assms(2) by (simp_all add: policy_ok_def maxRules_def MAX_RULES_def)
  have c: "c \<in> set (pol_rules p)" and on: "prevent_config st ! 0 \<noteq> 0" using assms(6) [OF Some] by simp_all
  have w: "watching env st" using assms(4) on by (simp add: watching_def)
  show ?thesis
    using Some c w rule_idx_nth [OF ix c] applied_action [OF assms(1,3) ix c] assms(5)
    by (simp add: enforced_def check_exec_cases [OF assms(1)] Let_def rule_act_def ACT_BLOCK_def ACT_DETECT_def
        fill_decision_def split: option.split)
qed

lemma nonzero_bit: "bit w n \<Longrightarrow> w \<noteq> (0 :: u32)"
  by auto

lemma holds_some:
  assumes "holds_policy os rs st" and "enforced_rule os rs key dirs base pbase = Some c"
  shows "prevent_config st ! 0 \<noteq> 0"
proof -
  have "find (path_rule key) (rev rs) \<noteq> None \<or> nearest_dir os rs dirs \<noteq> None \<or> find (name_rule base pbase) rs \<noteq> None"
    using assms(2) by (auto simp: enforced_rule_def split: option.splits)
  moreover have "bit (prevent_config st ! 0) 2" if "find (name_rule base pbase) rs \<noteq> None"
    using find_ex [OF that] holds_kinds(3) [OF assms(1)] by (auto simp: name_rule_def)
  ultimately show ?thesis
    using holds_kinds(1,2) [OF assms(1)] nonzero_bit by blast
qed

lemma applied_check_exec:
  assumes "bpf_helpers env" and "prevent_ok (le_maps e)" and "policy_ok os g p"
    and "lsm_apply os range_map p e = (e', None)" and "\<And>xs. set (range_map xs) = set xs"
    and "names_clash_free p"
    and "ucast (prevent_config (le_maps e) ! 1) \<noteq> drop_bit 32 (current_pid_tgid env)"
    and "vfs_path env (exec_dentry env bprm) (exec_mnt env bprm) cs"
  shows "enforced p (start_rule os p env bprm cs) env slot (le_maps e') bprm"
proof -
  let ?st = "le_maps e'"
  note sh = lsm_apply_shape [OF assms(2,4)]
  note h = applied_holds [OF assms(2-5)]
  note f = bpf_helpers.exec_scratch_fields [OF assms(1) sh(1) assms(8)]
  have ex: "exec_rule env ?st bprm (exec_scratch env ?st bprm) = map_option rule_idx (start_rule os p env bprm cs)"
    unfolding exec_rule_def f holds_enforced [OF h assms(6)] start_rule_def ..
  have self: "ucast (prevent_config ?st ! 1) \<noteq> drop_bit 32 (current_pid_tgid env)"
    using assms(7) sh(3) by simp
  have some: "c \<in> set (pol_rules p) \<and> prevent_config ?st ! 0 \<noteq> 0" if "start_rule os p env bprm cs = Some c" for c
    using that holds_some [OF h] enforced_rule_set unfolding start_rule_def by blast
  show ?thesis
    by (rule check_exec_enforced [OF sh(1) assms(3) h self ex some])
qed



section \<open>Protected executables\<close>

lemma fixed_pad: "0 < n \<Longrightarrow> fixed s n = pad_to n s"
proof -
  assume n: "0 < n"
  show ?thesis
  proof (cases "n \<le> length s")
    case True
    then have "take n s = take (n - 1) s @ [s ! (n - 1)]"
      using n by (metis Suc_pred' less_le_trans lessI take_Suc_conv_app_nth)
    then show ?thesis
      using True n by (simp add: fixed_def pad_to_def blit_0 list_update_append min_absorb1)
  next
    case False
    then show ?thesis by (simp add: fixed_def pad_to_def blit_0 min_absorb2)
  qed
qed

lemma cstr_pad:
  assumes "0 \<notin> set s" and "length s < n"
  shows "cstr (pad_to n s) = s"
proof -
  obtain k where k: "n = length s + Suc k" using assms(2) less_imp_Suc_add by auto
  have "pad_to n s = s @ 0 # replicate k 0" unfolding k pad_to_def by simp
  then show ?thesis using assms(1) by simp
qed

lemma fixed_eq:
  assumes "0 \<notin> set a" "0 \<notin> set b" "length a < n" "length b < n"
  shows "fixed a n = fixed b n \<longleftrightarrow> a = b"
proof -
  have "0 < n" using assms(3) by simp
  then show ?thesis by (metis cstr_pad assms fixed_pad)
qed

definition values_plain :: "go_policy \<Rightarrow> bool" where
  "values_plain p \<longleftrightarrow> list_all (\<lambda>c. 0 \<notin> set (r_value c)) (pol_rules p)"

lemma nearest_dir_rule_of:
  "nearest_dir os rs keys = Some c \<Longrightarrow> \<exists>k \<in> set keys. dir_rule os k c"
  by (induction keys) (auto dest: find_SomeD split: option.splits)

lemma protected_rule:
  assumes "policy_ok os (newGuard os) p" and "values_plain p"
    and "q \<in> set (guarded_paths os)" and "eval_symlinks os q = Some real"
    and "eval_symlinks os real = Some real" and "0 \<notin> set real" and "length real < PATH_LEN"
    and "\<And>v k. k \<in> set dirs \<Longrightarrow> stat_key os v = Some k \<Longrightarrow>
      under real (case eval_symlinks os v of None \<Rightarrow> v | Some w \<Rightarrow> w)"
    and "enforced_rule os (pol_rules p) (pad_to PATH_LEN real) dirs base pbase = Some c" and "c_block c"
  shows "name_rule base pbase c"
proof -
  have c: "c \<in> set (pol_rules p)" using enforced_rule_set [OF assms(9)] .
  then have "refuse os (newGuard os) c = []"
    using assms(1,10) by (auto simp: policy_ok_def list_all_iff enforceable_def)
  moreover have "real \<in> set (g_paths (newGuard os))" using assms(3,4) by (auto simp: newGuard_paths)
  ultimately have no: "r_type c = TypePath \<Longrightarrow> real \<noteq> rule_target os c"
    "r_type c = TypeDir \<Longrightarrow> \<not> under real (rule_target os c)"
    by (blast dest: refuse_Nil)+
  have n0: "0 \<notin> set (r_value c)" using assms(2) c by (simp add: values_plain_def list_all_iff)
  have "\<not> path_rule (pad_to PATH_LEN real) c"
  proof
    assume r: "path_rule (pad_to PATH_LEN real) c"
    then have "fixed (r_value c) PATH_LEN = fixed real PATH_LEN" and l: "length (r_value c) < PATH_LEN"
      by (simp_all add: path_rule_def fixed_pad)
    then have "r_value c = real" using fixed_eq [OF n0 assms(6) l assms(7)] by simp
    then show False using no(1) r assms(5) by (simp add: path_rule_def rule_target_def)
  qed
  moreover have "\<not> dir_rule os k c" if "k \<in> set dirs" for k
    using no(2) assms(8) [OF that, of "r_value c"] by (auto simp: dir_rule_def rule_target_def)
  ultimately show ?thesis
    using assms(9) find_SomeD [of "path_rule (pad_to PATH_LEN real)" "rev (pol_rules p)"]
      nearest_dir_rule_of [of os "pol_rules p" dirs] find_SomeD [of "name_rule base pbase" "pol_rules p"]
    by (auto simp: enforced_rule_def split: option.splits)
qed

text \<open>A directory above a path, by its name.\<close>

definition above :: "bytes \<Rightarrow> bytes \<Rightarrow> bool" where
  "above v path \<longleftrightarrow> (if v = [sep_byte] then path \<noteq> v else has_prefix path (v @ [sep_byte]))"

lemma trim_slash: "trim_suffix v [c] = (if v \<noteq> [] \<and> last v = c then butlast v else v)"
  by (cases v rule: rev_cases) (auto simp: trim_suffix_def has_prefix_iff)

lemma above_under: "above v path \<Longrightarrow> under path v"
  by (cases v rule: rev_cases) (auto simp: above_def under_def trim_slash has_prefix_iff Let_def split: if_splits)

text \<open>
  C7: Once a compiled policy is loaded, no path or directory rule ever stops an
  executable the guard protects: if its start is refused at all, then the rule
  that was found is a parent rule that names it and its parent, which the
  guard does not look at. Assumed of the rules: no value contains a NUL byte,
  behind which a path rule hides from the guard; and of the file system:
  resolving a resolved path changes nothing, the path fits the kernel's key,
  and a directory above the executable is found by \<open>stat\<close> only under names that
  resolve above it.
\<close>

theorem protected_start_allowed:
  assumes "bpf_helpers env" and "prevent_ok (le_maps e)"
    and "lsm_apply os range_map (fst (Compile os rs)) e = (e', None)"
    and "\<And>xs. set (range_map xs) = set xs"
    and "values_plain (fst (Compile os rs))"
    and "vfs_path env (exec_dentry env bprm) (exec_mnt env bprm) cs"
    and "q \<in> set (guarded_paths os)" and "eval_symlinks os q = Some (path_of cs)"
    and "eval_symlinks os (path_of cs) = Some (path_of cs)" and "0 \<notin> set (path_of cs)"
    and "length (path_of cs) < PATH_LEN"
    and "\<And>v k. k \<in> set (dir_keys env (exec_dentry env bprm) (exec_mnt env bprm)) \<Longrightarrow>
      stat_key os v = Some k \<Longrightarrow>
      above (case eval_symlinks os v of None \<Rightarrow> v | Some w \<Rightarrow> w) (path_of cs)"
  shows "fst (check_exec env slot (le_maps e') bprm) = 0 \<or>
    (\<exists>c \<in> set (pol_rules (fst (Compile os rs))).
       exec_rule env (le_maps e') bprm (exec_scratch env (le_maps e') bprm) = Some (rule_idx c) \<and>
       pol_rules (fst (Compile os rs)) ! unat (rule_idx c) = c \<and> r_type c = TypeParent \<and> c_block c \<and>
       name_rule (basename_of env (exec_dentry env bprm)) (basename_of env (parent_dentry env)) c)"
proof -
  let ?p = "fst (Compile os rs)" and ?st = "le_maps e'"
  have ok: "policy_ok os (newGuard os) ?p" by (rule compile_rules_policy_ok)
  then have ix: "map c_index (pol_rules ?p) = [0..<length (pol_rules ?p)]" "length (pol_rules ?p) \<le> MAX_RULES"
    by (simp_all add: policy_ok_def maxRules_def MAX_RULES_def)
  note sh = lsm_apply_shape [OF assms(2,3)]
  note h = applied_holds [OF assms(2) ok assms(3,4)]
  note f = bpf_helpers.exec_scratch_fields [OF assms(1) sh(1) assms(6)]
  let ?b = "basename_of env (exec_dentry env bprm)" and ?pb = "basename_of env (parent_dentry env)"
  let ?dirs = "dir_keys env (exec_dentry env bprm) (exec_mnt env bprm)"
  let ?r = "exec_rule env ?st bprm (exec_scratch env ?st bprm)" and ?key = "pad_to PATH_LEN (path_of cs)"
  have allowed: "fst (check_exec env slot ?st bprm) = 0" if "\<And>r. ?r = Some r \<Longrightarrow> action_of ?st r \<noteq> ACT_BLOCK"
    using that by (auto simp: check_exec_cases [OF sh(1)] Let_def split: option.split)
  have allowed_c: "fst (check_exec env slot ?st bprm) = 0"
    if "?r = Some (rule_idx c)" "c \<in> set (pol_rules ?p)" "\<not> c_block c" for c
    using that applied_action [OF sh(1) h ix that(2)]
    by (intro allowed) (simp add: rule_act_def ACT_DETECT_def ACT_BLOCK_def)
  have rule: "?r = (case find (path_rule ?key) (rev (pol_rules ?p)) of
        Some c \<Rightarrow> Some (rule_idx c)
      | None \<Rightarrow> (case nearest_dir os (pol_rules ?p) ?dirs of Some c \<Rightarrow> Some (rule_idx c)
         | None \<Rightarrow> parent_spec ?st ?b ?pb))"
    unfolding exec_rule_def f by (rule holds_policy_rule [OF h])
  have stop: "name_rule ?b ?pb c"
    if "enforced_rule os (pol_rules ?p) ?key ?dirs ?b ?pb = Some c" and "c_block c" for c
    by (rule protected_rule [OF ok assms(5,7-11) above_under [OF assms(12)] that])
  show ?thesis
  proof (cases "find (path_rule ?key) (rev (pol_rules ?p)) = None \<and>
      nearest_dir os (pol_rules ?p) ?dirs = None")
    case True
    then have r: "?r = parent_spec ?st ?b ?pb" by (simp add: rule)
    show ?thesis
    proof (cases "parent_spec ?st ?b ?pb")
      case None
      then show ?thesis using r allowed by simp
    next
      case (Some k)
      then obtain c where c: "c \<in> set (pol_rules ?p)" "k = rule_idx c" "name_rule ?b ?pb c"
        using holds_parent_spec(1) [OF h Some] by blast
      have "r_type c = TypeParent" "pol_rules ?p ! unat (rule_idx c) = c"
        using c(3) rule_idx_nth [OF ix c(1)] by (simp_all add: name_rule_def)
      then show ?thesis
        using r Some c allowed_c [OF _ c(1)] by (cases "c_block c") auto
    qed
  next
    case False
    have "\<exists>c. ?r = Some (rule_idx c) \<and> enforced_rule os (pol_rules ?p) ?key ?dirs ?b ?pb = Some c \<and>
        (path_rule ?key c \<or> r_type c = TypeDir)"
    proof (cases "find (path_rule ?key) (rev (pol_rules ?p))")
      case None
      then obtain c where n: "nearest_dir os (pol_rules ?p) ?dirs = Some c" using False by auto
      have "r_type c = TypeDir" using nearest_dir_rule_of [OF n] by (auto simp: dir_rule_def)
      then show ?thesis using None n unfolding rule enforced_rule_def by simp
    next
      case (Some c)
      then show ?thesis using find_SomeD [OF Some] unfolding rule enforced_rule_def by simp
    qed
    then obtain c where c: "?r = Some (rule_idx c)" "enforced_rule os (pol_rules ?p) ?key ?dirs ?b ?pb = Some c"
      "path_rule ?key c \<or> r_type c = TypeDir" by blast
    have m: "c \<in> set (pol_rules ?p)" using enforced_rule_set [OF c(2)] .
    have "\<not> c_block c"
      using stop [OF c(2)] c(3) by (auto simp: name_rule_def path_rule_def)
    then show ?thesis using allowed_c [OF c(1) m] by simp
  qed
qed

section \<open>The two engines\<close>



definition plain_name :: "bytes \<Rightarrow> bool" where
  "plain_name n \<longleftrightarrow> 0 \<notin> set n \<and> length n < NAME_LEN"

definition names_plain :: "go_policy \<Rightarrow> bool" where
  "names_plain p \<longleftrightarrow>
     list_all (\<lambda>c. list_all plain_name (c_parents c) \<and> list_all plain_name (c_children c)) (pol_parents p)"


lemma clash_free_plain: "policy_ok os g p \<Longrightarrow> names_plain p \<Longrightarrow> names_clash_free p"
  unfolding names_clash_free_def names_plain_def policy_ok_def list_all_iff plain_name_def
  by (intro conjI inj_onI) (auto simp: fixed_eq)









section \<open>More names than the kernel's map holds\<close>

lemma hash_put_card:
  "finite (dom m) \<Longrightarrow> card (dom m) \<le> cap \<Longrightarrow> hash_put cap m k v = Some m' \<Longrightarrow>
     finite (dom m') \<and> card (dom m') \<le> cap"
  by (auto simp: hash_put_def insert_absorb domI card_insert_if split: if_splits)

lemma put_parent_card:
  "finite (dom (parent_mask st)) \<Longrightarrow> card (dom (parent_mask st)) \<le> MAX_RULES \<Longrightarrow>
     finite (dom (parent_mask (fst (fold_until put_parent_mask xs st)))) \<and>
     card (dom (parent_mask (fst (fold_until put_parent_mask xs st)))) \<le> MAX_RULES"
proof (induction xs arbitrary: st)
  case (Cons x xs)
  then show ?case
    using hash_put_card [OF Cons.prems(1,2), of "fixed (fst x) NAME_LEN" "snd x"]
    by (cases "hash_put MAX_RULES (parent_mask st) (fixed (fst x) NAME_LEN) (snd x)")
      (auto simp: put_parent_mask_def)
qed simp

lemma put_parent_overflow:
  assumes "parent_mask st = Map.empty" and "MAX_RULES < card ((\<lambda>e. fixed (fst e) NAME_LEN) ` set xs)"
  shows "snd (fold_until put_parent_mask xs st) \<noteq> None"
proof
  assume none: "snd (fold_until put_parent_mask xs st) = None"
  obtain st' where p: "fold_until put_parent_mask xs st = (st', None)"
    using none by (metis prod.collapse)
  have "dom (parent_mask st') = (\<lambda>e. fixed (fst e) NAME_LEN) ` set xs"
    by (subst put_parent_all [OF p])
      (force simp: assms(1) dom_def find_None_iff image_iff split: option.splits dest: find_SomeD)
  moreover have "card (dom (parent_mask st')) \<le> MAX_RULES"
    using put_parent_card [of st xs] assms(1) p by simp
  ultimately show False using assms(2) by simp
qed

text \<open>
  A policy whose parent rules name more than 1024 different parents cannot
  be loaded; none of its rules is enforced.
\<close>

lemma too_many_names:
  assumes "prevent_ok (le_maps e)" and "policy_ok os g p" and "\<And>xs. set (range_map xs) = set xs"
    and "MAX_RULES < card ((\<lambda>n. fixed n NAME_LEN) ` (\<Union>c \<in> set (parents_in (pol_rules p)). set (c_parents c)))"
  shows "snd (lsm_apply os range_map p e) \<noteq> None"
proof -
  obtain l err where l: "fold_until (load_rule os) (pol_rules p) (start_load (le_maps e)) = (l, err)" by fastforce
  show ?thesis
  proof (cases err)
    case None
    have n: "names_loaded (pol_rules p) l"
      using load_rules_loaded [of os "pol_rules p" "le_maps e" l] l None assms(1,2)
      by (simp add: policy_ok_def maxRules_def MAX_RULES_def)
    have "(\<lambda>e. fixed (fst e) NAME_LEN) ` set (range_map (ld_parent l)) =
        (\<lambda>n. fixed n NAME_LEN) ` set (map fst (ld_parent l))"
      by (simp add: assms(3) image_image)
    also have "set (map fst (ld_parent l)) = (\<Union>c \<in> set (parents_in (pol_rules p)). set (c_parents c))"
      using n by (simp add: names_loaded_def)
    finally have "MAX_RULES < card ((\<lambda>e. fixed (fst e) NAME_LEN) ` set (range_map (ld_parent l)))"
      using assms(4) by simp
    moreover have "parent_mask (ld_st l) = Map.empty" using n by (simp add: names_loaded_def)
    ultimately have "snd (fold_until put_parent_mask (range_map (ld_parent l)) (ld_st l)) \<noteq> None"
      by (intro put_parent_overflow)
    then show ?thesis
      by (auto simp: lsm_apply_cases [OF assms(1)] l None load_masks_def split: prod.split option.split)
  next
    case (Some e')
    then show ?thesis by (simp add: lsm_apply_cases [OF assms(1)] l)
  qed
qed

section \<open>Concrete policies\<close>

text \<open>
  A file system with one protected executable, \<open>/a\<close>, or with none; a path rule for
  \<open>/a\<close> and a parent rule for shells starting it.
\<close>

definition sample_os :: go_os where
  "sample_os = \<lparr>os_executable = Some (str ''/a''),
     eval_symlinks = (\<lambda>p. if p = str ''/a'' then Some (str ''/a'') else None),
     hash_file = (\<lambda>_. None), os_stat = (\<lambda>p. if p = [sep_byte] then Some (0, 0) else None),
     unix_major = (\<lambda>_. 0), unix_minor = (\<lambda>_. 0)\<rparr>"

definition bare_os :: go_os where
  "bare_os = sample_os\<lparr>os_executable := None\<rparr>"

definition path_block :: rule where
  "path_block = \<lparr>r_id = str ''1'', r_name = str ''no a'', r_type = TypePath, r_value = str ''//x/../a'',
     r_parent = [], r_action = ActionBlock\<rparr>"

definition parent_block :: rule where
  "parent_block = \<lparr>r_id = str ''2'', r_name = str ''b'', r_type = TypeParent, r_value = str '' a ,b'',
     r_parent = str ''sh'', r_action = ActionBlock\<rparr>"

lemma path_block_clean: "path_clean (str ''//x/../a'') = str ''/a''"
  by (simp add: path_clean_def str_def chr_def join_path_def)

lemma split_samples: "splitNames (str '' a ,b'') = [str ''a'', str ''b'']" "splitNames (str ''sh'') = [str ''sh'']"
  by (simp_all add: splitNames_def str_def chr_def trim_space_def go_spaces_def trim_words.simps path_base_def Let_def)


abbreviation block_policy :: go_policy where "block_policy \<equiv> fst (Compile bare_os [path_block, parent_block])"

definition comp_path :: compiled where
  "comp_path = \<lparr>r_id = str ''1'', r_name = str ''no a'', r_type = TypePath, r_value = str ''/a'',
     r_parent = [], r_action = ActionBlock, c_index = 0, c_block = True, c_parents = [], c_children = []\<rparr>"

definition comp_parent :: compiled where
  "comp_parent = \<lparr>r_id = str ''2'', r_name = str ''b'', r_type = TypeParent, r_value = str '' a ,b'',
     r_parent = str ''sh'', r_action = ActionBlock, c_index = 1, c_block = True,
     c_parents = [str ''sh''], c_children = [str ''a'', str ''b'']\<rparr>"

lemma path_block_abs: "path_is_abs (str ''//x/../a'')"
  by (simp add: path_is_abs_def str_def)


lemma bare_guard: "newGuard bare_os = \<lparr>g_paths = [], g_hashes = Map.empty\<rparr>"
  by (simp add: newGuard_def guarded_paths_def protectedPaths_def bare_os_def sample_os_def guard_add_def str_def chr_def)

lemma sample_guard: "newGuard sample_os = \<lparr>g_paths = [str ''/a''], g_hashes = Map.empty\<rparr>"
  by (simp add: newGuard_def guarded_paths_def protectedPaths_def bare_os_def sample_os_def guard_add_def str_def chr_def)

lemma str_eq_Nil: "str s = [] \<longleftrightarrow> s = []" by (simp add: str_def)
lemma sample_eval: "eval_symlinks sample_os = (\<lambda>p. if p = str ''/a'' then Some (str ''/a'') else None)"
  "eval_symlinks bare_os = (\<lambda>p. if p = str ''/a'' then Some (str ''/a'') else None)"
  by (simp_all add: sample_os_def bare_os_def)

lemma block_rules: "pol_rules block_policy = [comp_path, comp_parent]"
  by (simp add: Compile_def bare_guard compileWith_def empty_policy_def path_block_def parent_block_def
     check_rule_def path_block_clean split_samples path_block_abs guard_rule_def refuse_def rule.defs Let_def maxRules_def maxParentRules_def add_rule_def
     comp_path_def comp_parent_def ActionBlock_def ActionDetect_def sample_eval str_eq_Nil)

lemma guarded_rules: "pol_rules (fst (Compile sample_os [path_block, parent_block])) = [comp_path\<lparr>c_block := False\<rparr>, comp_parent]"
  by (simp add: Compile_def sample_guard compileWith_def empty_policy_def path_block_def parent_block_def
     check_rule_def path_block_clean split_samples path_block_abs guard_rule_def refuse_def rule.defs Let_def maxRules_def maxParentRules_def add_rule_def
     comp_path_def comp_parent_def ActionBlock_def ActionDetect_def sample_eval str_eq_Nil) 

definition sample_engine :: lsm_engine where
  "sample_engine = \<lparr>le_maps = sample_rules, le_policy = None\<rparr>"

lemma block_applied: "pol_rules p = [comp_path\<lparr>c_block := b\<rparr>, comp_parent] \<Longrightarrow> snd (lsm_apply os (\<lambda>xs. xs) p sample_engine) = None"
  by (simp add: lsm_apply_def sample_engine_def sample_rules_def arr_put_def arr_store_def clear_rules_def load_rule_def load_path_def
     load_parent_def rule_idx_def rule_act_def hash_put_def load_masks_def put_parent_mask_def put_child_mask_def Let_def comp_path_def comp_parent_def
     MAX_RULES_def MAX_PARENT_def NAME_LEN_def del: MAX_DEPTH_def split: prod.splits)



abbreviation quiet_policy :: go_policy where "quiet_policy \<equiv> fst (Compile sample_os [path_block])"

lemma quiet_rules: "pol_rules quiet_policy = [comp_path\<lparr>c_block := False\<rparr>]"
  by (simp add: Compile_def sample_guard compileWith_def empty_policy_def path_block_def
     check_rule_def path_block_clean path_block_abs guard_rule_def refuse_def rule.defs Let_def maxRules_def add_rule_def
     comp_path_def ActionBlock_def ActionDetect_def sample_eval str_eq_Nil)

lemma quiet_applied: "pol_rules p = [comp_path\<lparr>c_block := b\<rparr>] \<Longrightarrow> snd (lsm_apply os (\<lambda>xs. xs) p sample_engine) = None"
  by (simp add: lsm_apply_def sample_engine_def sample_rules_def arr_put_def arr_store_def clear_rules_def load_rule_def load_path_def
     rule_idx_def rule_act_def hash_put_def load_masks_def Let_def comp_path_def
     MAX_RULES_def MAX_PARENT_def split: prod.splits)

lemma comp_self: "comp_path\<lparr>c_block := True\<rparr> = comp_path"
  by (simp add: comp_path_def)

lemma apply_pair: "snd (lsm_apply os r p e) = None \<Longrightarrow> lsm_apply os r p e = (fst (lsm_apply os r p e), None)"
  by (metis prod.collapse)

lemma engine_ok: "prevent_ok (le_maps sample_engine)"
  by (simp add: sample_engine_def sample_rules_ok)

lemma engine_self: "ucast (prevent_config (le_maps sample_engine) ! 1) \<noteq>
     drop_bit 32 (current_pid_tgid (sample_env um (9 * 2 ^ 32) ug))"
  by (simp add: sample_engine_def sample_rules_def)

lemma block_parents: "pol_parents block_policy = [comp_parent]" 
  using compile_rules_policy_ok [of bare_os "[path_block, parent_block]"]
  by (simp add: policy_ok_def block_rules comp_path_def comp_parent_def)

lemma block_names_plain: "names_plain block_policy"
  by (simp add: names_plain_def block_parents comp_parent_def plain_name_def NAME_LEN_def str_def chr_def)


lemma quiet_values: "values_plain quiet_policy"
  by (simp add: values_plain_def quiet_rules comp_path_def str_def chr_def)

lemma exec_path: "vfs_path (sample_env um pt ug) (exec_dentry (sample_env um pt ug) 9472) (exec_mnt (sample_env um pt ug) 9472) [str ''a'']"
  using sample_vfs_path by simp

lemma sample_path_rule: "path_rule (pad_to PATH_LEN (str ''/a'')) comp_path" "\<not> path_rule k comp_parent"
  by (simp_all add: path_rule_def comp_path_def comp_parent_def fixed_pad str_def)

lemma block_verdict:
  "fst (check_exec (sample_env [] (9 * 2 ^ 32) 0) None
     (le_maps (fst (lsm_apply bare_os (\<lambda>xs. xs) block_policy sample_engine))) 9472) = -1"
proof -
  have ap: "lsm_apply bare_os (\<lambda>xs. xs) block_policy sample_engine =
      (fst (lsm_apply bare_os (\<lambda>xs. xs) block_policy sample_engine), None)"
    using block_applied [of block_policy True] by (intro apply_pair) (simp add: block_rules comp_self)
  have s: "start_rule bare_os block_policy (sample_env [] (9 * 2 ^ 32) 0) 9472 [str ''a''] = Some comp_path"
    using sample_path_rule by (simp add: start_rule_def enforced_rule_def block_rules sample_path)
  show ?thesis
    using applied_check_exec [OF sample_helpers [of "[]" "9 * 2 ^ 32" 0] engine_ok compile_rules_policy_ok ap HOL.refl clash_free_plain [OF compile_rules_policy_ok block_names_plain]
        engine_self exec_path, where slot = None]
    unfolding s by (simp add: enforced_def comp_path_def EPERM_def)
qed






theorem protected_start_allowed_witness:
  "fst (check_exec (sample_env [] (9 * 2 ^ 32) 0) None
     (le_maps (fst (lsm_apply sample_os (\<lambda>xs. xs) quiet_policy sample_engine))) 9472) = 0"
proof -
  have ap: "lsm_apply sample_os (\<lambda>xs. xs) quiet_policy sample_engine =
      (fst (lsm_apply sample_os (\<lambda>xs. xs) quiet_policy sample_engine), None)"
    using quiet_applied [of quiet_policy False] by (intro apply_pair) (simp add: quiet_rules)
  have none: "\<not> name_rule b pb (comp_path\<lparr>c_block := x\<rparr>)" for b pb x
    by (simp add: name_rule_def comp_path_def)
  have "str ''/a'' \<in> set (guarded_paths sample_os)" by (simp add: guarded_paths_def sample_os_def)
  moreover have "eval_symlinks sample_os (path_of [str ''a'']) = Some (path_of [str ''a''])"
    "0 \<notin> set (path_of [str ''a''])" "length (path_of [str ''a'']) < PATH_LEN"
    unfolding sample_path by (simp_all add: sample_eval str_def chr_def)
  moreover have "above (case eval_symlinks sample_os v of None \<Rightarrow> v | Some w \<Rightarrow> w) (path_of [str ''a''])"
    if "stat_key sample_os v = Some k" for v k
  proof -
    have "v = [sep_byte]" using that by (auto simp: stat_key_def sample_os_def split: if_splits)
    then show ?thesis unfolding sample_path by (simp add: sample_eval above_def str_def)
  qed
  ultimately show ?thesis
    using protected_start_allowed [OF sample_helpers [of "[]" "9 * 2 ^ 32" 0] engine_ok ap HOL.refl quiet_values
        exec_path, where q = "str ''/a''" and slot = None]
    by (simp add: quiet_rules none sample_path sample_eval)
qed





definition many_names :: "bytes list" where
  "many_names = map (\<lambda>i. [word_of_nat (1 + i div 64), word_of_nat (1 + i mod 64)]) [0..<1025]"

definition many_policy :: go_policy where
  "many_policy = (empty_policy Map.empty)\<lparr>pol_rules := [comp_path, comp_parent\<lparr>c_parents := many_names\<rparr>],
     pol_paths := [str ''/a'' \<mapsto> comp_path], pol_parents := [comp_parent\<lparr>c_parents := many_names\<rparr>]\<rparr>"

lemma many_card: "card ((\<lambda>n. fixed n NAME_LEN) ` set many_names) = 1025"
proof -
  define f :: "nat \<Rightarrow> bytes" where "f = (\<lambda>i. [word_of_nat (1 + i div 64), word_of_nat (1 + i mod 64)])"
  have u: "unat (word_of_nat a :: u8) = a" if "a < 256" for a
    using that by (simp add: unat_of_nat)
  have small: "1 + i div 64 < 256" "1 + i mod 64 < 256" if "i < 1025" for i :: nat
    using that by simp_all linarith?
  have inj: "inj_on (\<lambda>i. fixed (f i) NAME_LEN) {0..<1025}"
  proof (rule inj_onI)
    fix i j assume ij: "i \<in> {0..<1025}" "j \<in> {0..<1025}" "fixed (f i) NAME_LEN = fixed (f j) NAME_LEN"
    have "0 \<notin> set (f k)" if "k < 1025" for k
      using u [OF small(1) [OF that]] u [OF small(2) [OF that]] by (auto simp: f_def simp flip: word_unat_eq_iff)
    then have "f i = f j"
      using ij fixed_eq [of "f i" "f j" NAME_LEN] by (simp add: f_def NAME_LEN_def)
    then have "i div 64 = j div 64" "i mod 64 = j mod 64"
      using ij u [OF small(1) [of i]] u [OF small(2) [of i]] u [OF small(1) [of j]] u [OF small(2) [of j]]
      by (auto simp: f_def)
    then show "i = j" by (metis div_mult_mod_eq)
  qed
  have "(\<lambda>n. fixed n NAME_LEN) ` set many_names = (\<lambda>i. fixed (f i) NAME_LEN) ` {0..<1025}"
    by (simp add: many_names_def f_def image_image)
  then show ?thesis using card_image [OF inj] by simp
qed

lemma many_ok: "policy_ok bare_os (newGuard bare_os) many_policy"
proof -
  have "many_names \<noteq> []" by (simp add: many_names_def)
  moreover have "path_clean (str ''/a'') = str ''/a''" "path_is_abs (str ''/a'')"
    by (simp_all add: path_clean_def path_is_abs_def str_def chr_def join_path_def)
  ultimately show ?thesis
    by (auto simp: policy_ok_def many_policy_def empty_policy_def comp_path_def comp_parent_def value_ok_def
        enforceable_def refuse_def bare_guard maxRules_def maxParentRules_def last_with_def fun_eq_iff)
qed

theorem apply_failure_allows_all_witness: "check_exec (sample_env [] (9 * 2 ^ 32) 0) None
     (le_maps (fst (lsm_apply bare_os (\<lambda>xs. xs) many_policy sample_engine))) 9472 =
   (0, le_maps (fst (lsm_apply bare_os (\<lambda>xs. xs) many_policy sample_engine))) \<and>
   find (path_rule (pad_to PATH_LEN (str ''/a''))) (pol_rules many_policy) = Some comp_path"
proof -
  have ps: "parents_in (pol_rules many_policy) = [comp_parent\<lparr>c_parents := many_names\<rparr>]"
    by (simp add: many_policy_def comp_path_def comp_parent_def)
  have "snd (lsm_apply bare_os (\<lambda>xs. xs) many_policy sample_engine) \<noteq> None"
    by (rule too_many_names [OF engine_ok many_ok HOL.refl]) (simp add: ps many_card MAX_RULES_def comp_parent_def)
  then obtain err where "lsm_apply bare_os (\<lambda>xs. xs) many_policy sample_engine =
      (fst (lsm_apply bare_os (\<lambda>xs. xs) many_policy sample_engine), Some err)"
    by (metis option.exhaust prod.collapse)
  from apply_failure_allows_all [OF engine_ok this] show ?thesis
    using sample_path_rule by (simp add: many_policy_def)
qed

definition dir_os :: go_os where
  "dir_os = bare_os\<lparr>os_stat := (\<lambda>p. if p = str ''/s'' then Some (1, 0) else if p = str ''/s/t'' then Some (2, 0) else None)\<rparr>"

definition dir_rules :: "compiled list" where
  "dir_rules = [comp_path\<lparr>r_type := TypeDir, r_value := str ''/s'', c_block := False\<rparr>,
     comp_path\<lparr>r_type := TypeDir, r_value := str ''/s/t'', c_index := 1\<rparr>]"

lemma nested_dirs_differ:
  "enforced_rule dir_os dir_rules k [\<lparr>dk_ino = 2, dk_dev = 0, dk_pad = 0\<rparr>, \<lparr>dk_ino = 1, dk_dev = 0, dk_pad = 0\<rparr>] b pb
     = Some (dir_rules ! 1)"
  "match_names ((empty_policy Map.empty)\<lparr>pol_rules := dir_rules, pol_dirs := dir_rules\<rparr>)
     \<lparr>x_path = str ''/s/t/x'', x_parent = pp, x_hash = None\<rparr> = Some (dir_rules ! 0)"
proof -
  have [simp]: "str ''/s'' \<noteq> str ''/s/t''" "str ''/s/t'' \<noteq> str ''/s''" by (simp_all add: str_def)
  show "enforced_rule dir_os dir_rules k [\<lparr>dk_ino = 2, dk_dev = 0, dk_pad = 0\<rparr>, \<lparr>dk_ino = 1, dk_dev = 0, dk_pad = 0\<rparr>] b pb
     = Some (dir_rules ! 1)"
    by (simp add: enforced_rule_def dir_rules_def path_rule_def dir_rule_def stat_key_def dir_os_def kernelDev_def bare_os_def
     sample_os_def comp_path_def)
  show "match_names ((empty_policy Map.empty)\<lparr>pol_rules := dir_rules, pol_dirs := dir_rules\<rparr>)
     \<lparr>x_path = str ''/s/t/x'', x_parent = pp, x_hash = None\<rparr> = Some (dir_rules ! 0)"
  by (simp add: dir_rules_def
     comp_path_def match_names_def empty_policy_def under_def trim_suffix_def str_def)
qed

definition nul_rule :: rule where "nul_rule = path_block\<lparr>r_value := str ''/a'' @ [0]\<rparr>"

lemma nul_path_not_guarded:
  "pol_rules (fst (Compile sample_os [nul_rule])) = [comp_path\<lparr>r_value := str ''/a'' @ [0]\<rparr>]"
  "path_rule (pad_to PATH_LEN (str ''/a'')) (comp_path\<lparr>r_value := str ''/a'' @ [0]\<rparr>)"
proof -
  have "path_clean (str ''/a'' @ [0]) = str ''/a'' @ [0]"  "path_is_abs (str ''/a'' @ [0])"
    by (simp_all add: path_clean_def str_def chr_def join_path_def path_is_abs_def)
  then show "pol_rules (fst (Compile sample_os [nul_rule])) = [comp_path\<lparr>r_value := str ''/a'' @ [0]\<rparr>]"
    by (simp add: Compile_def sample_guard compileWith_def empty_policy_def path_block_def nul_rule_def
     check_rule_def path_block_clean path_block_abs guard_rule_def refuse_def rule.defs Let_def maxRules_def add_rule_def
     comp_path_def ActionBlock_def ActionDetect_def sample_eval str_eq_Nil)
  have "pad_to PATH_LEN (str ''/a'' @ [0]) = pad_to PATH_LEN (str ''/a'')"
    by (simp add: pad_to_def str_def flip: replicate_append_same) (simp add: numeral_eq_Suc)
  then show "path_rule (pad_to PATH_LEN (str ''/a'')) (comp_path\<lparr>r_value := str ''/a'' @ [0]\<rparr>)"
    by (simp add: path_rule_def comp_path_def fixed_pad str_def)
qed

end
