(* ===== verification/Map_Decls.thy ===== *)
theory Map_Decls
  imports Wire Prevent_Apply
begin

text \<open>
  The maps the four programs declare in their \<open>.maps\<close> sections: type, number
  of entries, and the C types of keys and values. The state records of the
  other theories model the contents of these maps; here their lengths are
  tied to the declarations, and loading a policy is shown to stay within them.
\<close>

section \<open>Declarations\<close>

datatype bpf_map_type =
    BPF_MAP_TYPE_UNSPEC | BPF_MAP_TYPE_HASH | BPF_MAP_TYPE_ARRAY
  | BPF_MAP_TYPE_PROG_ARRAY | BPF_MAP_TYPE_PERF_EVENT_ARRAY | BPF_MAP_TYPE_PERCPU_HASH
  | BPF_MAP_TYPE_PERCPU_ARRAY | BPF_MAP_TYPE_STACK_TRACE | BPF_MAP_TYPE_CGROUP_ARRAY
  | BPF_MAP_TYPE_LRU_HASH | BPF_MAP_TYPE_LRU_PERCPU_HASH | BPF_MAP_TYPE_LPM_TRIE
  | BPF_MAP_TYPE_ARRAY_OF_MAPS | BPF_MAP_TYPE_HASH_OF_MAPS | BPF_MAP_TYPE_DEVMAP
  | BPF_MAP_TYPE_SOCKMAP | BPF_MAP_TYPE_CPUMAP | BPF_MAP_TYPE_XSKMAP
  | BPF_MAP_TYPE_SOCKHASH | BPF_MAP_TYPE_CGROUP_STORAGE_DEPRECATED | BPF_MAP_TYPE_CGROUP_STORAGE
  | BPF_MAP_TYPE_REUSEPORT_SOCKARRAY | BPF_MAP_TYPE_PERCPU_CGROUP_STORAGE_DEPRECATED | BPF_MAP_TYPE_PERCPU_CGROUP_STORAGE
  | BPF_MAP_TYPE_QUEUE | BPF_MAP_TYPE_STACK | BPF_MAP_TYPE_SK_STORAGE
  | BPF_MAP_TYPE_DEVMAP_HASH | BPF_MAP_TYPE_STRUCT_OPS | BPF_MAP_TYPE_RINGBUF
  | BPF_MAP_TYPE_INODE_STORAGE | BPF_MAP_TYPE_TASK_STORAGE | BPF_MAP_TYPE_BLOOM_FILTER
  | BPF_MAP_TYPE_USER_RINGBUF | BPF_MAP_TYPE_CGRP_STORAGE | BPF_MAP_TYPE_ARENA
  | BPF_MAP_TYPE_INSN_ARRAY

fun map_type_value :: "bpf_map_type \<Rightarrow> nat" where
  "map_type_value BPF_MAP_TYPE_UNSPEC = 0"
| "map_type_value BPF_MAP_TYPE_HASH = 1"
| "map_type_value BPF_MAP_TYPE_ARRAY = 2"
| "map_type_value BPF_MAP_TYPE_PROG_ARRAY = 3"
| "map_type_value BPF_MAP_TYPE_PERF_EVENT_ARRAY = 4"
| "map_type_value BPF_MAP_TYPE_PERCPU_HASH = 5"
| "map_type_value BPF_MAP_TYPE_PERCPU_ARRAY = 6"
| "map_type_value BPF_MAP_TYPE_STACK_TRACE = 7"
| "map_type_value BPF_MAP_TYPE_CGROUP_ARRAY = 8"
| "map_type_value BPF_MAP_TYPE_LRU_HASH = 9"
| "map_type_value BPF_MAP_TYPE_LRU_PERCPU_HASH = 10"
| "map_type_value BPF_MAP_TYPE_LPM_TRIE = 11"
| "map_type_value BPF_MAP_TYPE_ARRAY_OF_MAPS = 12"
| "map_type_value BPF_MAP_TYPE_HASH_OF_MAPS = 13"
| "map_type_value BPF_MAP_TYPE_DEVMAP = 14"
| "map_type_value BPF_MAP_TYPE_SOCKMAP = 15"
| "map_type_value BPF_MAP_TYPE_CPUMAP = 16"
| "map_type_value BPF_MAP_TYPE_XSKMAP = 17"
| "map_type_value BPF_MAP_TYPE_SOCKHASH = 18"
| "map_type_value BPF_MAP_TYPE_CGROUP_STORAGE_DEPRECATED = 19"
| "map_type_value BPF_MAP_TYPE_CGROUP_STORAGE = 19"
| "map_type_value BPF_MAP_TYPE_REUSEPORT_SOCKARRAY = 20"
| "map_type_value BPF_MAP_TYPE_PERCPU_CGROUP_STORAGE_DEPRECATED = 21"
| "map_type_value BPF_MAP_TYPE_PERCPU_CGROUP_STORAGE = 21"
| "map_type_value BPF_MAP_TYPE_QUEUE = 22"
| "map_type_value BPF_MAP_TYPE_STACK = 23"
| "map_type_value BPF_MAP_TYPE_SK_STORAGE = 24"
| "map_type_value BPF_MAP_TYPE_DEVMAP_HASH = 25"
| "map_type_value BPF_MAP_TYPE_STRUCT_OPS = 26"
| "map_type_value BPF_MAP_TYPE_RINGBUF = 27"
| "map_type_value BPF_MAP_TYPE_INODE_STORAGE = 28"
| "map_type_value BPF_MAP_TYPE_TASK_STORAGE = 29"
| "map_type_value BPF_MAP_TYPE_BLOOM_FILTER = 30"
| "map_type_value BPF_MAP_TYPE_USER_RINGBUF = 31"
| "map_type_value BPF_MAP_TYPE_CGRP_STORAGE = 32"
| "map_type_value BPF_MAP_TYPE_ARENA = 33"
| "map_type_value BPF_MAP_TYPE_INSN_ARRAY = 34"

text \<open>
  \<open>__uint\<close> and \<open>__type\<close> declare pointers whose target types carry the number
  and the type. A ring buffer has neither keys nor values.
\<close>

record map_decl =
  md_type :: bpf_map_type
  md_max_entries :: nat
  md_key :: "cty option"
  md_value :: "cty option"

abbreviation u32_ty :: cty where "u32_ty \<equiv> CInt 4"
abbreviation u64_ty :: cty where "u64_ty \<equiv> CInt 8"
abbreviation char_array :: "nat \<Rightarrow> cty" where "char_array n \<equiv> CArr n (CInt 1)"

definition table_map :: "bpf_map_type \<Rightarrow> nat \<Rightarrow> cty \<Rightarrow> cty \<Rightarrow> map_decl" where
  "table_map t n k v = \<lparr>md_type = t, md_max_entries = n, md_key = Some k, md_value = Some v\<rparr>"

definition ring_map :: "nat \<Rightarrow> map_decl" where
  "ring_map n = \<lparr>md_type = BPF_MAP_TYPE_RINGBUF, md_max_entries = n, md_key = None, md_value = None\<rparr>"

text \<open>\<open>struct dir_key\<close>, \<open>struct scratch\<close>, \<open>struct path_parts\<close> and \<open>struct pending\<close>.\<close>

definition dir_key_ty :: cty where
  "dir_key_ty = CStruct [Field ''ino'' u64_ty, Field ''dev'' u32_ty, Field ''pad'' u32_ty]"

definition scratch_ty :: cty where
  "scratch_ty = CStruct [Field ''name'' (CArr MAX_DEPTH u64_ty), Field ''len'' (CArr MAX_DEPTH u32_ty),
     Field ''buf'' (char_array (unat DIR_BUF * 2)), Field ''key'' (char_array PATH_LEN),
     Field ''base'' (char_array NAME_LEN), Field ''pbase'' (char_array NAME_LEN)]"

definition path_parts_ty :: cty where
  "path_parts_ty = CStruct [Field ''name'' (CArr MAX_DEPTH u64_ty), Field ''len'' (CArr MAX_DEPTH u32_ty),
     Field ''buf'' (char_array (unat DIR_BUF * 2))]"

definition pending_ty :: cty where
  "pending_ty = CStruct [Field ''kind'' u32_ty, Field ''pad'' u32_ty, Field ''a'' (CArr 4 u64_ty),
     Field ''uid'' u32_ty, Field ''euid'' u32_ty]"

subsection \<open>\<open>prevent.bpf.c\<close>\<close>

definition rule_action_map :: map_decl where
  "rule_action_map = table_map BPF_MAP_TYPE_ARRAY MAX_RULES u32_ty u32_ty"
definition deny_path_map :: map_decl where
  "deny_path_map = table_map BPF_MAP_TYPE_HASH MAX_RULES (char_array PATH_LEN) u32_ty"
definition deny_dir_map :: map_decl where
  "deny_dir_map = table_map BPF_MAP_TYPE_HASH MAX_RULES dir_key_ty u32_ty"
definition parent_mask_map :: map_decl where
  "parent_mask_map = table_map BPF_MAP_TYPE_HASH MAX_RULES (char_array NAME_LEN) u64_ty"
definition child_mask_map :: map_decl where
  "child_mask_map = table_map BPF_MAP_TYPE_HASH MAX_RULES (char_array NAME_LEN) u64_ty"
definition parent_rule_map :: map_decl where
  "parent_rule_map = table_map BPF_MAP_TYPE_ARRAY MAX_PARENT u32_ty u32_ty"
definition prevent_config_map :: map_decl where
  "prevent_config_map = table_map BPF_MAP_TYPE_ARRAY 2 u32_ty u32_ty"
definition decisions_map :: map_decl where
  "decisions_map = ring_map (256 * 1024)"
definition scratch_map_map :: map_decl where
  "scratch_map_map = table_map BPF_MAP_TYPE_PERCPU_ARRAY 1 u32_ty scratch_ty"

subsection \<open>\<open>linsensor.bpf.c\<close>\<close>

definition self_map_map :: map_decl where
  "self_map_map = table_map BPF_MAP_TYPE_ARRAY 1 u32_ty u32_ty"
definition sensor_events_map :: map_decl where
  "sensor_events_map = ring_map (4 * 1024 * 1024)"
definition path_scratch_map :: map_decl where
  "path_scratch_map = table_map BPF_MAP_TYPE_PERCPU_ARRAY 1 u32_ty path_parts_ty"
definition drops_map :: map_decl where
  "drops_map = table_map BPF_MAP_TYPE_PERCPU_ARRAY 1 u32_ty u64_ty"
definition pending_args_map :: map_decl where
  "pending_args_map = table_map BPF_MAP_TYPE_LRU_HASH 16384 u64_ty pending_ty"
definition stats_map :: map_decl where
  "stats_map = table_map BPF_MAP_TYPE_PERCPU_ARRAY ST_N u32_ty u64_ty"

subsection \<open>\<open>execve.bpf.c\<close> and \<open>netwatch.bpf.c\<close>\<close>

definition events_map :: map_decl where
  "events_map = ring_map (256 * 1024)"
definition pid_image_cache_map :: map_decl where
  "pid_image_cache_map = table_map BPF_MAP_TYPE_LRU_HASH 10240 u32_ty (char_array MAX_FILENAME_LEN)"
definition scratch_buf_map :: map_decl where
  "scratch_buf_map = table_map BPF_MAP_TYPE_PERCPU_ARRAY 1 u32_ty (char_array MAX_FILENAME_LEN)"
definition net_events_map :: map_decl where
  "net_events_map = ring_map (512 * 1024)"

section \<open>The states fit the declarations\<close>

definition key_size :: "map_decl \<Rightarrow> nat" where
  "key_size d = (case md_key d of None \<Rightarrow> 0 | Some t \<Rightarrow> csize t)"

definition value_size :: "map_decl \<Rightarrow> nat" where
  "value_size d = (case md_value d of None \<Rightarrow> 0 | Some t \<Rightarrow> csize t)"

lemmas map_decl_defs = table_map_def ring_map_def key_size_def value_size_def
  rule_action_map_def deny_path_map_def deny_dir_map_def parent_mask_map_def child_mask_map_def
  parent_rule_map_def prevent_config_map_def decisions_map_def scratch_map_map_def
  self_map_map_def sensor_events_map_def path_scratch_map_def drops_map_def pending_args_map_def
  stats_map_def events_map_def pid_image_cache_map_def scratch_buf_map_def net_events_map_def

text \<open>The sizes the compiler gives the values, and the ring buffers are powers of two.\<close>

lemma declared_sizes:
  "key_size deny_path_map = 256" "key_size deny_dir_map = 16" "key_size parent_mask_map = 32"
  "key_size child_mask_map = 32" "value_size scratch_map_map = 4608" "value_size path_scratch_map = 4288"
  "value_size pending_args_map = 48" "value_size pid_image_cache_map = MAX_FILENAME_LEN"
  "map md_max_entries [decisions_map, sensor_events_map, events_map, net_events_map] = [2 ^ 18, 2 ^ 22, 2 ^ 18, 2 ^ 19]"
  by (simp_all add: map_decl_defs dir_key_ty_def scratch_ty_def path_parts_ty_def pending_ty_def
      NAME_LEN_def align_up_def)

definition hash_fits :: "map_decl \<Rightarrow> ('k \<Rightarrow> nat) \<Rightarrow> ('k \<Rightarrow> 'v option) \<Rightarrow> bool" where
  "hash_fits d size_of m \<longleftrightarrow> finite (dom m) \<and> card (dom m) \<le> md_max_entries d \<and>
     (\<forall>k \<in> dom m. size_of k = key_size d)"

definition array_fits :: "map_decl \<Rightarrow> 'v list \<Rightarrow> bool" where
  "array_fits d xs \<longleftrightarrow> length xs = md_max_entries d"

definition dir_key_size :: "dir_key \<Rightarrow> nat" where
  "dir_key_size k = csize dir_key_ty"

definition prevent_fits :: "prevent_st \<Rightarrow> bool" where
  "prevent_fits st \<longleftrightarrow>
     array_fits rule_action_map (rule_action st) \<and> array_fits parent_rule_map (parent_rule st) \<and>
     array_fits prevent_config_map (prevent_config st) \<and>
     (\<forall>c. array_fits scratch_map_map (scratch_map st c)) \<and>
     hash_fits deny_path_map length (deny_path st) \<and> hash_fits deny_dir_map dir_key_size (deny_dir st) \<and>
     hash_fits parent_mask_map length (parent_mask st) \<and> hash_fits child_mask_map length (child_mask st)"

section \<open>Loading a policy stays within them\<close>

lemma hash_fits_put:
  assumes "hash_fits d size_of m" and "hash_put (md_max_entries d) m k v = Some m'" and "size_of k = key_size d"
  shows "hash_fits d size_of m'"
proof -
  have m': "m' = m(k \<mapsto> v)" and room: "m k = None \<Longrightarrow> card (dom m) < md_max_entries d"
    using assms(2) by (auto simp: hash_put_def split: if_splits)
  show ?thesis
    using assms(1,3) room unfolding m' hash_fits_def
    by (cases "m k") (auto simp: insert_absorb domI card_insert_if)
qed

lemma hash_fits_empty: "hash_fits d size_of Map.empty"
  by (simp add: hash_fits_def)

lemma length_fixed: "length (fixed s n) = n"
  by (simp add: fixed_def Let_def blit_0)

lemma max_entries [simp]:
  "md_max_entries deny_path_map = MAX_RULES" "md_max_entries deny_dir_map = MAX_RULES"
  "md_max_entries parent_mask_map = MAX_RULES" "md_max_entries child_mask_map = MAX_RULES"
  by (simp_all add: map_decl_defs)

lemma key_sizes:
  "length (fixed s PATH_LEN) = key_size deny_path_map" "dir_key_size k = key_size deny_dir_map"
  "length (fixed s NAME_LEN) = key_size parent_mask_map" "length (fixed s NAME_LEN) = key_size child_mask_map"
  by (simp_all add: length_fixed map_decl_defs dir_key_size_def)

lemmas put_fits =
  hash_fits_put [of deny_path_map length, unfolded max_entries, OF _ _ key_sizes(1)]
  hash_fits_put [of deny_dir_map dir_key_size, unfolded max_entries, OF _ _ key_sizes(2)]
  hash_fits_put [of parent_mask_map length, unfolded max_entries, OF _ _ key_sizes(3)]
  hash_fits_put [of child_mask_map length, unfolded max_entries, OF _ _ key_sizes(4)]

lemma load_rule_fits: "prevent_fits (ld_st l) \<Longrightarrow> prevent_fits (ld_st (fst (load_rule os c l)))"
  by (auto simp: load_rule_def load_path_def load_dir_def load_parent_def Let_def prevent_fits_def array_fits_def
      dest: arr_put_SomeD intro: put_fits split: option.split)

lemma put_parent_mask_fits: "prevent_fits st \<Longrightarrow> prevent_fits (fst (put_parent_mask e st))"
  by (auto simp: put_parent_mask_def prevent_fits_def intro: put_fits split: option.split)

lemma put_child_mask_fits: "prevent_fits st \<Longrightarrow> prevent_fits (fst (put_child_mask e st))"
  by (auto simp: put_child_mask_def prevent_fits_def intro: put_fits split: option.split)

lemma load_masks_fits:
  assumes "prevent_fits (ld_st l)"
  shows "prevent_fits (fst (load_masks range_map l))"
proof -
  obtain st e where p: "fold_until put_parent_mask (range_map (ld_parent l)) (ld_st l) = (st, e)" by fastforce
  obtain st' e' where c: "fold_until put_child_mask (range_map (ld_child l)) st = (st', e')" by fastforce
  have s: "prevent_fits st"
    using fold_until_invariant [of _ prevent_fits put_parent_mask, OF put_parent_mask_fits assms] p
    by (metis fst_conv)
  have "prevent_fits st'"
    using fold_until_invariant [of _ prevent_fits put_child_mask, OF put_child_mask_fits s] c
    by (metis fst_conv)
  then show ?thesis
    using s by (auto simp: load_masks_def p c prevent_fits_def array_fits_def dest!: arr_put_SomeD split: option.split)
qed

text \<open>
  Loading any policy, whether it succeeds or stops half way, leaves every map
  within its declaration: the arrays have the declared length, the hash maps
  hold at most the declared number of entries, and every key has the size of
  the declared key type.
\<close>

lemma apply_within_declarations:
  assumes "prevent_fits (le_maps e)"
  shows "prevent_fits (le_maps (fst (lsm_apply os range_map p e)))"
proof (cases "arr_put (prevent_config (le_maps e)) 0 0")
  case None
  then show ?thesis using assms by (simp add: lsm_apply_def)
next
  case (Some cfg)
  let ?l = "\<lparr>ld_st = clear_rules ((le_maps e)\<lparr>prevent_config := cfg\<rparr>), ld_has = 0,
    ld_parent = [], ld_child = [], ld_k = 0\<rparr>"
  obtain l err where l: "fold_until (load_rule os) (pol_rules p) ?l = (l, err)" by fastforce
  have "prevent_fits (ld_st ?l)"
    using assms arr_put_SomeD [OF Some]
    by (simp add: prevent_fits_def array_fits_def clear_rules_def hash_fits_empty)
  then have "prevent_fits (ld_st (fst (fold_until (load_rule os) (pol_rules p) ?l)))"
    by (intro fold_until_invariant [where P = "\<lambda>l. prevent_fits (ld_st l)"] load_rule_fits)
  then have "prevent_fits (ld_st l)" using l by simp
  then show ?thesis
    using load_masks_fits [of l range_map]
    by (auto simp: lsm_apply_def Some l Let_def split: option.split prod.split)
qed

end
