(* ===== verification/Kv_Lines.thy ===== *)
theory Kv_Lines
  imports Go_Strings
begin

text \<open>
  The log lines between agent and server: \<open>kv\<close> and the number formats with
  which the agent writes them (Go), and \<open>_parse_kv\<close> of the worker's
  \<open>decoder_engine.py\<close>, which reads them (Python). A line made of key/value
  fields is read back field by field, whatever bytes the quoted values hold.
\<close>

section \<open>Writing\<close>

text \<open>\<open>strings.ReplaceAll\<close> of a single byte.\<close>

definition replace_all :: "u8 \<Rightarrow> bytes \<Rightarrow> bytes \<Rightarrow> bytes" where
  "replace_all c w s = concat (map (\<lambda>b. if b = c then w else [b]) s)"

definition kv :: "bytes \<Rightarrow> bytes" where
  "kv s =
     (let s = replace_all 92 [92, 92] s;
          s = replace_all 34 [92, 34] s;
          s = replace_all 10 [92, 110] s
      in [34] @ s @ [34])"

fun show_digits :: "nat \<Rightarrow> nat \<Rightarrow> nat \<Rightarrow> bytes" where
  "show_digits 0 base n = []"
| "show_digits (Suc w) base n =
     (let d = n mod base; c = (if d < 10 then 48 + word_of_nat d else 87 + word_of_nat d)
      in (if n div base = 0 then [] else show_digits w base (n div base)) @ [c])"

text \<open>\<open>%d\<close> and \<open>%x\<close> of unsigned numbers: 20 decimal or 16 hexadecimal digits hold any 64-bit value.\<close>

definition fmt_d :: "nat \<Rightarrow> bytes" where "fmt_d n = show_digits 20 10 n"
definition fmt_x :: "nat \<Rightarrow> bytes" where "fmt_x n = show_digits 16 16 n"

section \<open>Reading\<close>

text \<open>The ASCII part of the classes \<open>\w\<close> and \<open>\s\<close> of Python's \<open>re\<close>.\<close>

definition is_word :: "u8 \<Rightarrow> bool" where
  "is_word b \<longleftrightarrow> (48 \<le> b \<and> b \<le> 57) \<or> (65 \<le> b \<and> b \<le> 90) \<or> (97 \<le> b \<and> b \<le> 122) \<or> b = 95"

definition is_blank :: "u8 \<Rightarrow> bool" where
  "is_blank b \<longleftrightarrow> (9 \<le> b \<and> b \<le> 13) \<or> (28 \<le> b \<and> b \<le> 32)"

text \<open>
  \<open>_KV_RE\<close>: a word, an equals sign, then a quoted string with backslash
  escapes or a run of non-blanks. The pattern is deterministic: its first
  alternative fails only where no closing quote follows.
\<close>

fun scan_quoted :: "bytes \<Rightarrow> (bytes \<times> bytes) option" where
  "scan_quoted [] = None"
| "scan_quoted [b] = (if b = 34 then Some ([], []) else None)"
| "scan_quoted (b # c # s) =
     (if b = 34 then Some ([], c # s)
      else if b = 92 then
        (if c = 10 then None else map_option (\<lambda>(v, r). (b # c # v, r)) (scan_quoted s))
      else map_option (\<lambda>(v, r). (b # v, r)) (scan_quoted (c # s)))"

definition scan_plain :: "bytes \<Rightarrow> (bytes \<times> bytes) option" where
  "scan_plain s =
     (let v = takeWhile (\<lambda>b. \<not> is_blank b) s
      in if v = [] then None else Some (v, dropWhile (\<lambda>b. \<not> is_blank b) s))"

definition scan_value :: "bytes \<Rightarrow> (bytes \<times> bytes) option" where
  "scan_value s =
     (case s of [] \<Rightarrow> None
      | b # t \<Rightarrow>
          if b = 34 then
            (case scan_quoted t of Some (v, r) \<Rightarrow> Some ([34] @ v @ [34], r) | None \<Rightarrow> scan_plain s)
          else scan_plain s)"

definition kv_match :: "bytes \<Rightarrow> (bytes \<times> bytes \<times> bytes) option" where
  "kv_match s =
     (let k = takeWhile is_word s
      in if k = [] then None
         else (case dropWhile is_word s of [] \<Rightarrow> None
               | b # t \<Rightarrow> if b = 61 then map_option (\<lambda>(v, r). (k, v, r)) (scan_value t) else None))"

lemma scan_quoted_shorter: "scan_quoted s = Some (v, r) \<Longrightarrow> length r < length s"
proof (induction s arbitrary: v rule: scan_quoted.induct)
  case (3 b c s)
  then show ?case by (fastforce split: if_splits)
qed (auto split: if_splits)

lemma scan_plain_shorter: "scan_plain s = Some (v, r) \<Longrightarrow> length r < length s"
proof -
  assume "scan_plain s = Some (v, r)"
  then have "v \<noteq> []" and "s = v @ r"
    by (auto simp: scan_plain_def Let_def split: if_splits)
  then show ?thesis by auto
qed

lemma scan_value_shorter: "scan_value s = Some (v, r) \<Longrightarrow> length r < length s"
  by (auto simp: scan_value_def dest: scan_quoted_shorter scan_plain_shorter
      split: list.splits if_splits option.splits)

lemma kv_match_shorter: "kv_match s = Some (k, v, r) \<Longrightarrow> length r < length s"
proof -
  assume a: "kv_match s = Some (k, v, r)"
  then obtain t where d: "dropWhile is_word s = 61 # t" and v: "scan_value t = Some (v, r)"
    by (auto simp: kv_match_def Let_def split: if_splits list.splits)
  have "length (61 # t) \<le> length s" unfolding d [symmetric] by (rule length_dropWhile_le)
  then show ?thesis using scan_value_shorter [OF v] by simp
qed

text \<open>\<open>findall\<close>: the matches from left to right, each search starting where the last match ended.\<close>

function kv_findall :: "bytes \<Rightarrow> (bytes \<times> bytes) list" where
  "kv_findall [] = []"
| "kv_findall (b # s) =
     (case kv_match (b # s) of None \<Rightarrow> kv_findall s
      | Some (k, v, r) \<Rightarrow> (k, v) # kv_findall r)"
  by pat_completeness auto
termination
  by (relation "measure length") (auto dest: kv_match_shorter)

declare kv_findall.simps [simp del]

text \<open>\<open>_KV_UNESCAPE_RE\<close>: a backslash before a quote or a backslash goes.\<close>

fun kv_unescape :: "bytes \<Rightarrow> bytes" where
  "kv_unescape [] = []"
| "kv_unescape [b] = [b]"
| "kv_unescape (b # c # s) =
     (if b = 92 \<and> (c = 34 \<or> c = 92) then c # kv_unescape s else b # kv_unescape (c # s))"

definition parse_value :: "bytes \<Rightarrow> bytes" where
  "parse_value v =
     (if 2 \<le> length v \<and> hd v = 34 \<and> last v = 34 then kv_unescape (butlast (tl v))
      else if v \<noteq> [] \<and> last v = 39 \<and> count_list v 39 = 1 then butlast v
      else v)"

definition parse_fields :: "bytes \<Rightarrow> (bytes \<times> bytes) list" where
  "parse_fields raw = map (\<lambda>(k, v). (k, parse_value v)) (kv_findall raw)"

definition parse_kv :: "bytes \<Rightarrow> bytes \<Rightarrow> bytes option" where
  "parse_kv raw = map_of (rev (parse_fields raw))"

section \<open>Quoted values survive\<close>

definition esc_byte :: "u8 \<Rightarrow> bytes" where
  "esc_byte b = (if b = 92 then [92, 92] else if b = 34 then [92, 34] else if b = 10 then [92, 110] else [b])"

abbreviation esc :: "bytes \<Rightarrow> bytes" where "esc s \<equiv> concat (map esc_byte s)"

lemma replace_all_simps [simp]:
  "replace_all c w [] = []" "replace_all c w (b # s) = (if b = c then w else [b]) @ replace_all c w s"
  "replace_all c w (s @ t) = replace_all c w s @ replace_all c w t"
  by (simp_all add: replace_all_def)

lemma kv_esc: "kv s = 34 # esc s @ [34]"
proof -
  have "replace_all 10 [92, 110] (replace_all 34 [92, 34] (replace_all 92 [92, 92] s)) = esc s"
    by (induction s) (auto simp: esc_byte_def)
  then show ?thesis by (simp add: kv_def)
qed

lemma kv_no_newline: "10 \<notin> set (kv s)"
  by (induction s) (auto simp: kv_esc esc_byte_def split: if_splits)

text \<open>How a value arrives: the worker does not undo the agent's escape for a newline.\<close>

definition shown :: "bytes \<Rightarrow> bytes" where
  "shown s = replace_all 10 [92, 110] s"

lemma scan_quoted_plain:
  "b \<noteq> 34 \<Longrightarrow> b \<noteq> 92 \<Longrightarrow> scan_quoted (b # s) = map_option (\<lambda>(v, r). (b # v, r)) (scan_quoted s)"
  by (cases s) auto

lemma scan_quoted_esc: "scan_quoted (esc s @ 34 # r) = Some (esc s, r)"
proof (induction s)
  case Nil
  then show ?case by (cases r) auto
next
  case (Cons b s)
  then show ?case by (auto simp: esc_byte_def scan_quoted_plain)
qed

lemma kv_unescape_plain: "b \<noteq> 92 \<Longrightarrow> kv_unescape (b # s) = b # kv_unescape s"
  by (cases s) auto

lemma kv_unescape_esc: "kv_unescape (esc s) = shown s"
  by (induction s) (auto simp: esc_byte_def shown_def kv_unescape_plain)

lemma parse_value_kv: "parse_value (kv s) = shown s"
proof -
  have "butlast (tl (kv s)) = esc s" by (simp add: kv_esc butlast_append)
  then show ?thesis by (simp add: parse_value_def kv_esc kv_unescape_esc)
qed

lemma shown_id: "10 \<notin> set s \<Longrightarrow> shown s = s"
  by (induction s) (auto simp: shown_def)

section \<open>Keys and values\<close>

text \<open>Plain values are words: no blank, no quote of either kind.\<close>

definition key_ok :: "bytes \<Rightarrow> bool" where
  "key_ok k \<longleftrightarrow> k \<noteq> [] \<and> list_all is_word k"

definition plain_ok :: "bytes \<Rightarrow> bool" where
  "plain_ok v \<longleftrightarrow> v \<noteq> [] \<and> list_all (\<lambda>b. \<not> is_blank b \<and> b \<noteq> 34 \<and> b \<noteq> 39) v"

text \<open>What follows a field: the end of the line, or a blank.\<close>

definition ends_field :: "bytes \<Rightarrow> bool" where
  "ends_field r \<longleftrightarrow> r = [] \<or> hd r = 32"

lemma takeWhile_key:
  "key_ok k \<Longrightarrow> takeWhile is_word (k @ 61 # t) = k \<and> dropWhile is_word (k @ 61 # t) = 61 # t"
proof -
  assume "key_ok k"
  then have "\<forall>b \<in> set k. is_word b" and "\<not> is_word 61"
    by (auto simp: key_ok_def list_all_iff is_word_def)
  then show ?thesis by (induction k) auto
qed

lemma kv_match_quoted: "key_ok k \<Longrightarrow> kv_match (k @ 61 # kv v @ r) = Some (k, kv v, r)"
  using takeWhile_key [of k "kv v @ r"] scan_quoted_esc [of v r]
  by (simp add: kv_match_def Let_def key_ok_def scan_value_def kv_esc)

lemma scan_plain_value:
  assumes "plain_ok v" and "ends_field r"
  shows "scan_value (v @ r) = Some (v, r)"
proof -
  have v: "v \<noteq> []" "\<forall>b \<in> set v. \<not> is_blank b" "hd v \<noteq> 34"
    using assms(1) by (cases v; auto simp: plain_ok_def list_all_iff)+
  have "is_blank 32" by (simp add: is_blank_def)
  then have "takeWhile (\<lambda>b. \<not> is_blank b) r = []" "dropWhile (\<lambda>b. \<not> is_blank b) r = r"
    using assms(2) by (cases r; auto simp: ends_field_def)+
  then have "scan_plain (v @ r) = Some (v, r)"
    using v by (simp add: scan_plain_def)
  then show ?thesis using v by (cases v) (auto simp: scan_value_def)
qed

lemma kv_match_plain:
  "key_ok k \<Longrightarrow> plain_ok v \<Longrightarrow> ends_field r \<Longrightarrow> kv_match (k @ 61 # v @ r) = Some (k, v, r)"
  using takeWhile_key [of k "v @ r"] scan_plain_value [of v r]
  by (simp add: kv_match_def Let_def key_ok_def)

section \<open>Lines of tokens\<close>

text \<open>
  A token is a key and the text after its equals sign. It is sound when that
  text is matched as a whole before a blank or the end; an empty text is not
  matched at all.
\<close>

definition token_ok :: "bytes \<times> bytes \<Rightarrow> bool" where
  "token_ok = (\<lambda>(k, raw). key_ok k \<and>
     (raw = [] \<or> (\<forall>r. ends_field r \<longrightarrow> kv_match (k @ 61 # raw @ r) = Some (k, raw, r))))"

definition token_line :: "(bytes \<times> bytes) list \<Rightarrow> bytes" where
  "token_line ts = join_with [32] (map (\<lambda>(k, raw). k @ 61 # raw) ts)"

lemma findall_no_value:
  assumes "list_all is_word k" and "ends_field r"
  shows "kv_findall (k @ 61 # r) = kv_findall r"
  using assms(1)
proof (induction k)
  case Nil
  have "\<not> is_word 61" by (simp add: is_word_def)
  then show ?case by (simp add: kv_findall.simps kv_match_def)
next
  case (Cons b k)
  have k: "key_ok (b # k)" using Cons.prems by (simp add: key_ok_def)
  have "scan_value r = None"
    using assms(2) by (cases r) (auto simp: ends_field_def scan_value_def scan_plain_def is_blank_def)
  then have "kv_match (b # k @ 61 # r) = None"
    using takeWhile_key [OF k, of r] by (simp add: kv_match_def Let_def)
  then show ?case using Cons by (simp add: kv_findall.simps)
qed

lemma findall_token:
  assumes "token_ok (k, raw)" and "ends_field r"
  shows "kv_findall (k @ 61 # raw @ r) = (if raw = [] then [] else [(k, raw)]) @ kv_findall r"
proof (cases "raw = []")
  case True
  then show ?thesis using assms findall_no_value [of k r] by (simp add: token_ok_def key_ok_def)
next
  case False
  then obtain b k' where k: "k = b # k'" using assms(1) by (cases k) (auto simp: token_ok_def key_ok_def)
  have "kv_match (k @ 61 # raw @ r) = Some (k, raw, r)" using assms False by (simp add: token_ok_def)
  then show ?thesis using False unfolding k by (simp add: kv_findall.simps)
qed

lemma findall_blank: "kv_findall (32 # r) = kv_findall r"
proof -
  have "\<not> is_word 32" by (simp add: is_word_def)
  then show ?thesis by (simp add: kv_findall.simps kv_match_def)
qed

lemma findall_tokens:
  "list_all token_ok ts \<Longrightarrow> kv_findall (token_line ts) = filter (\<lambda>(k, raw). raw \<noteq> []) ts"
proof (induction ts rule: induct_list012)
  case (2 t)
  then show ?case
    using findall_token [of "fst t" "snd t" "[]"]
    by (auto simp: token_line_def ends_field_def kv_findall.simps case_prod_unfold)
next
  case (3 s t ts)
  have "kv_findall (token_line (s # t # ts)) =
      (if snd s = [] then [] else [s]) @ kv_findall (32 # token_line (t # ts))"
    using findall_token [of "fst s" "snd s" "32 # token_line (t # ts)"] 3(3)
    by (simp add: token_line_def ends_field_def case_prod_unfold)
  then show ?case using 3 by (auto simp: findall_blank)
qed (simp add: token_line_def kv_findall.simps)

section \<open>Lines of fields\<close>

text \<open>A field is written quoted, or plain when its value is a number or a fixed word.\<close>

datatype field_text = Quoted bytes bytes | Plain bytes bytes

fun render_field :: "field_text \<Rightarrow> bytes" where
  "render_field (Quoted k v) = k @ [61] @ kv v"
| "render_field (Plain k v) = k @ [61] @ v"

fun field_read :: "field_text \<Rightarrow> bytes \<times> bytes" where
  "field_read (Quoted k v) = (k, shown v)"
| "field_read (Plain k v) = (k, v)"

definition render :: "field_text list \<Rightarrow> bytes" where
  "render fs = join_with [32] (map render_field fs)"

fun text_ok :: "field_text \<Rightarrow> bool" where
  "text_ok (Quoted k v) \<longleftrightarrow> key_ok k"
| "text_ok (Plain k v) \<longleftrightarrow> key_ok k \<and> plain_ok v"

definition field_raw :: "field_text \<Rightarrow> bytes \<times> bytes" where
  "field_raw f = (case f of Quoted k v \<Rightarrow> (k, kv v) | Plain k v \<Rightarrow> (k, v))"

lemma kv_match_field:
  assumes "text_ok f" and "ends_field r"
  shows "kv_match (render_field f @ r) = Some (fst (field_raw f), snd (field_raw f), r)"
  using assms by (cases f) (simp_all add: field_raw_def kv_match_quoted kv_match_plain)

lemma field_token: "text_ok f \<Longrightarrow> token_ok (field_raw f) \<and> snd (field_raw f) \<noteq> []"
  using kv_match_field [of f] by (cases f) (simp_all add: token_ok_def field_raw_def kv_esc plain_ok_def)

lemma render_tokens: "render fs = token_line (map field_raw fs)"
proof -
  have "render_field f = (case field_raw f of (k, raw) \<Rightarrow> k @ 61 # raw)" for f
    by (cases f) (simp_all add: field_raw_def)
  then have "map render_field fs = map (\<lambda>(k, raw). k @ 61 # raw) (map field_raw fs)" by simp
  then show ?thesis by (simp only: render_def token_line_def)
qed

lemma findall_render: "list_all text_ok fs \<Longrightarrow> kv_findall (render fs) = map field_raw fs"
  using field_token by (auto simp: render_tokens findall_tokens list_all_iff filter_map o_def case_prod_unfold
      intro!: filter_True)

lemma parse_value_plain: "plain_ok v \<Longrightarrow> parse_value v = v"
  by (cases v) (auto simp: parse_value_def plain_ok_def list_all_iff)

lemma parse_field: "text_ok f \<Longrightarrow> (case field_raw f of (k, v) \<Rightarrow> (k, parse_value v)) = field_read f"
  by (cases f) (simp_all add: field_raw_def parse_value_kv parse_value_plain)

text \<open>A line of fields is read back field by field.\<close>

lemma parse_render: "list_all text_ok fs \<Longrightarrow> parse_fields (render fs) = map field_read fs"
  by (simp add: parse_fields_def findall_render list_all_iff parse_field)

lemma render_no_newline:
  assumes "list_all text_ok fs"
  shows "10 \<notin> set (render fs)"
proof -
  have w: "\<not> is_word 10" "is_blank 10" by (simp_all add: is_word_def is_blank_def)
  have "10 \<notin> set (render_field f)" if "text_ok f" for f
    using that w kv_no_newline by (cases f) (auto simp: key_ok_def plain_ok_def list_all_iff)
  then show ?thesis
    using assms unfolding render_def by (induction fs rule: induct_list012) auto
qed

section \<open>Numbers are plain\<close>

definition digit_ok :: "u8 \<Rightarrow> bool" where
  "digit_ok b \<longleftrightarrow> (48 \<le> b \<and> b \<le> 57) \<or> (97 \<le> b \<and> b \<le> 102)"

lemma digit_ok_char:
  assumes "d < 16"
  shows "digit_ok (if d < 10 then 48 + word_of_nat d else 87 + word_of_nat d)"
proof -
  have "d \<in> {0..<16}" using assms by simp
  then have "d \<in> set [0..<16]" by (simp only: set_upt)
  moreover have "list_all (\<lambda>d. digit_ok (if d < 10 then 48 + word_of_nat d else 87 + word_of_nat d)) [0..<16]"
    by (simp add: upt_rec digit_ok_def)
  ultimately show ?thesis by (metis (mono_tags, lifting) list_all_iff)
qed

lemma show_digits_ok:
  assumes "0 < base" and "base \<le> 16"
  shows "list_all digit_ok (show_digits w base n)"
proof (induction w arbitrary: n)
  case (Suc w)
  have "n mod base < 16" using assms by (meson less_le_trans mod_less_divisor)
  then show ?case
    using Suc [of "n div base"] digit_ok_char
    by (simp only: show_digits.simps Let_def list_all_append list.pred_inject if_split) simp
qed simp

lemma digits_plain: "v \<noteq> [] \<Longrightarrow> list_all digit_ok v \<Longrightarrow> plain_ok v"
  by (auto simp: plain_ok_def list_all_iff digit_ok_def is_blank_def word_le_nat_alt)

lemma show_digits_ne: "show_digits (Suc w) base n \<noteq> []"
  by (simp only: show_digits.simps Let_def) simp

lemma fmt_d_plain: "plain_ok (fmt_d n)"
proof (rule digits_plain)
  show "fmt_d n \<noteq> []" unfolding fmt_d_def by (subst numeral_eq_Suc) (rule show_digits_ne)
  show "list_all digit_ok (fmt_d n)" unfolding fmt_d_def by (rule show_digits_ok) simp_all
qed

lemma fmt_d_digit: "n < 10 \<Longrightarrow> fmt_d n = [48 + word_of_nat n]"
  using show_digits.simps(2) [of 19 10 n] by (simp add: fmt_d_def Let_def)

end
