(* ===== verification/Linsensor_Lines.thy ===== *)
theory Linsensor_Lines
  imports Kv_Lines Wire
begin

text \<open>
  \<open>event.go\<close> of the linsensor package: the log line of every kind of record.
  Each line is shown to be a sequence of fields, so the worker reads back
  exactly the values the agent wrote, and no value can add a field or a line.
\<close>

section \<open>Kinds, log types and flags\<close>

definition kindOpen :: u32 where "kindOpen = 1"
definition kindRename :: u32 where "kindRename = 2"
definition kindUnlink :: u32 where "kindUnlink = 3"
definition kindModuleInit :: u32 where "kindModuleInit = 4"
definition kindModuleFinit :: u32 where "kindModuleFinit = 5"
definition kindModuleDelete :: u32 where "kindModuleDelete = 6"
definition kindPtrace :: u32 where "kindPtrace = 7"
definition kindSetID :: u32 where "kindSetID = 8"
definition kindCapset :: u32 where "kindCapset = 9"
definition kindMemfd :: u32 where "kindMemfd = 10"
definition kindExec :: u32 where "kindExec = 11"
definition kindFilelessExec :: u32 where "kindFilelessExec = 12"
definition kindExit :: u32 where "kindExit = 13"
definition kindVMAccess :: u32 where "kindVMAccess = 14"

lemmas go_kind_defs = kindOpen_def kindRename_def kindUnlink_def kindModuleInit_def kindModuleFinit_def
  kindModuleDelete_def kindPtrace_def kindSetID_def kindCapset_def kindMemfd_def kindExec_def
  kindFilelessExec_def kindExit_def kindVMAccess_def

text \<open>The agent's numbers are those of the C program.\<close>

lemma kinds_in_sync:
  "[kindOpen, kindRename, kindUnlink, kindModuleInit, kindModuleFinit, kindModuleDelete, kindPtrace,
    kindSetID, kindCapset, kindMemfd, kindExec, kindFilelessExec, kindExit, kindVMAccess] =
   [K_OPEN, K_RENAME, K_UNLINK, K_MODULE_INIT, K_MODULE_FINIT, K_MODULE_DELETE, K_PTRACE,
    K_SETID, K_CAPSET, K_MEMFD, K_EXEC, K_FILELESS_EXEC, K_EXIT, K_VM_ACCESS]"
  by (simp add: go_kind_defs kind_defs)

definition LogFile :: bytes where "LogFile = str ''linux_file_event''"
definition LogModule :: bytes where "LogModule = str ''linux_kernel_module''"
definition LogPtrace :: bytes where "LogPtrace = str ''linux_ptrace''"
definition LogPrivilege :: bytes where "LogPrivilege = str ''linux_privilege_change''"
definition LogMemfd :: bytes where "LogMemfd = str ''linux_memfd_create''"
definition LogFileless :: bytes where "LogFileless = str ''linux_fileless_exec''"
definition LogExit :: bytes where "LogExit = str ''linux_process_exit''"
definition LogProcessAccess :: bytes where "LogProcessAccess = str ''linux_process_access''"

definition atFDCWD :: int where "atFDCWD = -100"
definition oWronly :: u64 where "oWronly = 1"
definition oRdwr :: u64 where "oRdwr = 2"
definition oCreat :: u64 where "oCreat = 0x40"
definition oTrunc :: u64 where "oTrunc = 0x200"
definition atRemovDir :: u64 where "atRemovDir = 0x200"

section \<open>The lines\<close>

record file_event =
  fe_time :: int
  fe_action :: bytes
  fe_path :: bytes
  fe_from :: bytes
  fe_pid :: u32
  fe_ppid :: u32
  fe_uid :: u32
  fe_image :: bytes
  fe_comm :: bytes
  fe_dir :: bool

text \<open>\<open>%d\<close> of an unsigned machine integer.\<close>

abbreviation dec :: "'w::len word \<Rightarrow> bytes" where "dec w \<equiv> fmt_d (unat w)"

definition identity :: "raw_event \<Rightarrow> bytes \<Rightarrow> bytes" where
  "identity ev img =
     str '' Image='' @ kv img @ str '' Comm='' @ kv (r_comm ev) @ str '' PID='' @ dec (r_tgid ev) @
     str '' PPID='' @ dec (r_ppid ev) @ str '' User='' @ dec (r_uid ev) @ str '' EUID='' @ dec (r_euid ev)"

definition file_line :: "file_event \<Rightarrow> bytes" where
  "file_line f =
     str ''action='' @ fe_action f @ str '' TargetFilename='' @ kv (fe_path f) @
     (if fe_from f \<noteq> [] then str '' SourceFilename='' @ kv (fe_from f) else []) @
     (if fe_dir f then str '' IsDirectory=true'' else []) @
     str '' Image='' @ kv (fe_image f) @ str '' Comm='' @ kv (fe_comm f) @ str '' PID='' @ dec (fe_pid f) @
     str '' PPID='' @ dec (fe_ppid f) @ str '' User='' @ dec (fe_uid f)"

definition ptraceRequests :: "u64 \<Rightarrow> bytes option" where
  "ptraceRequests = map_of
     [(4, str ''poketext''), (5, str ''pokedata''), (6, str ''pokeuser''), (13, str ''setregs''),
      (16, str ''attach''), (0x4206, str ''seize'')]"

definition setIDCalls :: "u64 \<Rightarrow> bytes option" where
  "setIDCalls = map_of
     [(1, str ''setuid''), (2, str ''setreuid''), (3, str ''setresuid''), (4, str ''setgid''),
      (5, str ''setregid''), (6, str ''setresgid'')]"

definition signedID :: "u64 \<Rightarrow> bytes" where
  "signedID v = (if (ucast v :: u32) = 0xffffffff then str ''-1'' else dec (ucast v :: u32))"

definition moduleLine :: "raw_event \<Rightarrow> bytes \<Rightarrow> bytes" where
  "moduleLine ev img =
     (if r_kind ev = kindModuleInit
      then str ''action=load_memory Size='' @ dec (r_arg0 ev) @ str '' Params='' @ kv (r_path2 ev)
      else if r_kind ev = kindModuleFinit
      then str ''action=load Module='' @ kv (r_path ev) @ str '' Params='' @ kv (r_path2 ev)
      else str ''action=unload Module='' @ kv (r_path ev)) @ identity ev img"

text \<open>A Go map gives the empty string for a missing key.\<close>

definition ptraceLine :: "raw_event \<Rightarrow> bytes \<Rightarrow> bytes \<Rightarrow> bytes" where
  "ptraceLine ev img target_image =
     str ''action='' @ (case ptraceRequests (r_arg0 ev) of Some req \<Rightarrow> req | None \<Rightarrow> dec (r_arg0 ev)) @
     str '' TargetPID='' @ dec (r_arg1 ev) @ str '' TargetImage='' @ kv target_image @ identity ev img"

definition accessLine :: "raw_event \<Rightarrow> bytes \<Rightarrow> u64 \<Rightarrow> bytes \<Rightarrow> bytes \<Rightarrow> bytes" where
  "accessLine ev action target img target_image =
     str ''action='' @ action @ str '' TargetPID='' @ dec target @ str '' TargetImage='' @ kv target_image @
     identity ev img"

definition set_ids :: "raw_event \<Rightarrow> bytes list" where
  "set_ids ev =
     signedID (r_arg1 ev AND 0xffffffff) #
     (if r_arg0 ev = 2 \<or> r_arg0 ev = 5 then [signedID (drop_bit 32 (r_arg1 ev))]
      else if r_arg0 ev = 3 \<or> r_arg0 ev = 6 then [signedID (drop_bit 32 (r_arg1 ev)), signedID (r_arg2 ev)]
      else [])"

definition privilegeLine :: "raw_event \<Rightarrow> bytes \<Rightarrow> bytes \<Rightarrow> bytes" where
  "privilegeLine ev img parent_image =
     (if r_kind ev = kindCapset
      then str ''action=capset Effective=0x'' @ fmt_x (unat (r_arg0 ev)) @
           str '' Permitted=0x'' @ fmt_x (unat (r_arg1 ev))
      else str ''action='' @ (case setIDCalls (r_arg0 ev) of Some c \<Rightarrow> c | None \<Rightarrow> []) @
           str '' IDs='' @ kv (join_with (str '','') (set_ids ev))) @
     identity ev img @ str '' ParentImage='' @ kv parent_image"

definition memfdLine :: "raw_event \<Rightarrow> bytes \<Rightarrow> bytes" where
  "memfdLine ev img =
     str ''MemfdName='' @ kv (r_path ev) @ str '' Flags=0x'' @ fmt_x (unat (r_arg0 ev)) @ identity ev img"

definition filelessLine :: "raw_event \<Rightarrow> bytes \<Rightarrow> bytes" where
  "filelessLine ev parent_image =
     str ''Image='' @ kv (r_path ev) @ str '' ExecPath='' @ kv (r_path2 ev) @ str '' Links='' @ dec (r_arg0 ev) @
     str '' Comm='' @ kv (r_comm ev) @ str '' PID='' @ dec (r_tgid ev) @ str '' PPID='' @ dec (r_ppid ev) @
     str '' User='' @ dec (r_uid ev) @ str '' EUID='' @ dec (r_euid ev) @ str '' ParentImage='' @ kv parent_image"

definition exitLine :: "raw_event \<Rightarrow> bytes \<Rightarrow> bytes" where
  "exitLine ev img =
     (let code = r_arg0 ev in
      if code AND 0x7f \<noteq> 0 then str ''ExitCode=-1 Signal='' @ dec (code AND 0x7f)
      else str ''ExitCode='' @ dec (drop_bit 8 code AND 0xff) @ str '' Signal=0'') @ identity ev img"

section \<open>Lines are fields\<close>

definition fileless_fields :: "raw_event \<Rightarrow> bytes \<Rightarrow> field_text list" where
  "fileless_fields ev parent_image =
     [Quoted (str ''Image'') (r_path ev), Quoted (str ''ExecPath'') (r_path2 ev),
      Plain (str ''Links'') (dec (r_arg0 ev)), Quoted (str ''Comm'') (r_comm ev),
      Plain (str ''PID'') (dec (r_tgid ev)), Plain (str ''PPID'') (dec (r_ppid ev)),
      Plain (str ''User'') (dec (r_uid ev)), Plain (str ''EUID'') (dec (r_euid ev)),
      Quoted (str ''ParentImage'') parent_image]"

definition file_fields :: "file_event \<Rightarrow> field_text list" where
  "file_fields f =
     [Plain (str ''action'') (fe_action f), Quoted (str ''TargetFilename'') (fe_path f)] @
     (if fe_from f \<noteq> [] then [Quoted (str ''SourceFilename'') (fe_from f)] else []) @
     (if fe_dir f then [Plain (str ''IsDirectory'') (str ''true'')] else []) @
     [Quoted (str ''Image'') (fe_image f), Quoted (str ''Comm'') (fe_comm f), Plain (str ''PID'') (dec (fe_pid f)),
      Plain (str ''PPID'') (dec (fe_ppid f)), Plain (str ''User'') (dec (fe_uid f))]"

lemma str_split_key: "str (k @ ''='') = str k @ [61]" "str (CHR '' '' # k) = 32 # str k"
  by (simp_all add: str_def chr_def)

lemma file_line_render: "file_line f = render (file_fields f)"
  by (simp add: file_line_def file_fields_def render_def str_def chr_def)

lemma fileless_line_render: "filelessLine ev pimg = render (fileless_fields ev pimg)"
  by (simp add: filelessLine_def fileless_fields_def render_def str_def chr_def)

lemma key_ok_str: "key_ok (str k) \<longleftrightarrow> k \<noteq> [] \<and> list_all (\<lambda>c. is_word (chr c)) k"
  by (auto simp: key_ok_def str_def list_all_iff)

lemma file_fields_ok: "plain_ok (fe_action f) \<Longrightarrow> list_all text_ok (file_fields f)"
  by (simp add: file_fields_def key_ok_str fmt_d_plain is_word_def chr_def)
    (simp add: plain_ok_def str_def chr_def is_blank_def)

lemma fileless_fields_ok: "list_all text_ok (fileless_fields ev pimg)"
  by (simp add: fileless_fields_def key_ok_str fmt_d_plain is_word_def chr_def)

section \<open>One record, one line\<close>

lemma digits_no_newline: "list_all digit_ok v \<Longrightarrow> 10 \<notin> set v"
  by (auto simp: list_all_iff digit_ok_def word_le_nat_alt)

lemma fmt_no_newline [simp]: "10 \<notin> set (fmt_d n)" "10 \<notin> set (fmt_x n)"
  by (simp_all add: fmt_d_def fmt_x_def digits_no_newline show_digits_ok)

lemma kv_newline [simp]: "10 \<notin> set (kv s)"
  by (rule kv_no_newline)

lemma str_no_newline: "10 \<in> set (str k) \<longleftrightarrow> list_ex (\<lambda>c. chr c = 10) k"
  by (auto simp: str_def list_ex_iff)

lemma identity_no_newline [simp]: "10 \<notin> set (identity ev img)"
  by (simp add: identity_def str_no_newline chr_def)

lemma lines_no_newline:
  "10 \<notin> set (moduleLine ev img)" "10 \<notin> set (ptraceLine ev img timg)" "10 \<notin> set (memfdLine ev img)"
  "10 \<notin> set (privilegeLine ev img pimg)" "10 \<notin> set (filelessLine ev pimg)" "10 \<notin> set (exitLine ev img)"
  "10 \<notin> set action \<Longrightarrow> 10 \<notin> set (accessLine ev action target img timg)"
  "10 \<notin> set (fe_action f) \<Longrightarrow> 10 \<notin> set (file_line f)"
proof -
  show "10 \<notin> set (moduleLine ev img)" "10 \<notin> set (memfdLine ev img)" "10 \<notin> set (exitLine ev img)"
    "10 \<notin> set (filelessLine ev pimg)"
    by (simp_all add: moduleLine_def memfdLine_def exitLine_def filelessLine_def Let_def str_no_newline chr_def)
  have "10 \<notin> set req" if "ptraceRequests a = Some req" for a req
    using that by (auto simp: ptraceRequests_def str_no_newline chr_def split: if_splits)
  then show "10 \<notin> set (ptraceLine ev img timg)"
    by (auto simp: ptraceLine_def str_no_newline chr_def split: option.split)
  have "10 \<notin> set c" if "setIDCalls a = Some c" for a c
    using that by (auto simp: setIDCalls_def str_no_newline chr_def split: if_splits)
  then show "10 \<notin> set (privilegeLine ev img pimg)"
    by (auto simp: privilegeLine_def str_no_newline chr_def split: option.split)
  show "10 \<notin> set (accessLine ev action target img timg)" if "10 \<notin> set action"
    using that by (simp add: accessLine_def str_no_newline chr_def)
  show "10 \<notin> set (file_line f)" if "10 \<notin> set (fe_action f)"
    using that by (simp add: file_line_def str_no_newline chr_def)
qed

definition file_actions :: "bytes list" where
  "file_actions = map str [''create'', ''write'', ''rename'', ''delete'', ''read'']"

lemma file_action_plain: "a \<in> set file_actions \<Longrightarrow> plain_ok a"
  by (auto simp: file_actions_def plain_ok_def str_def chr_def is_blank_def)

text \<open>
  C12: What the worker reads from a file event is what the agent wrote, whatever
  bytes the names hold: no file, image or command name can add, remove or
  change another field. Only a newline comes back as backslash and n.
\<close>

theorem file_line_parsed:
  assumes "fe_action f \<in> set file_actions"
  shows "parse_fields (file_line f) =
    [(str ''action'', fe_action f), (str ''TargetFilename'', shown (fe_path f))] @
    (if fe_from f \<noteq> [] then [(str ''SourceFilename'', shown (fe_from f))] else []) @
    (if fe_dir f then [(str ''IsDirectory'', str ''true'')] else []) @
    [(str ''Image'', shown (fe_image f)), (str ''Comm'', shown (fe_comm f)), (str ''PID'', dec (fe_pid f)),
     (str ''PPID'', dec (fe_ppid f)), (str ''User'', dec (fe_uid f))]"
  using parse_render [OF file_fields_ok [OF file_action_plain [OF assms]]]
  by (simp add: file_line_render file_fields_def)

theorem file_line_parsed_witness:
  "parse_fields (file_line
     \<lparr>fe_time = 0, fe_action = str ''write'', fe_path = str ''/a'' @ [34, 10] @ str '' PID=1'', fe_from = [],
      fe_pid = 7, fe_ppid = 1, fe_uid = 0, fe_image = str ''/sh'', fe_comm = str ''sh'', fe_dir = False\<rparr>) =
   [(str ''action'', str ''write''), (str ''TargetFilename'', str ''/a'' @ [34, 92, 110] @ str '' PID=1''),
    (str ''Image'', str ''/sh''), (str ''Comm'', str ''sh''), (str ''PID'', str ''7''), (str ''PPID'', str ''1''),
    (str ''User'', str ''0'')]"
proof -
  have "str ''write'' \<in> set file_actions" by (simp add: file_actions_def)
  moreover have "fmt_d 7 = str ''7''" "fmt_d 1 = str ''1''" "fmt_d 0 = str ''0''"
    by (simp_all add: fmt_d_digit str_def chr_def)
  ultimately show ?thesis
    by (subst file_line_parsed) (simp_all add: shown_def str_def chr_def)
qed

lemma fileless_line_parsed:
  "parse_fields (filelessLine ev pimg) = map field_read (fileless_fields ev pimg)"
  using parse_render [OF fileless_fields_ok] by (simp add: fileless_line_render)

end
