(* ===== verification/Processor.thy ===== *)
theory Processor
  imports Linsensor_Lines "HOL-Library.AList"
begin

text \<open>
  \<open>processor.go\<close> of the linsensor package: what the agent does with a decoded
  record. It keeps the executables of processes, one window of file activity
  per process, and the keys it has reported lately, and pushes log lines.
  The three Go maps are association lists with distinct keys; the list a walk
  over a map follows stands for the order Go leaves open. Times are
  nanoseconds, and all the clock reads of one record give the same time.
\<close>

section \<open>State\<close>

definition GroupFile :: bytes where "GroupFile = str ''file''"
definition GroupModule :: bytes where "GroupModule = str ''module''"
definition GroupPtrace :: bytes where "GroupPtrace = str ''ptrace''"
definition GroupPrivilege :: bytes where "GroupPrivilege = str ''privilege''"
definition GroupMemfd :: bytes where "GroupMemfd = str ''memfd''"
definition GroupExit :: bytes where "GroupExit = str ''exit''"
definition GroupAccess :: bytes where "GroupAccess = str ''access''"

definition minute :: int where "minute = 60 * 1000000000"
definition accessDedupe :: int where "accessDedupe = 10 * minute"
definition fileBudget :: nat where "fileBudget = 30"
definition fileWindow :: int where "fileWindow = minute"
definition ptraceDedupe :: int where "ptraceDedupe = minute"
definition memfdDedupe :: int where "memfdDedupe = 10 * minute"
definition maxTracked :: nat where "maxTracked = 20000"

text \<open>Configuration, callbacks and \<open>/proc\<close>, with the time of the record.\<close>

record proc_env =
  px_disabled :: "bytes \<Rightarrow> bool"
  px_on_file :: bool
  px_canary :: "(bytes \<Rightarrow> bool) option"
  px_exe :: "u32 \<Rightarrow> bytes"
  px_cwd :: "u32 \<Rightarrow> u32 \<Rightarrow> bytes"
  px_fd :: "u32 \<Rightarrow> int \<Rightarrow> bytes"
  px_now :: int

record file_window =
  fw_start :: int
  fw_sent :: nat
  fw_writes :: nat
  fw_renames :: nat
  fw_deletes :: nat
  fw_sample :: bytes
  fw_image :: bytes
  fw_comm :: bytes
  fw_ppid :: u32
  fw_uid :: u32

record processor =
  pr_images :: "(u32 \<times> bytes) list"
  pr_files :: "(u32 \<times> file_window) list"
  pr_seen :: "(bytes \<times> int) list"
  pr_pushed :: "(bytes \<times> bytes) list"
  pr_on_file :: "file_event list"

definition newProcessor :: processor where
  "newProcessor = \<lparr>pr_images = [], pr_files = [], pr_seen = [], pr_pushed = [], pr_on_file = []\<rparr>"

definition push_line :: "bytes \<Rightarrow> bytes \<Rightarrow> processor \<Rightarrow> processor" where
  "push_line log_type line p = p\<lparr>pr_pushed := pr_pushed p @ [(log_type, line)]\<rparr>"

section \<open>Paths\<close>

definition skipPrefixes :: "bytes list" where
  "skipPrefixes = map str [''/proc/'', ''/sys/'', ''/dev/'', ''/run/'', ''/var/run/'']"

definition skipPath :: "bytes \<Rightarrow> bool" where
  "skipPath p \<longleftrightarrow> \<not> has_prefix p (str ''/dev/shm/'') \<and> list_ex (has_prefix p) skipPrefixes"

text \<open>\<open>filepath.Clean\<close> of a path that need not be rooted: there \<open>..\<close> at the front stays.\<close>

fun clean_relative :: "bytes list \<Rightarrow> bytes list \<Rightarrow> bytes list" where
  "clean_relative acc [] = rev acc"
| "clean_relative acc (w # ws) =
     (if w = [] \<or> w = str ''.'' then clean_relative acc ws
      else if w = str ''..'' \<and> acc \<noteq> [] \<and> hd acc \<noteq> str ''..'' then clean_relative (tl acc) ws
      else clean_relative (w # acc) ws)"

definition filepath_clean :: "bytes \<Rightarrow> bytes" where
  "filepath_clean p =
     (if path_is_abs p then path_clean p
      else let q = join_with [sep_byte] (clean_relative [] (split_on sep_byte p))
           in if q = [] then str ''.'' else q)"

definition path_join :: "bytes \<Rightarrow> bytes \<Rightarrow> bytes" where
  "path_join base path = filepath_clean (base @ [sep_byte] @ path)"

definition resolve :: "proc_env \<Rightarrow> bytes \<Rightarrow> bytes \<Rightarrow> int \<Rightarrow> u32 \<Rightarrow> u32 \<Rightarrow> bytes" where
  "resolve px path dir dfd pid tgid =
     (if path = [] \<or> path_is_abs path then path
      else
        let base = (if dir \<noteq> [] then dir else if dfd = atFDCWD then px_cwd px pid tgid else px_fd px tgid dfd)
        in if base = [] then path else path_join base path)"

fun dec_value :: "u64 \<Rightarrow> bytes \<Rightarrow> u64 option" where
  "dec_value n [] = Some n"
| "dec_value n (c # s) = (if 48 \<le> c \<and> c \<le> 57 then dec_value (n * 10 + ucast (c - 48)) s else None)"

text \<open>The pid of a \<open>/proc/<pid>/mem\<close> path.\<close>

definition procMem :: "bytes \<Rightarrow> u64 option" where
  "procMem path =
     (if \<not> has_prefix path (str ''/proc/'') then None
      else
        let rest = drop 6 path; pid = takeWhile (\<lambda>b. b \<noteq> sep_byte) rest
        in if length pid = length rest \<or> drop (length pid + 1) rest \<noteq> str ''mem'' \<or> pid = [] then None
           else dec_value 0 pid)"

section \<open>Images and repeated reports\<close>

definition store_image :: "u32 \<Rightarrow> bytes \<Rightarrow> processor \<Rightarrow> processor" where
  "store_image tgid path p =
     (let images = (if maxTracked \<le> length (pr_images p) then [] else pr_images p)
      in p\<lparr>pr_images := AList.update tgid path images\<rparr>)"

definition setImage :: "u32 \<Rightarrow> bytes \<Rightarrow> processor \<Rightarrow> processor" where
  "setImage tgid path p =
     (if path = [] then p\<lparr>pr_images := AList.delete tgid (pr_images p)\<rparr> else store_image tgid path p)"

definition get_image :: "proc_env \<Rightarrow> u32 \<Rightarrow> bytes \<Rightarrow> processor \<Rightarrow> bytes \<times> processor" where
  "get_image px tgid comm p =
     (case map_of (pr_images p) tgid of Some img \<Rightarrow> (img, p)
      | None \<Rightarrow>
          if px_exe px tgid = [] then (comm, p)
          else (px_exe px tgid, store_image tgid (px_exe px tgid) p))"

definition dedupe :: "proc_env \<Rightarrow> bytes \<Rightarrow> int \<Rightarrow> processor \<Rightarrow> bool \<times> processor" where
  "dedupe px key d p =
     (if (case map_of (pr_seen p) key of Some t \<Rightarrow> px_now px - t < d | None \<Rightarrow> False) then (True, p)
      else
        let seen = (if maxTracked \<le> length (pr_seen p) then [] else pr_seen p)
        in (False, p\<lparr>pr_seen := AList.update key (px_now px) seen\<rparr>))"

section \<open>Access to other processes\<close>

definition access :: "proc_env \<Rightarrow> raw_event \<Rightarrow> bytes \<Rightarrow> u64 \<Rightarrow> processor \<Rightarrow> processor" where
  "access px ev action target p =
     (if px_disabled px GroupAccess \<or> ucast (r_tgid ev) = target then p
      else
        (case get_image px (r_tgid ev) (r_comm ev) p of (img, p) \<Rightarrow>
           let timg = px_exe px (ucast target);
               key = join_with (str ''|'') [str ''access'', img, timg, action]
           in (case dedupe px key accessDedupe p of
                 (True, p) \<Rightarrow> p
               | (False, p) \<Rightarrow> push_line LogProcessAccess (accessLine ev action target img timg) p)))"

section \<open>File activity\<close>

definition summary_line :: "u32 \<Rightarrow> file_window \<Rightarrow> bytes" where
  "summary_line tgid w =
     str ''action=summary Writes='' @ fmt_d (fw_writes w) @ str '' Renames='' @ fmt_d (fw_renames w) @
     str '' Deletes='' @ fmt_d (fw_deletes w) @ str '' TargetFilename='' @ kv (fw_sample w) @
     str '' Image='' @ kv (fw_image w) @ str '' Comm='' @ kv (fw_comm w) @ str '' PID='' @ dec tgid @
     str '' PPID='' @ dec (fw_ppid w) @ str '' User='' @ dec (fw_uid w)"

definition flushFiles :: "u32 \<Rightarrow> file_window \<Rightarrow> processor \<Rightarrow> processor" where
  "flushFiles tgid w p =
     (let p = p\<lparr>pr_files := AList.delete tgid (pr_files p)\<rparr>
      in if fw_writes w + fw_renames w + fw_deletes w = 0 then p
         else push_line LogFile (summary_line tgid w) p)"

text \<open>The window of a process: the present one, or a new one after flushing an old one.\<close>

definition new_window :: "proc_env \<Rightarrow> u32 \<Rightarrow> file_event \<Rightarrow> processor \<Rightarrow> file_window \<times> processor" where
  "new_window px tgid fe p =
     (let files = (if maxTracked \<le> length (pr_files p) then [] else pr_files p);
          w = \<lparr>fw_start = px_now px, fw_sent = 0, fw_writes = 0, fw_renames = 0, fw_deletes = 0,
               fw_sample = [], fw_image = fe_image fe, fw_comm = fe_comm fe, fw_ppid = fe_ppid fe,
               fw_uid = fe_uid fe\<rparr>
      in (w, p\<lparr>pr_files := AList.update tgid w files\<rparr>))"

definition open_window :: "proc_env \<Rightarrow> u32 \<Rightarrow> file_event \<Rightarrow> processor \<Rightarrow> file_window \<times> processor" where
  "open_window px tgid fe p =
     (case map_of (pr_files p) tgid of
        Some w \<Rightarrow>
          if px_now px - fw_start w < fileWindow then (w, p)
          else new_window px tgid fe (flushFiles tgid w p)
      | None \<Rightarrow> new_window px tgid fe p)"

definition count_over :: "file_event \<Rightarrow> file_window \<Rightarrow> file_window" where
  "count_over fe w =
     (let w = (if fe_action fe = str ''create'' \<or> fe_action fe = str ''write'' then w\<lparr>fw_writes := fw_writes w + 1\<rparr>
               else if fe_action fe = str ''rename'' then w\<lparr>fw_renames := fw_renames w + 1\<rparr>
               else if fe_action fe = str ''delete'' then w\<lparr>fw_deletes := fw_deletes w + 1\<rparr>
               else w)
      in if fw_sample w = [] then w\<lparr>fw_sample := fe_path fe\<rparr> else w)"

text \<open>The part of \<open>handleFile\<close> after the event is known to be reported.\<close>

definition report_file :: "proc_env \<Rightarrow> raw_event \<Rightarrow> file_event \<Rightarrow> processor \<Rightarrow> processor" where
  "report_file px ev fe p =
     (case get_image px (r_tgid ev) (r_comm ev) p of (img, p) \<Rightarrow>
        let fe = fe\<lparr>fe_image := img\<rparr>;
            p = (if px_on_file px then p\<lparr>pr_on_file := pr_on_file p @ [fe]\<rparr> else p)
        in (case open_window px (r_tgid ev) fe p of (w, p) \<Rightarrow>
              (case dedupe px (join_with (str ''|'') [str ''file'', dec (r_tgid ev), fe_action fe, fe_path fe]) fileWindow p of
                 (True, p) \<Rightarrow> p
               | (False, p) \<Rightarrow>
                   if fw_sent w < fileBudget
                   then push_line LogFile (file_line fe)
                          (p\<lparr>pr_files := AList.update (r_tgid ev) (w\<lparr>fw_sent := fw_sent w + 1\<rparr>) (pr_files p)\<rparr>)
                   else p\<lparr>pr_files := AList.update (r_tgid ev) (count_over fe w) (pr_files p)\<rparr>)))"

definition read_opened :: "proc_env \<Rightarrow> raw_event \<Rightarrow> file_event \<Rightarrow> processor \<Rightarrow> processor" where
  "read_opened px ev fe p =
     (if px_disabled px GroupAccess then p
      else
        (case get_image px (r_tgid ev) (r_comm ev) p of (img, p) \<Rightarrow>
           let fe = fe\<lparr>fe_action := str ''read'', fe_image := img\<rparr>
           in (case dedupe px (join_with (str ''|'') [str ''read'', img, fe_path fe]) accessDedupe p of
                 (True, p) \<Rightarrow> p
               | (False, p) \<Rightarrow> push_line LogFile (file_line fe) p)))"

definition is_canary :: "proc_env \<Rightarrow> file_event \<Rightarrow> bool" where
  "is_canary px fe =
     (case px_canary px of None \<Rightarrow> False
      | Some f \<Rightarrow> f (fe_path fe) \<or> fe_from fe \<noteq> [] \<and> f (fe_from fe))"

definition handleFile :: "proc_env \<Rightarrow> raw_event \<Rightarrow> processor \<Rightarrow> processor" where
  "handleFile px ev p =
     (let path = resolve px (r_path ev) (r_dir ev) (r_dfd ev) (r_pid ev) (r_tgid ev);
          fe = \<lparr>fe_time = px_now px, fe_action = [], fe_path = path, fe_from = [], fe_pid = r_tgid ev,
                fe_ppid = r_ppid ev, fe_uid = r_uid ev, fe_image = [], fe_comm = r_comm ev, fe_dir = False\<rparr>;
          write = r_arg0 ev AND (oWronly OR oRdwr OR oCreat OR oTrunc) \<noteq> 0
      in if r_kind ev = kindOpen \<and> procMem path \<noteq> None
         then access px ev (if write then str ''mem_write'' else str ''mem_read'') (the (procMem path)) p
         else if r_kind ev = kindOpen \<and> \<not> write then read_opened px ev fe p
         else
           let fe = (if r_kind ev = kindOpen
                     then fe\<lparr>fe_action := (if r_arg0 ev AND oCreat \<noteq> 0 then str ''create'' else str ''write'')\<rparr>
                     else if r_kind ev = kindRename
                     then fe\<lparr>fe_action := str ''rename'', fe_from := path,
                             fe_path := resolve px (r_path2 ev) (r_dir2 ev) (r_dfd2 ev) (r_pid ev) (r_tgid ev)\<rparr>
                     else fe\<lparr>fe_action := str ''delete'', fe_dir := (r_arg0 ev AND atRemovDir \<noteq> 0)\<rparr>)
           in if is_canary px fe then p
              else if skipPath (fe_path fe) \<and> (fe_from fe = [] \<or> skipPath (fe_from fe)) then p
              else report_file px ev fe p)"

section \<open>Dispatch\<close>

definition handle_module :: "proc_env \<Rightarrow> raw_event \<Rightarrow> processor \<Rightarrow> processor" where
  "handle_module px ev p =
     (case get_image px (r_tgid ev) (r_comm ev) p of (img, p) \<Rightarrow> push_line LogModule (moduleLine ev img) p)"

definition handle_ptrace :: "proc_env \<Rightarrow> raw_event \<Rightarrow> processor \<Rightarrow> processor" where
  "handle_ptrace px ev p =
     (if px_disabled px GroupPtrace then p
      else
        (case dedupe px (join_with (str ''|'') [str ''ptrace'', dec (r_tgid ev), dec (r_arg1 ev), dec (r_arg0 ev)]) ptraceDedupe p of
           (True, p) \<Rightarrow> p
         | (False, p) \<Rightarrow>
             (case get_image px (r_tgid ev) (r_comm ev) p of (img, p) \<Rightarrow>
                push_line LogPtrace (ptraceLine ev img (px_exe px (ucast (r_arg1 ev)))) p)))"

definition handle_privilege :: "proc_env \<Rightarrow> raw_event \<Rightarrow> processor \<Rightarrow> processor" where
  "handle_privilege px ev p =
     (case get_image px (r_tgid ev) (r_comm ev) p of (img, p) \<Rightarrow>
        (case get_image px (r_ppid ev) [] p of (pimg, p) \<Rightarrow>
           push_line LogPrivilege (privilegeLine ev img pimg) p))"

definition handle_memfd :: "proc_env \<Rightarrow> raw_event \<Rightarrow> processor \<Rightarrow> processor" where
  "handle_memfd px ev p =
     (case get_image px (r_tgid ev) (r_comm ev) p of (img, p) \<Rightarrow>
        if px_disabled px GroupMemfd then p
        else
          (case dedupe px (join_with (str ''|'') [str ''memfd'', img, r_path ev]) memfdDedupe p of
             (True, p) \<Rightarrow> p
           | (False, p) \<Rightarrow> push_line LogMemfd (memfdLine ev img) p))"

definition handle_fileless :: "proc_env \<Rightarrow> raw_event \<Rightarrow> processor \<Rightarrow> processor" where
  "handle_fileless px ev p =
     (case get_image px (r_ppid ev) [] (setImage (r_tgid ev) (r_path ev) p) of (pimg, p) \<Rightarrow>
        push_line LogFileless (filelessLine ev pimg) p)"

definition handle_exit :: "proc_env \<Rightarrow> raw_event \<Rightarrow> processor \<Rightarrow> processor" where
  "handle_exit px ev p =
     (let p = (if px_disabled px GroupExit then p
               else (case get_image px (r_tgid ev) (r_comm ev) p of (img, p) \<Rightarrow> push_line LogExit (exitLine ev img) p));
          p = p\<lparr>pr_images := AList.delete (r_tgid ev) (pr_images p)\<rparr>
      in (case map_of (pr_files p) (r_tgid ev) of None \<Rightarrow> p | Some w \<Rightarrow> flushFiles (r_tgid ev) w p))"

definition handle :: "proc_env \<Rightarrow> raw_event \<Rightarrow> processor \<Rightarrow> processor" where
  "handle px ev p =
     (if r_kind ev \<in> {kindOpen, kindRename, kindUnlink}
      then (if px_disabled px GroupFile then p else handleFile px ev p)
      else if r_kind ev \<in> {kindModuleInit, kindModuleFinit, kindModuleDelete}
      then (if px_disabled px GroupModule then p else handle_module px ev p)
      else if r_kind ev = kindPtrace then handle_ptrace px ev p
      else if r_kind ev \<in> {kindSetID, kindCapset}
      then (if px_disabled px GroupPrivilege then p else handle_privilege px ev p)
      else if r_kind ev = kindMemfd then handle_memfd px ev p
      else if r_kind ev = kindVMAccess
      then access px ev (if r_arg1 ev = 1 then str ''vm_write'' else str ''vm_read'') (r_arg0 ev) p
      else if r_kind ev = kindExec then setImage (r_tgid ev) (r_path ev) p
      else if r_kind ev = kindFilelessExec then handle_fileless px ev p
      else if r_kind ev = kindExit then handle_exit px ev p
      else p)"

definition tick :: "proc_env \<Rightarrow> processor \<Rightarrow> processor" where
  "tick px p =
     (let p = fold (\<lambda>(tgid, w) p. if fileWindow \<le> px_now px - fw_start w then flushFiles tgid w p else p) (pr_files p) p
      in p\<lparr>pr_seen := filter (\<lambda>(k, t). px_now px - t < memfdDedupe) (pr_seen p)\<rparr>)"

section \<open>The invariant\<close>

lemma update_mem: "x \<in> set (AList.update k v al) \<Longrightarrow> x = (k, v) \<or> x \<in> set al"
  by (induction al) (auto split: if_splits)

lemma length_update: "length (AList.update k v al) \<le> Suc (length al)"
  by (induction al) auto

text \<open>A Go map as an association list: distinct keys, and no more entries than are tracked.\<close>

definition map_ok :: "('k \<times> 'v) list \<Rightarrow> bool" where
  "map_ok al \<longleftrightarrow> distinct (map fst al) \<and> length al \<le> maxTracked"

lemma map_ok_Nil [simp]: "map_ok []"
  by (simp add: map_ok_def)

lemma map_ok_delete: "map_ok al \<Longrightarrow> map_ok (AList.delete k al)"
  using length_delete_le [of k al] by (simp add: map_ok_def distinct_delete)

lemma map_ok_insert:
  "map_ok al \<Longrightarrow> map_ok (AList.update k v (if maxTracked \<le> length al then [] else al))"
  using length_update [of k v al] by (auto simp: map_ok_def distinct_update maxTracked_def)

lemma map_ok_store: "map_ok al \<Longrightarrow> map_of al k \<noteq> None \<Longrightarrow> map_ok (AList.update k v al)"
proof -
  assume "map_ok al" and "map_of al k \<noteq> None"
  moreover from this have "k \<in> set (map fst al)" by (simp add: map_of_eq_None_iff)
  then have "map fst (AList.update k v al) = map fst al" by (simp only: AList.update_keys if_True)
  then have "length (AList.update k v al) = length al" by (metis length_map)
  ultimately show ?thesis by (simp add: map_ok_def distinct_update)
qed

lemma map_ok_filter: "map_ok al \<Longrightarrow> map_ok (filter P al)"
  by (simp add: map_ok_def distinct_map_filter le_trans [OF length_filter_le])

definition log_types :: "bytes list" where
  "log_types = [LogFile, LogModule, LogPtrace, LogPrivilege, LogMemfd, LogFileless, LogExit, LogProcessAccess]"

definition line_ok :: "bytes \<times> bytes \<Rightarrow> bool" where
  "line_ok l \<longleftrightarrow> fst l \<in> set log_types \<and> 10 \<notin> set (snd l)"

definition windows_ok :: "(u32 \<times> file_window) list \<Rightarrow> bool" where
  "windows_ok fs \<longleftrightarrow> map_ok fs \<and> list_all (\<lambda>(t, w). fw_sent w \<le> fileBudget) fs"

definition processor_ok :: "processor \<Rightarrow> bool" where
  "processor_ok p \<longleftrightarrow> map_ok (pr_images p) \<and> map_ok (pr_seen p) \<and> windows_ok (pr_files p) \<and>
     list_all line_ok (pr_pushed p)"

lemma new_ok: "processor_ok newProcessor"
  by (simp add: processor_ok_def newProcessor_def windows_ok_def)

lemma push_ok: "processor_ok p \<Longrightarrow> lt \<in> set log_types \<Longrightarrow> 10 \<notin> set l \<Longrightarrow> processor_ok (push_line lt l p)"
  by (simp add: processor_ok_def push_line_def line_ok_def)

lemma types [simp]: "LogFile \<in> set log_types" "LogModule \<in> set log_types" "LogPtrace \<in> set log_types"
  "LogPrivilege \<in> set log_types" "LogMemfd \<in> set log_types" "LogFileless \<in> set log_types"
  "LogExit \<in> set log_types" "LogProcessAccess \<in> set log_types"
  by (simp_all add: log_types_def)

lemma store_image_ok: "processor_ok p \<Longrightarrow> processor_ok (store_image t s p)"
  by (simp add: processor_ok_def store_image_def map_ok_insert)

lemma setImage_ok: "processor_ok p \<Longrightarrow> processor_ok (setImage t s p)"
  by (simp add: setImage_def store_image_ok) (simp add: processor_ok_def map_ok_delete)

lemma get_image_ok: "processor_ok p \<Longrightarrow> get_image px t c p = (img, p') \<Longrightarrow> processor_ok p'"
  by (auto simp: get_image_def store_image_ok split: option.splits if_splits)

lemma get_image_files: "get_image px t c p = (img, p') \<Longrightarrow> pr_files p' = pr_files p"
  by (auto simp: get_image_def store_image_def Let_def split: option.splits if_splits)

lemma dedupe_ok: "processor_ok p \<Longrightarrow> dedupe px k d p = (b, p') \<Longrightarrow> processor_ok p'"
  using map_ok_insert [of "pr_seen p" k "px_now px"]
  by (auto simp: dedupe_def processor_ok_def Let_def split: if_splits)

lemma dedupe_files: "dedupe px k d p = (b, p') \<Longrightarrow> pr_files p' = pr_files p"
  by (auto simp: dedupe_def Let_def split: if_splits)

lemma windows_delete: "windows_ok fs \<Longrightarrow> windows_ok (AList.delete t fs)"
  using map_ok_delete [of fs t] by (auto simp: windows_ok_def list_all_iff AList.delete_eq)

lemma windows_insert:
  "windows_ok fs \<Longrightarrow> fw_sent w \<le> fileBudget \<Longrightarrow>
     windows_ok (AList.update t w (if maxTracked \<le> length fs then [] else fs))"
  using map_ok_insert [of fs t w]
  by (auto simp: windows_ok_def list_all_iff dest: update_mem split: if_splits)

lemma windows_store:
  "windows_ok fs \<Longrightarrow> map_of fs t \<noteq> None \<Longrightarrow> fw_sent w \<le> fileBudget \<Longrightarrow> windows_ok (AList.update t w fs)"
  using map_ok_store [of fs t w]
  by (auto simp: windows_ok_def list_all_iff dest: update_mem)

lemma summary_no_newline: "10 \<notin> set (summary_line t w)"
  by (simp add: summary_line_def str_no_newline chr_def)

lemma flush_ok: "processor_ok p \<Longrightarrow> processor_ok (flushFiles t w p)"
  by (auto simp: flushFiles_def Let_def summary_no_newline intro!: push_ok)
    (simp_all add: processor_ok_def windows_delete)


lemma new_window_ok:
  assumes "processor_ok p" and "new_window px t fe p = (w, p')"
  shows "processor_ok p' \<and> map_of (pr_files p') t = Some w \<and> fw_sent w \<le> fileBudget"
proof -
  have "fw_sent w = 0" and "p' = p\<lparr>pr_files := AList.update t w (if maxTracked \<le> length (pr_files p) then [] else pr_files p)\<rparr>"
    using assms(2) by (auto simp: new_window_def Let_def)
  then show ?thesis
    using assms(1) windows_insert [of "pr_files p" w t] by (simp add: processor_ok_def update_conv')
qed

lemma open_window_ok:
  assumes "processor_ok p" and "open_window px t fe p = (w, p')"
  shows "processor_ok p' \<and> map_of (pr_files p') t = Some w \<and> fw_sent w \<le> fileBudget"
proof -
  have "fw_sent v \<le> fileBudget" if "map_of (pr_files p) t = Some v" for v
    using assms(1) map_of_SomeD [OF that] by (auto simp: processor_ok_def windows_ok_def list_all_iff)
  then show ?thesis
    using assms new_window_ok [OF assms(1)] new_window_ok [OF flush_ok [OF assms(1)]]
    by (auto simp: open_window_def split: option.splits if_splits)
qed

lemma action_no_newline: "a \<in> set file_actions \<Longrightarrow> 10 \<notin> set a"
  by (auto simp: file_actions_def str_no_newline chr_def)

lemma count_over_sent [simp]: "fw_sent (count_over fe w) = fw_sent w"
  by (simp add: count_over_def Let_def)

lemma report_file_ok:
  assumes "processor_ok p" and "fe_action fe \<in> set file_actions"
  shows "processor_ok (report_file px ev fe p)"
proof -
  obtain img p1 where 1: "get_image px (r_tgid ev) (r_comm ev) p = (img, p1)" by fastforce
  define p2 where "p2 = (if px_on_file px then p1\<lparr>pr_on_file := pr_on_file p1 @ [fe\<lparr>fe_image := img\<rparr>]\<rparr> else p1)"
  obtain w p3 where 3: "open_window px (r_tgid ev) (fe\<lparr>fe_image := img\<rparr>) p2 = (w, p3)" by fastforce
  let ?key = "join_with (str ''|'') [str ''file'', dec (r_tgid ev), fe_action (fe\<lparr>fe_image := img\<rparr>), fe_path (fe\<lparr>fe_image := img\<rparr>)]"
  obtain b p4 where 4: "dedupe px ?key fileWindow p3 = (b, p4)" by fastforce
  have ok2: "processor_ok p2"
    using get_image_ok [OF assms(1) 1] by (simp add: p2_def processor_ok_def)
  note w = open_window_ok [OF ok2 3, THEN conjunct1] open_window_ok [OF ok2 3, THEN conjunct2, THEN conjunct1] open_window_ok [OF ok2 3, THEN conjunct2, THEN conjunct2]
  have ok4: "processor_ok p4" using dedupe_ok [OF w(1) 4] .
  have f4: "map_of (pr_files p4) (r_tgid ev) \<noteq> None" using dedupe_files [OF 4] w(2) by simp
  have store: "processor_ok (p4\<lparr>pr_files := AList.update (r_tgid ev) v (pr_files p4)\<rparr>)"
    if "fw_sent v \<le> fileBudget" for v
    using ok4 windows_store [OF _ f4 that] by (simp add: processor_ok_def)
  have line: "10 \<notin> set (file_line (fe\<lparr>fe_image := img\<rparr>))"
    using lines_no_newline(8) [of "fe\<lparr>fe_image := img\<rparr>"] action_no_newline [OF assms(2)] by simp
  show ?thesis
    using ok4 store line w(3)
    unfolding report_file_def 1 Let_def prod.case p2_def [symmetric] 3 4
    by (cases b) (auto intro!: push_ok)
qed

lemma access_ok:
  assumes "processor_ok p" and "10 \<notin> set action"
  shows "processor_ok (access px ev action target p)"
  using assms(1) lines_no_newline(7) [OF assms(2)]
  by (auto simp: access_def Let_def dest: get_image_ok dedupe_ok intro!: push_ok split: prod.split bool.split)

lemma read_opened_ok: "processor_ok p \<Longrightarrow> processor_ok (read_opened px ev fe p)"
proof -
  have "str ''read'' \<in> set file_actions" by (simp add: file_actions_def)
  then have "10 \<notin> set (file_line (fe\<lparr>fe_action := str ''read'', fe_image := img\<rparr>))" for img
    using lines_no_newline(8) [of "fe\<lparr>fe_action := str ''read'', fe_image := img\<rparr>"] action_no_newline by simp
  then show "processor_ok p \<Longrightarrow> processor_ok (read_opened px ev fe p)"
    by (auto simp: read_opened_def Let_def dest: get_image_ok dedupe_ok intro!: push_ok split: prod.split bool.split)
qed

lemma file_words: "str ''create'' \<in> set file_actions" "str ''write'' \<in> set file_actions"
  "str ''rename'' \<in> set file_actions" "str ''delete'' \<in> set file_actions"
  by (simp_all add: file_actions_def)

lemma access_words: "10 \<notin> set (str ''mem_write'')" "10 \<notin> set (str ''mem_read'')"
  "10 \<notin> set (str ''vm_write'')" "10 \<notin> set (str ''vm_read'')"
  by (simp_all add: str_no_newline chr_def)

lemma handleFile_ok: "processor_ok p \<Longrightarrow> processor_ok (handleFile px ev p)"
  unfolding handleFile_def Let_def
  by (auto simp: file_words access_words intro!: access_ok read_opened_ok report_file_ok)

lemma handle_rest_ok:
  assumes "processor_ok p"
  shows "processor_ok (handle_module px ev p)" "processor_ok (handle_ptrace px ev p)"
    "processor_ok (handle_privilege px ev p)" "processor_ok (handle_memfd px ev p)"
    "processor_ok (handle_fileless px ev p)"
  using assms get_image_ok [OF setImage_ok [OF assms]]
  by (auto simp: handle_module_def handle_ptrace_def handle_privilege_def handle_memfd_def handle_fileless_def
      lines_no_newline dest: get_image_ok dedupe_ok intro!: push_ok split: prod.split bool.split)

lemma forget_image_ok: "processor_ok p \<Longrightarrow> processor_ok (p\<lparr>pr_images := AList.delete t (pr_images p)\<rparr>)"
  by (simp add: processor_ok_def map_ok_delete)

lemma option_case_ok:
  "processor_ok a \<Longrightarrow> (\<And>x. y = Some x \<Longrightarrow> processor_ok (f x)) \<Longrightarrow> processor_ok (case y of None \<Rightarrow> a | Some x \<Rightarrow> f x)"
  by (cases y) auto

lemma handle_exit_ok:
  assumes "processor_ok p"
  shows "processor_ok (handle_exit px ev p)"
proof -
  obtain img p1 where 1: "get_image px (r_tgid ev) (r_comm ev) p = (img, p1)" by fastforce
  have "processor_ok (if px_disabled px GroupExit then p else push_line LogExit (exitLine ev img) p1)"
    using assms get_image_ok [OF assms 1] by (simp add: push_ok lines_no_newline)
  then show ?thesis
    unfolding handle_exit_def 1 prod.case Let_def
    by (intro option_case_ok flush_ok forget_image_ok)
qed

lemma if_ok: "processor_ok a \<Longrightarrow> processor_ok b \<Longrightarrow> processor_ok (if c then a else b)"
  by simp

lemma handle_ok: "processor_ok p \<Longrightarrow> processor_ok (handle px ev p)"
  unfolding handle_def
  by (intro if_ok handleFile_ok handle_rest_ok access_ok setImage_ok handle_exit_ok) (simp_all add: access_words)

lemma tick_ok:
  assumes "processor_ok p"
  shows "processor_ok (tick px p)"
proof -
  have "processor_ok (fold (\<lambda>(tgid, w) p. if fileWindow \<le> px_now px - fw_start w then flushFiles tgid w p else p) fs q)"
    if "processor_ok q" for fs q
    using that by (induction fs arbitrary: q) (auto simp: flush_ok)
  then show ?thesis
    using assms unfolding tick_def Let_def
    by (auto simp: processor_ok_def map_ok_filter)
qed

section \<open>Runs\<close>

text \<open>What the agent's loop does: a record or a tick, with the environment of that moment.\<close>

datatype agent_step = Record proc_env raw_event | Ticked proc_env

fun agent_run_step :: "agent_step \<Rightarrow> processor \<Rightarrow> processor" where
  "agent_run_step (Record px ev) p = handle px ev p"
| "agent_run_step (Ticked px) p = tick px p"

lemma step_ok: "processor_ok p \<Longrightarrow> processor_ok (agent_run_step s p)"
  by (cases s) (simp_all add: handle_ok tick_ok)

lemma run_ok: "processor_ok p \<Longrightarrow> processor_ok (fold agent_run_step steps p)"
  by (induction steps arbitrary: p) (auto simp: step_ok)

lemma get_image_pushed: "get_image px t c p = (img, p') \<Longrightarrow> pr_pushed p' = pr_pushed p"
  by (auto simp: get_image_def store_image_def Let_def split: option.splits if_splits)

lemma dedupe_pushed: "dedupe px k d p = (b, p') \<Longrightarrow> pr_pushed p' = pr_pushed p"
  by (auto simp: dedupe_def Let_def split: if_splits)

lemma setImage_pushed [simp]: "pr_pushed (setImage t path p) = pr_pushed p"
  by (simp add: setImage_def store_image_def Let_def)

section \<open>The budget of a window\<close>

text \<open>A pushed line that shows one change of a file; summaries and reads are lines of the same log type.\<close>

definition change_line :: "bytes \<times> bytes \<Rightarrow> bool" where
  "change_line = (\<lambda>(t, l). t = LogFile \<and>
     list_ex (\<lambda>a. has_prefix l (str ''action='' @ str a @ str '' '')) [''create'', ''write'', ''rename'', ''delete''])"

fun step_process :: "agent_step \<Rightarrow> u32 option" where
  "step_process (Record px ev) = Some (r_tgid ev)"
| "step_process (Ticked px) = None"

definition new_lines :: "agent_step \<Rightarrow> processor \<Rightarrow> (bytes \<times> bytes) list" where
  "new_lines s p = drop (length (pr_pushed p)) (pr_pushed (agent_run_step s p))"

text \<open>How many changes of files the records of process \<open>t\<close> get shipped over some steps.\<close>

fun shipped :: "u32 \<Rightarrow> agent_step list \<Rightarrow> processor \<Rightarrow> nat" where
  "shipped t [] p = 0"
| "shipped t (s # ss) p =
     (if step_process s = Some t then length (filter change_line (new_lines s p)) else 0) +
     shipped t ss (agent_run_step s p)"

text \<open>After every step the process has the window that began at \<open>since\<close>.\<close>

fun in_window :: "u32 \<Rightarrow> int \<Rightarrow> agent_step list \<Rightarrow> processor \<Rightarrow> bool" where
  "in_window t since [] p \<longleftrightarrow> True"
| "in_window t since (s # ss) p \<longleftrightarrow>
     map_option fw_start (map_of (pr_files (agent_run_step s p)) t) = Some since \<and>
     in_window t since ss (agent_run_step s p)"

definition spent :: "u32 \<Rightarrow> int \<Rightarrow> processor \<Rightarrow> nat" where
  "spent t since p =
     (case map_of (pr_files p) t of None \<Rightarrow> 0 | Some w \<Rightarrow> if fw_start w = since then fw_sent w else 0)"

lemma spent_budget: "processor_ok p \<Longrightarrow> spent t since p \<le> fileBudget"
  by (auto simp: spent_def processor_ok_def windows_ok_def list_all_iff split: option.split dest!: map_of_SomeD)

text \<open>What every operation but \<open>report_file\<close> does: it ships no change, and opens no window.\<close>

definition no_change :: "u32 \<Rightarrow> processor \<Rightarrow> processor \<Rightarrow> bool" where
  "no_change t p p' \<longleftrightarrow>
     (\<exists>ls. pr_pushed p' = pr_pushed p @ ls \<and> filter change_line ls = []) \<and>
     (map_of (pr_files p') t = None \<or> map_of (pr_files p') t = map_of (pr_files p) t)"

lemma no_change_refl: "no_change t p p"
  by (simp add: no_change_def)

lemma no_change_trans: "no_change t p q \<Longrightarrow> no_change t q r \<Longrightarrow> no_change t p r"
  unfolding no_change_def by (metis append_assoc filter_append append_Nil)

lemma no_change_same: "pr_pushed p' = pr_pushed p \<Longrightarrow> pr_files p' = pr_files p \<Longrightarrow> no_change t p p'"
  by (simp add: no_change_def)

lemma no_change_push: "\<not> change_line (ty, l) \<Longrightarrow> no_change t p q \<Longrightarrow> no_change t p (push_line ty l q)"
  by (auto simp: no_change_def push_line_def)

lemma other_types:
  "\<not> change_line (LogModule, l)" "\<not> change_line (LogPtrace, l)" "\<not> change_line (LogPrivilege, l)"
  "\<not> change_line (LogMemfd, l)" "\<not> change_line (LogFileless, l)" "\<not> change_line (LogExit, l)"
  "\<not> change_line (LogProcessAccess, l)"
  by (simp_all add: change_line_def LogFile_def LogModule_def LogPtrace_def LogPrivilege_def LogMemfd_def
      LogFileless_def LogExit_def LogProcessAccess_def str_def chr_def)

lemma not_changes:
  "\<not> change_line (LogFile, summary_line u w)"
  "fe_action fe = str ''read'' \<Longrightarrow> \<not> change_line (LogFile, file_line fe)"
  by (simp_all add: change_line_def summary_line_def file_line_def str_def chr_def)

lemma shown_changes:
  "fe_action fe \<in> set (map str [''create'', ''write'', ''rename'', ''delete'']) \<Longrightarrow> change_line (LogFile, file_line fe)"
  by (auto simp: change_line_def file_line_def str_def chr_def)

lemma get_image_no_change: "get_image px u c p = (img, p') \<Longrightarrow> no_change t p p'"
  using get_image_files get_image_pushed by (intro no_change_same) auto

lemma dedupe_no_change: "dedupe px k d p = (b, p') \<Longrightarrow> no_change t p p'"
  using dedupe_files dedupe_pushed by (intro no_change_same) auto

lemma flush_no_change: "no_change t p (flushFiles u w p)"
  by (auto simp: flushFiles_def Let_def no_change_def delete_conv' push_line_def not_changes)

lemma access_no_change: "no_change t p (access px ev a target p)"
  by (auto simp: access_def Let_def no_change_refl other_types split: prod.split bool.split
      intro!: no_change_push dest!: get_image_no_change [where t = t] dedupe_no_change [where t = t]
      intro: no_change_trans)

lemma read_no_change: "no_change t p (read_opened px ev fe p)"
  by (auto simp: read_opened_def Let_def no_change_refl not_changes split: prod.split bool.split
      intro!: no_change_push dest!: get_image_no_change [where t = t] dedupe_no_change [where t = t]
      intro: no_change_trans)

lemma rest_no_change:
  "no_change t p (handle_module px ev p)" "no_change t p (handle_ptrace px ev p)"
  "no_change t p (handle_privilege px ev p)" "no_change t p (handle_memfd px ev p)"
  by (auto simp: handle_module_def handle_ptrace_def handle_privilege_def handle_memfd_def no_change_refl
      other_types split: prod.split bool.split intro!: no_change_push
      dest!: get_image_no_change [where t = t] dedupe_no_change [where t = t] intro: no_change_trans)

lemma setImage_no_change: "no_change t p (setImage u path p)"
  by (rule no_change_same) (simp_all add: setImage_def store_image_def Let_def)

lemma fileless_no_change: "no_change t p (handle_fileless px ev p)"
  using setImage_no_change [of t p "r_tgid ev" "r_path ev"]
  by (auto simp: handle_fileless_def other_types split: prod.split intro!: no_change_push
      dest!: get_image_no_change [where t = t] intro: no_change_trans)

lemma flush_case_no_change:
  "no_change t p (case map_of (pr_files p) u of None \<Rightarrow> p | Some w \<Rightarrow> flushFiles u w p)"
  by (simp add: no_change_refl flush_no_change split: option.split)

lemma exit_no_change: "no_change t p (handle_exit px ev p)"
proof -
  obtain img p1 where 1: "get_image px (r_tgid ev) (r_comm ev) p = (img, p1)" by fastforce
  let ?p2 = "if px_disabled px GroupExit then p else push_line LogExit (exitLine ev img) p1"
  let ?p3 = "?p2\<lparr>pr_images := AList.delete (r_tgid ev) (pr_images ?p2)\<rparr>"
  have "no_change t p ?p2"
    using get_image_no_change [OF 1, of t] by (simp add: no_change_refl no_change_push other_types)
  moreover have "no_change t ?p2 ?p3" by (rule no_change_same) simp_all
  ultimately have "no_change t p ?p3" by (rule no_change_trans)
  then show ?thesis
    unfolding handle_exit_def 1 prod.case Let_def by (rule no_change_trans [OF _ flush_case_no_change])
qed

lemma tick_no_change: "no_change t p (tick px p)"
proof -
  have f: "no_change t q (fold (\<lambda>(u, w) p. if fileWindow \<le> px_now px - fw_start w then flushFiles u w p else p) fs q)"
    for fs q
  proof (induction fs arbitrary: q)
    case (Cons x fs)
    obtain u w where x: "x = (u, w)" by fastforce
    show ?case
      using Cons.IH [of q] no_change_trans [OF flush_no_change [of t q u w] Cons.IH] by (simp add: x)
  qed (simp add: no_change_refl)
  show ?thesis
    unfolding tick_def Let_def by (rule no_change_trans [OF f no_change_same]) simp_all
qed

text \<open>The window \<open>report_file\<close> works with is the process's own or a new, empty one that begins later.\<close>

lemma open_window_result:
  assumes "open_window px u fe p = (w, p')"
  shows "map_of (pr_files p') u = Some w"
    and "map_of (pr_files p) u = Some w \<or> fw_sent w = 0 \<and> (\<forall>v. map_of (pr_files p) u = Some v \<longrightarrow> fw_start v \<noteq> fw_start w)"
    and "\<exists>ls. pr_pushed p' = pr_pushed p @ ls \<and> filter change_line ls = []"
    and "t \<noteq> u \<Longrightarrow> map_of (pr_files p') t = None \<or> map_of (pr_files p') t = map_of (pr_files p) t"
proof -
  have new: "map_of (pr_files q') u = Some w" "fw_sent w = 0" "fw_start w = px_now px" "pr_pushed q' = pr_pushed q"
    "t \<noteq> u \<Longrightarrow> map_of (pr_files q') t = None \<or> map_of (pr_files q') t = map_of (pr_files q) t"
    if "new_window px u fe q = (w, q')" for q q'
    using that by (auto simp: new_window_def Let_def update_conv')
  have "0 < fileWindow" by (simp add: fileWindow_def minute_def)
  note cases = assms [unfolded open_window_def] new flush_no_change [of t p u, unfolded no_change_def] this
  show "map_of (pr_files p') u = Some w"
    using cases(1,2) by (auto split: option.splits if_splits)
  show "map_of (pr_files p) u = Some w \<or> fw_sent w = 0 \<and> (\<forall>v. map_of (pr_files p) u = Some v \<longrightarrow> fw_start v \<noteq> fw_start w)"
    using cases(1,3,4,8) by (force split: option.splits if_splits)
  show "\<exists>ls. pr_pushed p' = pr_pushed p @ ls \<and> filter change_line ls = []"
    using cases(1,5,7) by (auto split: option.splits if_splits)
  show "map_of (pr_files p') t = None \<or> map_of (pr_files p') t = map_of (pr_files p) t" if "t \<noteq> u"
    using cases(1,7) new(5) that by (auto split: option.splits if_splits) metis+
qed

text \<open>
  What one step does for process \<open>t\<close>: when the step is \<open>t\<close>'s own (\<open>own\<close>) and the
  window it leaves began at \<open>since\<close>, the changes it ships are paid from the budget.
\<close>

definition paid :: "u32 \<Rightarrow> bool \<Rightarrow> processor \<Rightarrow> processor \<Rightarrow> bool" where
  "paid t own p p' \<longleftrightarrow>
     (\<exists>ls. pr_pushed p' = pr_pushed p @ ls \<and>
       (\<forall>since. map_option fw_start (map_of (pr_files p') t) = Some since \<longrightarrow>
         (if own then length (filter change_line ls) else 0) + spent t since p \<le> spent t since p'))"

lemma no_change_paid: "no_change t p p' \<Longrightarrow> paid t own p p'"
  unfolding no_change_def paid_def spent_def by fastforce

lemma report_file_paid:
  fixes t :: u32
  shows "paid t (r_tgid ev = t) p (report_file px ev fe p)"
proof -
  let ?u = "r_tgid ev"
  obtain img p1 where 1: "get_image px ?u (r_comm ev) p = (img, p1)" by fastforce
  define fe' where "fe' = fe\<lparr>fe_image := img\<rparr>"
  define p2 where "p2 = (if px_on_file px then p1\<lparr>pr_on_file := pr_on_file p1 @ [fe']\<rparr> else p1)"
  obtain w p3 where 3: "open_window px ?u fe' p2 = (w, p3)" by fastforce
  let ?key = "join_with (str ''|'') [str ''file'', dec ?u, fe_action fe', fe_path fe']"
  obtain b p4 where 4: "dedupe px ?key fileWindow p3 = (b, p4)" by fastforce
  note same = get_image_files [OF 1] get_image_pushed [OF 1] dedupe_files [OF 4] dedupe_pushed [OF 4]
  have p2: "pr_files p2 = pr_files p" "pr_pushed p2 = pr_pushed p" using same by (simp_all add: p2_def)
  obtain ls where ls: "pr_pushed p4 = pr_pushed p @ ls" "filter change_line ls = []"
    using open_window_result(3) [OF 3] same p2 by auto
  have w: "map_of (pr_files p4) ?u = Some w" using open_window_result(1) [OF 3] same by simp
  have was: "spent ?u (fw_start w) p \<le> fw_sent w"
    using open_window_result(2) [OF 3] p2 by (auto simp: spent_def split: option.split)
  have other: "map_of (pr_files p4) t = None \<or> map_of (pr_files p4) t = map_of (pr_files p) t" if "t \<noteq> ?u"
    using open_window_result(4) [OF 3 that] same p2 by simp
  have whole: "report_file px ev fe p =
      (if b then p4
       else if fw_sent w < fileBudget
       then push_line LogFile (file_line fe') (p4\<lparr>pr_files := AList.update ?u (w\<lparr>fw_sent := fw_sent w + 1\<rparr>) (pr_files p4)\<rparr>)
       else p4\<lparr>pr_files := AList.update ?u (count_over fe' w) (pr_files p4)\<rparr>)"
    unfolding report_file_def 1 prod.case Let_def fe'_def [symmetric] p2_def [symmetric] 3 4
    by (cases b) simp_all
  have start: "fw_start (count_over fe' w) = fw_start w" by (simp add: count_over_def Let_def)
  show ?thesis
  proof (cases "t = ?u")
    case True
    then show ?thesis
      using ls w was start unfolding whole paid_def
      by (auto simp: push_line_def spent_def update_conv')
  next
    case False
    then show ?thesis
      using ls other unfolding whole paid_def
      by (auto simp: push_line_def spent_def update_conv')
  qed
qed

lemma handleFile_paid: "paid t (r_tgid ev = t) p (handleFile px ev p)"
  unfolding handleFile_def Let_def
  by (auto intro: no_change_paid no_change_refl access_no_change read_no_change report_file_paid)

lemma if_paid: "paid t own p a \<Longrightarrow> paid t own p b \<Longrightarrow> paid t own p (if c then a else b)"
  by simp

lemma handle_paid: "paid t (r_tgid ev = t) p (handle px ev p)"
  unfolding handle_def
  by (intro if_paid handleFile_paid no_change_paid [OF no_change_refl] no_change_paid [OF access_no_change]
      no_change_paid [OF setImage_no_change] no_change_paid [OF exit_no_change]
      no_change_paid [OF fileless_no_change] rest_no_change [THEN no_change_paid])

lemma step_paid: "paid t (step_process s = Some t) p (agent_run_step s p)"
proof (cases s)
  case (Record px ev)
  then show ?thesis using handle_paid [of t ev p px] by simp
next
  case (Ticked px)
  then show ?thesis using no_change_paid [OF tick_no_change] by simp
qed

lemma shipped_budget:
  "in_window t since ss p \<Longrightarrow> processor_ok p \<Longrightarrow> shipped t ss p + spent t since p \<le> fileBudget"
proof (induction ss arbitrary: p)
  case Nil
  then show ?case by (simp add: spent_budget)
next
  case (Cons s ss)
  let ?p' = "agent_run_step s p"
  have "shipped t ss ?p' + spent t since ?p' \<le> fileBudget"
    using Cons step_ok by simp
  moreover have "(if step_process s = Some t then length (filter change_line (new_lines s p)) else 0) +
      spent t since p \<le> spent t since ?p'"
    using step_paid [of t s p] Cons.prems(1) by (auto simp: paid_def new_lines_def)
  ultimately show ?case by simp
qed

text \<open>
  C14: However many records arrive, in whatever order and from however many
  processes, the agent's tables keep at most \<open>maxTracked\<close> entries, with one
  entry per key, and everything pushed is one line of one of the eight log
  types. And a process ships at most \<open>fileBudget\<close> lines that show a change of a
  file (\<open>create\<close>, \<open>write\<close>, \<open>rename\<close>, \<open>delete\<close>) as long as it has one window: over any
  further steps \<open>later\<close> after each of which the process has the window that began
  at \<open>since\<close>, its records push no more such lines than that. Summaries of a
  window, and the reads of watched files, which \<open>handleFile\<close> reports before it
  looks at the window, are not changes and are outside the budget.
\<close>

theorem processor_run_ok:
  "processor_ok (fold agent_run_step steps newProcessor) \<and>
   (in_window t since later (fold agent_run_step steps newProcessor) \<longrightarrow>
     shipped t later (fold agent_run_step steps newProcessor) \<le> fileBudget)"
proof -
  have "processor_ok (fold agent_run_step steps newProcessor)"
    by (rule run_ok [OF new_ok])
  then show ?thesis using shipped_budget [of t since later] by force
qed

definition quiet_env :: proc_env where
  "quiet_env = \<lparr>px_disabled = (\<lambda>g. False), px_on_file = False, px_canary = None, px_exe = (\<lambda>t. []),
     px_cwd = (\<lambda>p t. []), px_fd = (\<lambda>t d. []), px_now = 5\<rparr>"

definition sample_raw :: raw_event where
  "sample_raw = \<lparr>r_ts = 0, r_ret = 0, r_arg0 = 0, r_arg1 = 0, r_arg2 = 0, r_kind = kindUnlink, r_pid = 0, r_tgid = 0,
     r_ppid = 1, r_uid = 0, r_euid = 0, r_dfd = 0, r_dfd2 = 0, r_comm = str ''rm'', r_path = str ''/x'', r_path2 = [],
     r_dir = [], r_dir2 = []\<rparr>"

definition delete_of :: "bytes \<Rightarrow> file_event" where
  "delete_of path = \<lparr>fe_time = 5, fe_action = str ''delete'', fe_path = path, fe_from = [], fe_pid = 0, fe_ppid = 1,
     fe_uid = 0, fe_image = str ''rm'', fe_comm = str ''rm'', fe_dir = False\<rparr>"

lemma quiet_delete:
  assumes "path = str ''/x'' \<or> path = str ''/y''" and "pr_images p = []"
  shows "handle quiet_env (sample_raw\<lparr>r_path := path\<rparr>) p =
    report_file quiet_env (sample_raw\<lparr>r_path := path\<rparr>) (delete_of path\<lparr>fe_image := []\<rparr>) p"
proof -
  have "path_is_abs path" "path \<noteq> []" "\<not> skipPath path"
    using assms(1) by (auto simp: path_is_abs_def skipPath_def skipPrefixes_def str_def chr_def)
  then show ?thesis
    by (simp add: handle_def handleFile_def Let_def quiet_env_def sample_raw_def delete_of_def resolve_def
        is_canary_def kindOpen_def kindRename_def kindUnlink_def)
qed

definition two_deletes :: "agent_step list" where
  "two_deletes = [Record quiet_env sample_raw, Record quiet_env (sample_raw\<lparr>r_path := str ''/y''\<rparr>)]"

lemma delete_change: "change_line (LogFile, file_line (delete_of path))"
  by (rule shown_changes) (simp add: delete_of_def)

lemma first_delete:
  obtains p where "agent_run_step (Record quiet_env sample_raw) newProcessor = p"
    "pr_images p = []" "pr_seen p = [(join_with (str ''|'') [str ''file'', dec (0 :: u32), str ''delete'', str ''/x''], 5)]"
    "\<exists>w. pr_files p = [(0, w)] \<and> fw_start w = 5 \<and> fw_sent w = 1"
    "pr_pushed p = [(LogFile, file_line (delete_of (str ''/x'')))]"
proof -
  have "sample_raw\<lparr>r_path := str ''/x''\<rparr> = sample_raw" by (simp add: sample_raw_def)
  then have "handle quiet_env sample_raw newProcessor =
      report_file quiet_env sample_raw (delete_of (str ''/x'')\<lparr>fe_image := []\<rparr>) newProcessor"
    using quiet_delete [of "str ''/x''" newProcessor] by (simp add: newProcessor_def)
  then show thesis
    by (intro that [of "handle quiet_env sample_raw newProcessor"])
      (simp_all add: report_file_def get_image_def open_window_def new_window_def dedupe_def Let_def newProcessor_def
        quiet_env_def sample_raw_def delete_of_def push_line_def fileBudget_def maxTracked_def)
qed

lemma two_deletes_run: "in_window 0 5 two_deletes newProcessor \<and> shipped 0 two_deletes newProcessor = 2"
proof -
  obtain p w where 1: "agent_run_step (Record quiet_env sample_raw) newProcessor = p"
    "pr_images p = []" "pr_seen p = [(join_with (str ''|'') [str ''file'', dec (0 :: u32), str ''delete'', str ''/x''], 5)]"
    "pr_files p = [(0, w)]" "fw_start w = 5" "fw_sent w = 1"
    "pr_pushed p = [(LogFile, file_line (delete_of (str ''/x'')))]"
    using first_delete by metis
  let ?r = "sample_raw\<lparr>r_path := str ''/y''\<rparr>"
  have new: "join_with (str ''|'') [str ''file'', dec (0 :: u32), str ''delete'', str ''/y''] \<noteq>
      join_with (str ''|'') [str ''file'', dec (0 :: u32), str ''delete'', str ''/x'']"
    by (simp add: str_def chr_def)
  have "handle quiet_env ?r p = report_file quiet_env ?r (delete_of (str ''/y'')\<lparr>fe_image := []\<rparr>) p"
    using quiet_delete [of "str ''/y''" p] 1(2) by simp
  then have 2: "pr_pushed (handle quiet_env ?r p) = pr_pushed p @ [(LogFile, file_line (delete_of (str ''/y'')))]"
    "pr_files (handle quiet_env ?r p) = [(0, w\<lparr>fw_sent := 2\<rparr>)]"
    using new 1(2-6)
    by (simp_all add: report_file_def get_image_def open_window_def dedupe_def Let_def
        quiet_env_def sample_raw_def delete_of_def push_line_def fileBudget_def maxTracked_def
        fileWindow_def minute_def)
  show ?thesis
    using 1 2 by (simp add: two_deletes_def new_lines_def delete_change newProcessor_def) (simp add: sample_raw_def)
qed

theorem processor_run_ok_witness:
  "shipped 0 two_deletes newProcessor = 2 \<and> shipped 0 two_deletes newProcessor \<le> fileBudget"
  using processor_run_ok [of "[]" 0 5 two_deletes] two_deletes_run by simp

section \<open>A full table of windows\<close>

text \<open>
  C29: When windows of \<open>maxTracked\<close> processes are open, the file event of
  another process discards them all: afterwards the table holds the window of
  that process alone, and nothing was pushed for the others, so whatever their
  windows had counted beyond the budget is never summarised.
\<close>

theorem full_table_drops_counts:
  assumes "maxTracked \<le> length (pr_files p)" and "map_of (pr_files p) (r_tgid ev) = None"
    and "get_image px (r_tgid ev) (r_comm ev) p = (img, p1)"
  shows "map fst (pr_files (report_file px ev fe p)) = [r_tgid ev] \<and>
    pr_pushed (report_file px ev fe p) \<in>
      {pr_pushed p, pr_pushed p @ [(LogFile, file_line (fe\<lparr>fe_image := img\<rparr>))]}"
proof -
  define p2 where "p2 = (if px_on_file px then p1\<lparr>pr_on_file := pr_on_file p1 @ [fe\<lparr>fe_image := img\<rparr>]\<rparr> else p1)"
  obtain w p3 where 3: "open_window px (r_tgid ev) (fe\<lparr>fe_image := img\<rparr>) p2 = (w, p3)" by fastforce
  let ?key = "join_with (str ''|'') [str ''file'', dec (r_tgid ev), fe_action (fe\<lparr>fe_image := img\<rparr>), fe_path (fe\<lparr>fe_image := img\<rparr>)]"
  obtain b p4 where 4: "dedupe px ?key fileWindow p3 = (b, p4)" by fastforce
  have "pr_files p2 = pr_files p" "pr_pushed p2 = pr_pushed p"
    using get_image_files [OF assms(3)] get_image_pushed [OF assms(3)] by (simp_all add: p2_def)
  then have "pr_files p3 = [(r_tgid ev, w)]" "pr_pushed p3 = pr_pushed p"
    using 3 assms(1,2) by (auto simp: open_window_def new_window_def Let_def)
  then have "pr_files p4 = [(r_tgid ev, w)]" "pr_pushed p4 = pr_pushed p"
    using dedupe_files [OF 4] dedupe_pushed [OF 4] by simp_all
  then show ?thesis
    unfolding report_file_def assms(3) Let_def prod.case p2_def [symmetric] 3 4
    by (cases b) (simp_all add: push_line_def)
qed

definition busy_window :: file_window where
  "busy_window = \<lparr>fw_start = 0, fw_sent = 30, fw_writes = 4, fw_renames = 0, fw_deletes = 0, fw_sample = str ''/a'',
     fw_image = str ''/sh'', fw_comm = str ''sh'', fw_ppid = 1, fw_uid = 0\<rparr>"

definition busy_processor :: processor where
  "busy_processor = newProcessor\<lparr>pr_files := map (\<lambda>i. (word_of_nat i, busy_window)) [1..<20001]\<rparr>"

definition sample_delete :: file_event where
  "sample_delete = \<lparr>fe_time = 5, fe_action = str ''delete'', fe_path = str ''/x'', fe_from = [], fe_pid = 0, fe_ppid = 1,
     fe_uid = 0, fe_image = [], fe_comm = str ''rm'', fe_dir = False\<rparr>"

theorem full_table_drops_counts_witness:
  "map fst (pr_files (report_file quiet_env sample_raw sample_delete busy_processor)) = [0]"
proof -
  have "word_of_nat i \<noteq> (0 :: u32)" if "i \<in> {1..<20001}" for i
    using that by (simp add: word_of_nat_eq_0_iff) (auto dest: dvd_imp_le)
  then have none: "map_of (pr_files busy_processor) (r_tgid sample_raw) = None"
    by (force simp: busy_processor_def sample_raw_def map_of_eq_None_iff)
  have "get_image quiet_env (r_tgid sample_raw) (r_comm sample_raw) busy_processor = (str ''rm'', busy_processor)"
    by (simp add: get_image_def busy_processor_def newProcessor_def quiet_env_def sample_raw_def)
  with full_table_drops_counts [OF _ none this, of sample_delete] show ?thesis
    by (simp add: busy_processor_def maxTracked_def sample_raw_def)
qed

end
