(* ===== verification/Sensor_Flow.thy ===== *)
theory Sensor_Flow
  imports Processor Linsensor_Calls Linsensor_Runs
begin

text \<open>
  A program start from the kernel to the worker: the record linsensor submits,
  the agent's decoder, its processor, and the fields the worker reads.
\<close>

section \<open>From the program start to the log line\<close>

lemma fileless_pushed:
  assumes "r_kind ev = kindFilelessExec"
  shows "\<exists>pimg. pr_pushed (handle px ev p) = pr_pushed p @ [(LogFileless, filelessLine ev pimg)]"
proof -
  obtain pimg p1 where g: "get_image px (r_ppid ev) [] (setImage (r_tgid ev) (r_path ev) p) = (pimg, p1)" by fastforce
  have "handle px ev p = push_line LogFileless (filelessLine ev pimg) p1"
    using assms g by (simp add: handle_def handle_fileless_def go_kind_defs)
  then show ?thesis using get_image_pushed [OF g] by (auto simp: push_line_def)
qed

lemma fileless_fields_read:
  "map_of (parse_fields (filelessLine ev pimg)) (str ''Image'') = Some (shown (r_path ev))"
  "map_of (parse_fields (filelessLine ev pimg)) (str ''Links'') = Some (dec (r_arg0 ev))"
  "map_of (parse_fields (filelessLine ev pimg)) (str ''PID'') = Some (dec (r_tgid ev))"
  by (simp_all add: fileless_line_parsed fileless_fields_def str_def chr_def)

lemma unat_wide: "unat (ucast (x :: u32) :: u64) = unat x"
proof -
  have "unat x < 2 ^ LENGTH(32)" by (rule unsigned_less)
  then have "unat x < 2 ^ 64" by simp
  then show ?thesis by (simp add: unsigned_ucast_eq take_bit_nat_eq_self)
qed

lemma handle_exec_ok:
  assumes "bpf_helpers env" and "lin_ok st" and "event_ok ev"
  shows "lin_ok (handle_exec env (Some ev) ctx loc st)"
  using bpf_helpers.exec_effect [OF assms(1), of "Some ev" ctx loc st] submits_ok [OF assms(1) _ assms(2)] assms(2,3)
  by auto

text \<open>
  C5: A program without a file is reported. When a process outside the agent
  starts an executable whose name begins with \<open>memfd:\<close> or that no directory
  entry links to, then, the ring buffer having room, linsensor submits a record
  that decodes, and whatever the agent's state and configuration, handling it
  pushes exactly one line, of the fileless type, in which the worker reads the
  executable's path, its number of links and the number the kernel gives the
  process. The path of a memfd is its name. With a full ring buffer the start
  is counted as lost.
\<close>

theorem fileless_exec_reported:
  assumes "bpf_helpers env" and "lin_ok st" and "event_ok slot" and "\<not> skip_self env st"
    and "d = core_ptr env (exe_of env) [(''file'', ''f_path.dentry'')]"
    and "vm = core_ptr env (exe_of env) [(''file'', ''f_path.mnt'')]" and "d \<noteq> 0" and "vm \<noteq> 0"
    and "vfs_path env d vm cs"
    and "nlink = core_u32 env (exe_of env) [(''file'', ''f_inode''), (''inode'', ''__i_nlink'')]"
    and "head = snd (probe_read_kernel env
           (core_ptr env (exe_of env) [(''file'', ''f_path.dentry''), (''dentry'', ''d_name.name'')]) (replicate 6 0))"
    and "head = str ''memfd:'' \<or> nlink = 0" and "length mem = csize sensor_event_ty"
  shows "(\<exists>e ev. sensor_events (handle_exec env (Some slot) ctx loc st) = sensor_events st @ [e] \<and>
      decodeRaw (sensor_bytes mem e) = Some ev \<and>
      (\<forall>px p. \<exists>line. pr_pushed (handle px ev p) = pr_pushed p @ [(LogFileless, line)] \<and>
         map_of (parse_fields line) (str ''Image'') = Some (shown (take (PATH_LEN - 1) (path_of cs))) \<and>
         map_of (parse_fields line) (str ''Links'') = Some (dec nlink) \<and>
         map_of (parse_fields line) (str ''PID'') =
           Some (dec (ucast (drop_bit 32 (current_pid_tgid env)) :: u32)))) \<and>
    handle_exec env None ctx loc st = st\<lparr>drops := (drops st)(cpu env := [hd (drops st (cpu env)) + 1])\<rparr>"
proof -
  obtain e where e: "sensor_events (handle_exec env (Some slot) ctx loc st) = sensor_events st @ [e]"
    and k: "se_kind e = K_FILELESS_EXEC" and n: "se_arg0 e = ucast nlink"
    and path: "cstr (se_path e) = take (PATH_LEN - 1) (path_of cs)"
    and t: "se_tgid e = ucast (drop_bit 32 (current_pid_tgid env))"
    using exec_event [OF assms(1-11), of ctx loc] assms(12) by auto
  have "event_ok e"
    using handle_exec_ok [OF assms(1-3), of ctx loc] by (simp add: lin_ok_def e)
  then obtain ev where ev: "decodeRaw (sensor_bytes mem e) = Some ev" "r_kind ev = se_kind e"
    "r_arg0 ev = se_arg0 e" "r_path ev = cstr (se_path e)" "r_tgid ev = se_tgid e"
    using sensor_decoded [OF _ assms(13)] by fastforce
  have dec: "dec (r_arg0 ev) = dec nlink" by (simp add: ev(3) n unat_wide)
  have kind: "r_kind ev = kindFilelessExec" by (simp add: ev(2) k go_kind_defs kind_defs)
  have line: "\<exists>line. pr_pushed (handle px ev p) = pr_pushed p @ [(LogFileless, line)] \<and>
      map_of (parse_fields line) (str ''Image'') = Some (shown (take (PATH_LEN - 1) (path_of cs))) \<and>
      map_of (parse_fields line) (str ''Links'') = Some (dec nlink) \<and>
      map_of (parse_fields line) (str ''PID'') =
        Some (dec (ucast (drop_bit 32 (current_pid_tgid env)) :: u32))" for px p
    using fileless_pushed [OF kind, of px p] fileless_fields_read [of ev, unfolded ev(4,5) path dec t] by metis
  show ?thesis
    using e ev(1) line exec_dropped [OF assms(2,4), of ctx loc] by blast
qed

section \<open>A memfd\<close>

text \<open>
  The sample machine, whose task runs a memfd called \<open>x\<close>: an entry without links
  that is its own parent.
\<close>

definition memfd_cell :: "u64 \<times> bytes \<Rightarrow> u64 \<times> bytes" where
  "memfd_cell = (\<lambda>(a, b).
     (a, if a = 14336 then le_bytes 4 0 else if a = 11272 then le_bytes 8 11264
         else if a = 11280 then le_bytes 4 0 @ le_bytes 4 7 @ le_bytes 8 11520
         else if a = 11520 then str ''memfd:x'' @ [0] else b))"

definition memfd_env :: bpf_env where
  "memfd_env = cell_env [] (map memfd_cell sample_kmem) (str ''sh'') (push_bit 32 8 + 8) 5 77 10240 sample_off"

lemmas memfd_defs = memfd_env_def memfd_cell_def cell_env_def cell_read_def sample_kmem_def sample_off_def
  BPF_CORE_READ_def BPF_CORE_READ_INTO_def bpf_core_read_def le_word_bytes

lemma memfd_helpers: "bpf_helpers memfd_env"
  unfolding memfd_env_def by (rule cell_env.bpf_helpers_axioms)

lemma memfd_path: "vfs_path memfd_env 11264 8192 [str ''memfd:x'']"
proof (rule vfs_path_disconnected)
  show "disconnected memfd_env 11264 8192" by (simp add: disconnected_def memfd_defs)
  have "d_name memfd_env 11264 = \<lparr>q_len = 7, q_name = 11520\<rparr>"
    by (simp add: memfd_defs d_name_def Let_def)
  then show "named memfd_env 11264 (str ''memfd:x'')"
    by (auto simp: named_def slot_is_def str_def chr_def)
      (simp add: memfd_env_def memfd_cell_def cell_env_def cell_read_def sample_kmem_def str_def chr_def)
qed

theorem fileless_exec_reported_witness:
  "\<exists>e ev. sensor_events (handle_exec memfd_env (Some sample_event) 500 8 sample_lin) = [e] \<and>
    decodeRaw (sensor_bytes (replicate 1112 0) e) = Some ev \<and>
    (\<exists>line. pr_pushed (handle quiet_env ev newProcessor) = [(LogFileless, line)] \<and>
       map_of (parse_fields line) (str ''Image'') = Some (shown (str ''/memfd:x'')) \<and>
       map_of (parse_fields line) (str ''PID'') = Some (str ''8''))"
proof -
  have exe: "exe_of memfd_env = 10752" by (simp add: exe_of_def memfd_defs)
  have d: "11264 = core_ptr memfd_env (exe_of memfd_env) [(''file'', ''f_path.dentry'')]"
    "8192 = core_ptr memfd_env (exe_of memfd_env) [(''file'', ''f_path.mnt'')]"
    "0 = core_u32 memfd_env (exe_of memfd_env) [(''file'', ''f_inode''), (''inode'', ''__i_nlink'')]"
    unfolding exe by (simp_all add: memfd_defs)
  have pid: "current_pid_tgid memfd_env = push_bit 32 8 + 8" by (simp add: memfd_env_def cell_env_def)
  have self: "\<not> skip_self memfd_env sample_lin" by (simp add: skip_self_def arr_lookup_def pid)
  have p: "take (PATH_LEN - 1) (path_of [str ''memfd:x'']) = str ''/memfd:x''"
    by (simp add: path_of_def str_def chr_def)
  have t: "dec (ucast (drop_bit 32 (current_pid_tgid memfd_env)) :: u32) = str ''8''"
    by (simp add: pid fmt_d_digit) (simp add: str_def chr_def)
  from fileless_exec_reported [OF memfd_helpers sample_lin_ok self d(1,2) _ _ memfd_path d(3) HOL.refl,
      where mem = "replicate 1112 0" and ctx = 500 and loc = 8]
  obtain e ev where "sensor_events (handle_exec memfd_env (Some sample_event) 500 8 sample_lin) = [] @ [e]"
    "decodeRaw (sensor_bytes (replicate 1112 0) e) = Some ev"
    and l: "\<forall>px p. \<exists>line. pr_pushed (handle px ev p) = pr_pushed p @ [(LogFileless, line)] \<and>
       map_of (parse_fields line) (str ''Image'') = Some (shown (str ''/memfd:x'')) \<and>
       map_of (parse_fields line) (str ''Links'') = Some (dec (0 :: u32)) \<and>
       map_of (parse_fields line) (str ''PID'') = Some (str ''8'')"
    unfolding p t sensor_offsets by auto
  moreover obtain line where "pr_pushed (handle quiet_env ev newProcessor) = [] @ [(LogFileless, line)]"
    "map_of (parse_fields line) (str ''Image'') = Some (shown (str ''/memfd:x''))"
    "map_of (parse_fields line) (str ''PID'') = Some (str ''8'')"
    using l [rule_format, of quiet_env newProcessor] by (auto simp: newProcessor_def)
  ultimately show ?thesis by auto
qed

end
