(* ===== verification/Procexec_Lines.thy ===== *)
theory Procexec_Lines
  imports Kv_Lines Wire
begin

text \<open>
  The line \<open>procexec.go\<close> writes for a program start, the entry it pushes, and
  \<open>Encode\<close> and \<open>Decode\<close> of \<open>tailer.go\<close>, which take entries apart again. The end
  is the path from the system call to the fields the worker reads.
\<close>

section \<open>Buffer entries\<close>

text \<open>\<open>strings.SplitN\<close> for up to three parts.\<close>

definition cut_at :: "u8 \<Rightarrow> bytes \<Rightarrow> (bytes \<times> bytes) option" where
  "cut_at c s =
     (if c \<in> set s then Some (takeWhile (\<lambda>b. b \<noteq> c) s, tl (dropWhile (\<lambda>b. b \<noteq> c) s)) else None)"

definition tailer_encode :: "bytes \<Rightarrow> bytes \<Rightarrow> bytes \<Rightarrow> bytes" where
  "tailer_encode log_type location raw = log_type @ [0] @ location @ [0] @ raw"

definition tailer_decode :: "bytes \<Rightarrow> bytes \<times> bytes \<times> bytes" where
  "tailer_decode entry =
     (case cut_at 0 entry of None \<Rightarrow> (str ''unknown'', [], entry)
      | Some (a, rest) \<Rightarrow>
          (case cut_at 0 rest of None \<Rightarrow> (a, [], rest) | Some (b, c) \<Rightarrow> (a, b, c)))"

lemma cut_first: "c \<notin> set a \<Longrightarrow> cut_at c (a @ c # s) = Some (a, s)"
  by (induction a) (auto simp: cut_at_def)

lemma cut_none: "c \<notin> set a \<Longrightarrow> cut_at c a = None"
  by (simp add: cut_at_def)

text \<open>An entry is taken apart as it was put together; only the line may hold a NUL.\<close>

lemma tailer_round_trip:
  "0 \<notin> set log_type \<Longrightarrow> 0 \<notin> set location \<Longrightarrow>
     tailer_decode (tailer_encode log_type location raw) = (log_type, location, raw)"
  by (simp add: tailer_decode_def tailer_encode_def cut_first)

text \<open>The older form has two parts; there the line must not hold a NUL.\<close>

lemma tailer_two_parts:
  "0 \<notin> set log_type \<Longrightarrow> 0 \<notin> set raw \<Longrightarrow> tailer_decode (log_type @ 0 # raw) = (log_type, [], raw)"
  by (simp add: tailer_decode_def cut_first cut_none)

section \<open>The line of a program start\<close>

text \<open>\<open>kv\<close> of \<open>procexec.go\<close> leaves a newline as it is.\<close>

definition procexec_kv :: "bytes \<Rightarrow> bytes" where
  "procexec_kv s = (let s = replace_all 92 [92, 92] s; s = replace_all 34 [92, 34] s in [34] @ s @ [34])"

definition exec_log_type :: bytes where
  "exec_log_type = str ''linux_process_exec''"

definition exec_line :: "exec_info \<Rightarrow> bytes" where
  "exec_line x =
     str ''Image='' @ procexec_kv (x_image x) @ str '' CommandLine='' @ procexec_kv (x_command x) @
     str '' PID='' @ fmt_d (unat (x_pid x)) @ str '' PPID='' @ fmt_d (unat (x_ppid x)) @
     str '' User='' @ fmt_d (unat (x_uid x)) @
     (if x_parent x \<noteq> [] then str '' ParentImage='' @ procexec_kv (x_parent x) else []) @
     (if x_comm x \<noteq> [] then str '' Comm='' @ procexec_kv (x_comm x) else []) @
     (if x_truncated x then str '' ArgsTruncated=true'' else [])"

text \<open>What \<open>loop\<close> pushes for a record.\<close>

definition exec_entry :: "bytes \<Rightarrow> bytes option" where
  "exec_entry b = map_option (\<lambda>x. exec_log_type @ [0] @ exec_line x) (decodeExec b)"

section \<open>Reading it back\<close>

text \<open>A general field: its text, and the value the worker takes from it.\<close>

definition esc_exec :: "u8 \<Rightarrow> bytes" where
  "esc_exec b = (if b = 92 then [92, 92] else if b = 34 then [92, 34] else [b])"

lemma procexec_kv_esc: "procexec_kv s = 34 # concat (map esc_exec s) @ [34]"
proof -
  have "replace_all 34 [92, 34] (replace_all 92 [92, 92] s) = concat (map esc_exec s)"
    by (induction s) (auto simp: esc_exec_def)
  then show ?thesis by (simp add: procexec_kv_def)
qed

lemma scan_quoted_exec: "scan_quoted (concat (map esc_exec s) @ 34 # r) = Some (concat (map esc_exec s), r)"
proof (induction s)
  case Nil
  then show ?case by (cases r) auto
next
  case (Cons b s)
  then show ?case by (auto simp: esc_exec_def scan_quoted_plain)
qed

lemma kv_unescape_exec: "kv_unescape (concat (map esc_exec s)) = s"
  by (induction s) (auto simp: esc_exec_def kv_unescape_plain)

lemma parse_value_exec: "parse_value (procexec_kv s) = s"
proof -
  have "butlast (tl (procexec_kv s)) = concat (map esc_exec s)"
    by (simp add: procexec_kv_esc butlast_append)
  then show ?thesis by (simp add: parse_value_def procexec_kv_esc kv_unescape_exec)
qed

lemma kv_match_exec: "key_ok k \<Longrightarrow> kv_match (k @ 61 # procexec_kv v @ r) = Some (k, procexec_kv v, r)"
  using takeWhile_key [of k "procexec_kv v @ r"] scan_quoted_exec [of v r]
  by (simp add: kv_match_def Let_def key_ok_def scan_value_def procexec_kv_esc)


text \<open>The fields of the line, with their text.\<close>

definition exec_tokens :: "exec_info \<Rightarrow> (bytes \<times> bytes) list" where
  "exec_tokens x =
     [(str ''Image'', procexec_kv (x_image x)), (str ''CommandLine'', procexec_kv (x_command x)),
      (str ''PID'', fmt_d (unat (x_pid x))), (str ''PPID'', fmt_d (unat (x_ppid x))),
      (str ''User'', fmt_d (unat (x_uid x)))] @
     (if x_parent x \<noteq> [] then [(str ''ParentImage'', procexec_kv (x_parent x))] else []) @
     (if x_comm x \<noteq> [] then [(str ''Comm'', procexec_kv (x_comm x))] else []) @
     (if x_truncated x then [(str ''ArgsTruncated'', str ''true'')] else [])"

lemma exec_line_tokens: "exec_line x = token_line (exec_tokens x)"
  by (simp add: exec_line_def exec_tokens_def token_line_def str_def chr_def)

lemma key_str: "key_ok (str k) \<longleftrightarrow> k \<noteq> [] \<and> list_all (\<lambda>c. is_word (chr c)) k"
  by (auto simp: key_ok_def str_def list_all_iff)

lemma exec_tokens_ok: "list_all token_ok (exec_tokens x)"
proof -
  have q: "token_ok (str k, procexec_kv v)" if "key_ok (str k)" for k v
    using that by (simp add: token_ok_def kv_match_exec)
  have p: "token_ok (str k, v)" if "key_ok (str k)" "plain_ok v" for k v
    using that by (simp add: token_ok_def kv_match_plain)
  have "plain_ok (str ''true'')" by (simp add: plain_ok_def is_blank_def str_def chr_def)
  then show ?thesis
    by (simp add: exec_tokens_def q p key_str fmt_d_plain is_word_def chr_def)
qed

lemma exec_fields_read:
  "parse_fields (exec_line x) =
     [(str ''Image'', x_image x), (str ''CommandLine'', x_command x),
      (str ''PID'', fmt_d (unat (x_pid x))), (str ''PPID'', fmt_d (unat (x_ppid x))),
      (str ''User'', fmt_d (unat (x_uid x)))] @
     (if x_parent x \<noteq> [] then [(str ''ParentImage'', x_parent x)] else []) @
     (if x_comm x \<noteq> [] then [(str ''Comm'', x_comm x)] else []) @
     (if x_truncated x then [(str ''ArgsTruncated'', str ''true'')] else [])"
proof -
  have ne: "procexec_kv v \<noteq> []" "fmt_d n \<noteq> []" for v n
    using fmt_d_plain [of n] by (simp_all add: procexec_kv_esc plain_ok_def)
  have t: "parse_value (fmt_d n) = fmt_d n" "parse_value (str ''true'') = str ''true''" for n
    by (simp_all add: parse_value_plain fmt_d_plain)
      (simp add: parse_value_def str_def chr_def)
  have "str ''true'' \<noteq> []" by (simp add: str_def)
  then show ?thesis
    by (simp add: parse_fields_def exec_line_tokens findall_tokens [OF exec_tokens_ok])
      (simp add: exec_tokens_def ne t parse_value_exec)
qed

section \<open>No NUL in the line\<close>

lemma split_loop_no_nul:
  assumes "\<forall>p \<in> set parts. 0 \<notin> set p" and "start \<le> i" and "\<forall>j. start \<le> j \<and> j < i \<longrightarrow> buf ! j \<noteq> 0"
    and "n \<le> length buf"
  shows "\<forall>p \<in> set (split_loop buf [i..<n] start parts). 0 \<notin> set p"
  using assms(1-3)
proof (induction "n - i" arbitrary: i start parts)
  case (Suc m)
  then have up: "[i..<n] = i # [Suc i..<n]" by (simp add: upt_conv_Cons)
  have piece: "0 \<notin> set (take (i - start) (drop start buf))"
  proof
    assume "0 \<in> set (take (i - start) (drop start buf))"
    then obtain j where "j < i - start" "take (i - start) (drop start buf) ! j = 0"
      by (auto simp: in_set_conv_nth)
    then have "buf ! (start + j) = 0" using Suc.prems(2) Suc.hyps(2) assms(4) by simp
    then show False using Suc.prems(3) \<open>j < i - start\<close> by auto
  qed
  show ?case
  proof (cases "buf ! i = 0")
    case True
    have "\<forall>p \<in> set (if start < i then parts @ [take (i - start) (drop start buf)] else parts). 0 \<notin> set p"
      using Suc.prems(1) piece by auto
    then have "\<forall>p \<in> set (split_loop buf [Suc i..<n] (i + 1)
        (if start < i then parts @ [take (i - start) (drop start buf)] else parts)). 0 \<notin> set p"
      using Suc.hyps(2) by (intro Suc.hyps(1)) auto
    then show ?thesis using True by (simp add: up)
  next
    case False
    have "\<forall>p \<in> set (split_loop buf [Suc i..<n] start parts). 0 \<notin> set p"
      by (intro Suc.hyps(1)) (use Suc.hyps(2) Suc.prems False in \<open>auto simp: less_Suc_eq\<close>)
    then show ?thesis using False by (simp add: up)
  qed
qed simp

lemma splitArgs_no_nul: "p \<in> set (splitArgs buf sz) \<Longrightarrow> 0 \<notin> set p"
  using split_loop_no_nul [of "[]" 0 0 buf "if sz \<le> 0 \<or> int (length buf) < sz then length buf else nat sz"]
  by (auto simp: splitArgs_def Let_def split: if_splits)

lemma join_no_nul: "\<forall>p \<in> set ps. 0 \<notin> set p \<Longrightarrow> 0 \<notin> set (join_with [32] ps)"
  by (induction ps rule: induct_list012) auto

lemma decoded_no_nul:
  assumes "decodeExec b = Some x"
  shows "0 \<notin> set (x_image x)" "0 \<notin> set (x_command x)" "0 \<notin> set (x_parent x)" "0 \<notin> set (x_comm x)"
  using assms join_no_nul splitArgs_no_nul
  by (auto simp: decodeExec_def joinArgs_def Let_def split: if_splits)

lemma exec_line_no_nul:
  assumes "decodeExec b = Some x"
  shows "0 \<notin> set (exec_line x)"
proof -
  have q: "0 \<notin> set (procexec_kv v)" if "0 \<notin> set v" for v
    using that by (auto simp: procexec_kv_esc esc_exec_def split: if_splits)
  have "0 \<notin> set (fmt_d n)" for n
  proof -
    have "list_all digit_ok (fmt_d n)" unfolding fmt_d_def by (rule show_digits_ok) simp_all
    then show ?thesis by (auto simp: list_all_iff digit_ok_def word_le_nat_alt)
  qed
  then show ?thesis
    using q decoded_no_nul [OF assms] by (simp add: exec_line_def str_def chr_def)
qed


section \<open>From the system call to the worker\<close>

lemma exec_kv_read:
  "parse_kv (exec_line x) (str ''Image'') = Some (x_image x)"
  "parse_kv (exec_line x) (str ''CommandLine'') = Some (x_command x)"
  "parse_kv (exec_line x) (str ''PID'') = Some (fmt_d (unat (x_pid x)))"
  "parse_kv (exec_line x) (str ''PPID'') = Some (fmt_d (unat (x_ppid x)))"
  "parse_kv (exec_line x) (str ''User'') = Some (fmt_d (unat (x_uid x)))"
  "parse_kv (exec_line x) (str ''ArgsTruncated'') = (if x_truncated x then Some (str ''true'') else None)"
  unfolding parse_kv_def exec_fields_read by (simp_all add: str_def chr_def)

text \<open>
  C6: From the system call to the analyst: an \<open>execve\<close> with readable arguments
  yields one record, for which the agent pushes one entry of the log type of
  program starts, and the worker reads from its line exactly the file name
  (cut to 255 bytes), the command line made of the first eight arguments
  (each cut to 127 bytes, empty ones left out; the file name when none is
  left), and the numbers of the process, its parent and its user. No argument,
  whatever quotes, blanks or newlines it holds, changes another field.
\<close>

theorem execve_line_read:
  assumes "bpf_helpers env" and "exec_st_ok M st" and "exec_event_ok ev"
    and "holds_user_str env (args ! 0) name" and "name \<noteq> []"
    and "argv_at env (args ! 1) ss" and "ss \<noteq> []" and "length mem = csize exec_event_ty"
  shows "\<exists>e entry line. events (snd (handle_execve env M (Some ev) st args)) = events st @ [e] \<and>
    exec_entry (exec_bytes mem e) = Some entry \<and> tailer_decode entry = (exec_log_type, [], line) \<and>
    parse_kv line (str ''Image'') = Some (take (MAX_FILENAME_LEN - 1) name) \<and>
    parse_kv line (str ''CommandLine'') =
      (let c = join_with [32] (filter (\<lambda>s. s \<noteq> []) (map (take (ARGSIZE - 1)) (take MAXARG ss)))
       in Some (if c = [] then take (MAX_FILENAME_LEN - 1) name else c)) \<and>
    parse_kv line (str ''PID'') = Some (fmt_d (unat (exec_pid env))) \<and>
    parse_kv line (str ''PPID'') = Some (fmt_d (unat (exec_ppid env))) \<and>
    parse_kv line (str ''User'') = Some (fmt_d (unat (ucast (current_uid_gid env) :: u32))) \<and>
    parse_kv line (str ''ArgsTruncated'') = None"
proof -
  obtain e x where e: "events (snd (handle_execve env M (Some ev) st args)) = events st @ [e]"
    and x: "decodeExec (exec_bytes mem e) = Some x"
    and f: "x_pid x = exec_pid env" "x_ppid x = exec_ppid env" "x_uid x = ucast (current_uid_gid env)"
      "x_image x = take (MAX_FILENAME_LEN - 1) name"
      "x_args x = filter (\<lambda>s. s \<noteq> []) (map (take (ARGSIZE - 1)) (take MAXARG ss))"
      "x_command x = (if join_with [32] (x_args x) = [] then x_image x else join_with [32] (x_args x))"
      "\<not> x_truncated x"
    using execve_reported [OF assms] by blast
  have dec: "tailer_decode (exec_log_type @ 0 # exec_line x) = (exec_log_type, [], exec_line x)"
    using exec_line_no_nul [OF x] by (intro tailer_two_parts) (simp_all add: exec_log_type_def str_def chr_def)
  have ent: "exec_entry (exec_bytes mem e) = Some (exec_log_type @ 0 # exec_line x)"
    by (simp add: exec_entry_def x)
  show ?thesis
    by (rule exI [of _ e], rule exI [of _ "exec_log_type @ 0 # exec_line x"], rule exI [of _ "exec_line x"],
        intro conjI) (simp_all only: e dec ent exec_kv_read f Let_def if_False HOL.refl)
qed

theorem execve_line_read_witness:
  "\<exists>e entry line. events (snd (handle_execve (sample_exec_env 9) cache_ops (Some sample_exec_event) sample_exec_st [300, 100])) = [e] \<and>
     exec_entry (exec_bytes (replicate 1592 5) e) = Some entry \<and> tailer_decode entry = (exec_log_type, [], line) \<and>
     parse_kv line (str ''CommandLine'') = Some (str ''a -x'')"
proof -
  have n: "holds_user_str (sample_exec_env 9) ([300, 100] ! 0) (str ''/a'')"
    by (simp add: holds_user_str_def sample_env_def cell_env_def cell_read_str_def sample_user_def
        str_def chr_def cstr_def)
  have a: "argv_at (sample_exec_env 9) ([300, 100] ! 1) [str ''a'', str ''-x'']" using sample_argv by simp
  have m: "length (replicate 1592 (5 :: u8)) = csize exec_event_ty" by (simp add: exec_offsets(2))
  have args: "filter (\<lambda>s. s \<noteq> []) (map (take (ARGSIZE - 1)) (take MAXARG [str ''a'', str ''-x''])) =
      [str ''a'', str ''-x'']" "join_with [32] [str ''a'', str ''-x''] = str ''a -x''"
    "str ''a -x'' \<noteq> []" "str ''/a'' \<noteq> []"
    by (simp_all add: str_def chr_def)
  from execve_line_read [OF sample_helpers sample_exec_ok n args(4) a _ m] show ?thesis
    unfolding args(1,2) sample_exec_events Let_def append_Nil by (simp only: args(3) if_False) blast
qed

end
