(* ===== verification/Netwatch_Lines.thy ===== *)
theory Netwatch_Lines
  imports Linsensor_Lines Procexec_Lines
begin

text \<open>
  The line \<open>netwatch.go\<close> writes for a network record and the entry it pushes,
  with the address, the time and the command name as the agent formats them,
  and what the worker reads from such a line: the record's fields when the
  command name is one word, and a forged field when it is not.
\<close>

section \<open>Addresses\<close>

definition uint32ToIP :: "u32 \<Rightarrow> bytes" where
  "uint32ToIP v = join_with (str ''.'')
     (map (\<lambda>k. dec (ucast (drop_bit (8 * k) v) :: u8)) [0, 1, 2, 3])"

text \<open>\<open>net.ParseIP\<close> of a dotted address; \<open>uint32ToIP\<close> gives no other kind.\<close>

definition ip_octet :: "bytes \<Rightarrow> nat option" where
  "ip_octet s =
     (let n = foldl (\<lambda>n c. 10 * n + unat (c - 48)) 0 s
      in if s \<noteq> [] \<and> list_all (\<lambda>c. 48 \<le> c \<and> c \<le> 57) s \<and> (hd s = 48 \<longrightarrow> length s = 1) \<and> n \<le> 255
         then Some n else None)"

definition parse_ipv4 :: "bytes \<Rightarrow> nat list option" where
  "parse_ipv4 s =
     (let os = map ip_octet (split_on (chr CHR ''.'') s)
      in if length os = 4 \<and> None \<notin> set os then Some (map the os) else None)"

definition isPrivate :: "bytes \<Rightarrow> bool" where
  "isPrivate s =
     (case parse_ipv4 s of
        Some [a, b, c, d] \<Rightarrow>
          a = 10 \<or> (a = 172 \<and> b div 16 = 1) \<or> (a = 192 \<and> b = 168) \<or> a = 127 \<or> (a = 169 \<and> b = 254)
      | _ \<Rightarrow> False)"

definition digit_char :: "nat \<Rightarrow> u8" where
  "digit_char d = 48 + word_of_nat d"

lemma digit_char:
  assumes "d < 10"
  shows "unat (digit_char d - 48) = d" "48 \<le> digit_char d" "digit_char d \<le> 57" "digit_char d = 48 \<longleftrightarrow> d = 0"
proof -
  have "d = 0 \<or> d = 1 \<or> d = 2 \<or> d = 3 \<or> d = 4 \<or> d = 5 \<or> d = 6 \<or> d = 7 \<or> d = 8 \<or> d = 9"
    using assms by presburger
  then show "unat (digit_char d - 48) = d" "48 \<le> digit_char d" "digit_char d \<le> 57" "digit_char d = 48 \<longleftrightarrow> d = 0"
    by (elim disjE; simp add: digit_char_def)+
qed

lemma show_decimal:
  "show_digits (Suc w) 10 n =
     (if n div 10 = 0 then [] else show_digits w 10 (n div 10)) @ [digit_char (n mod 10)]"
  by (simp add: digit_char_def Let_def)

lemma decimal_value:
  "n < 10 ^ w \<Longrightarrow> foldl (\<lambda>n c. 10 * n + unat (c - 48)) 0 (show_digits w 10 n) = n"
proof (induction w arbitrary: n)
  case (Suc w)
  have "n div 10 < 10 ^ w" using Suc.prems by (simp add: less_mult_imp_div_less mult.commute)
  then have "foldl (\<lambda>n c. 10 * n + unat (c - 48)) 0 (show_digits w 10 (n div 10)) = n div 10" by (rule Suc.IH)
  then show ?case
    using digit_char(1) [of "n mod 10"] by (cases "n div 10 = 0") (simp_all add: show_decimal del: show_digits.simps)
qed simp

lemma decimal_digits: "list_all (\<lambda>c. 48 \<le> c \<and> c \<le> 57) (show_digits w 10 n)"
  by (induction w arbitrary: n) (simp_all add: show_decimal digit_char del: show_digits.simps(2))

lemma decimal_head:
  "n < 10 ^ w \<Longrightarrow> 0 < n \<Longrightarrow> show_digits w 10 n \<noteq> [] \<and> hd (show_digits w 10 n) \<noteq> 48"
proof (induction w arbitrary: n)
  case (Suc w)
  have "n div 10 < 10 ^ w" using Suc.prems by (simp add: less_mult_imp_div_less mult.commute)
  then show ?case
    using Suc.IH [of "n div 10"] Suc.prems(2) digit_char(4) [of "n mod 10"]
    by (cases "n div 10 = 0") (simp_all add: show_decimal del: show_digits.simps)
qed simp

lemma octet_read: "n \<le> 255 \<Longrightarrow> ip_octet (fmt_d n) = Some n"
proof -
  assume n: "n \<le> 255"
  then have "n < 10 ^ 20" by simp
  note d = decimal_value [OF this] decimal_digits [of 20 n] decimal_head [OF this]
  show ?thesis
  proof (cases "n = 0")
    case True
    then show ?thesis by (simp add: fmt_d_digit ip_octet_def)
  next
    case False
    then show ?thesis using d n by (simp add: ip_octet_def fmt_d_def del: show_digits.simps)
  qed
qed

lemma fmt_d_no_dot: "46 \<notin> set (fmt_d n)"
  using decimal_digits [of 20 n] by (auto simp: fmt_d_def list_all_iff word_le_nat_alt simp del: show_digits.simps)

lemma split_join_dots:
  "ws \<noteq> [] \<Longrightarrow> list_all (\<lambda>w. c \<notin> set w) ws \<Longrightarrow> split_on c (join_with [c] ws) = ws"
  by (induction ws rule: induct_list012) (simp_all add: split_on_word split_on_append)

lemma octet_bound: "unat (w :: u8) \<le> 255"
proof -
  have "unat w < 2 ^ LENGTH(8)" by (rule unsigned_less)
  then show ?thesis by simp
qed

text \<open>The address a record shows is the one \<open>isPrivate\<close> tests.\<close>

lemma parse_uint32ToIP:
  "parse_ipv4 (uint32ToIP v) = Some (map (\<lambda>k. unat (ucast (drop_bit (8 * k) v) :: u8)) [0, 1, 2, 3])"
proof -
  have "split_on (chr CHR ''.'') (uint32ToIP v) = map (\<lambda>k. dec (ucast (drop_bit (8 * k) v) :: u8)) [0, 1, 2, 3]"
    unfolding uint32ToIP_def str_def list.map(2)
    by (subst list.map(1)) (subst split_join_dots; simp add: fmt_d_no_dot chr_def)
  then show ?thesis
    by (simp add: parse_ipv4_def octet_read octet_bound)
qed


section \<open>Time\<close>

text \<open>
  \<open>Format(time.RFC3339Nano)\<close> of an instant in nanoseconds since 1970, for the
  years from 0 on: the date by whole cycles of 400 years, and the fraction
  without trailing zeros.
\<close>

definition padded :: "nat \<Rightarrow> nat \<Rightarrow> bytes" where
  "padded w n = replicate (w - length (fmt_d n)) 48 @ fmt_d n"

definition civil_date :: "int \<Rightarrow> int \<times> int \<times> int" where
  "civil_date days =
     (let z = days + 719468; era = z div 146097; doe = z mod 146097;
          yoe = (doe - doe div 1460 + doe div 36524 - doe div 146096) div 365;
          doy = doe - (365 * yoe + yoe div 4 - yoe div 100);
          mp = (5 * doy + 2) div 153;
          d = doy - (153 * mp + 2) div 5 + 1;
          m = (if mp < 10 then mp + 3 else mp - 9)
      in (yoe + era * 400 + (if m \<le> 2 then 1 else 0), m, d))"

definition fraction :: "nat \<Rightarrow> bytes" where
  "fraction ns =
     (let ds = rev (dropWhile (\<lambda>c. c = 48) (rev (padded 9 ns)))
      in if ds = [] then [] else chr CHR ''.'' # ds)"

definition rfc3339_nano :: "int \<Rightarrow> bytes" where
  "rfc3339_nano t =
     (let secs = t div 1000000000; ns = t mod 1000000000; days = secs div 86400; s = nat (secs mod 86400)
      in (case civil_date days of (y, m, d) \<Rightarrow>
            padded 4 (nat y) @ str ''-'' @ padded 2 (nat m) @ str ''-'' @ padded 2 (nat d) @ str ''T'' @
            padded 2 (s div 3600) @ str '':'' @ padded 2 (s div 60 mod 60) @ str '':'' @ padded 2 (s mod 60) @
            fraction (nat ns) @ str ''Z''))"

definition ts_ok :: "u8 \<Rightarrow> bool" where
  "ts_ok c \<longleftrightarrow> \<not> is_blank c \<and> c \<noteq> 34 \<and> c \<noteq> 39"

lemma padded_ok: "list_all ts_ok (padded w n)"
proof -
  have "48 \<le> c \<Longrightarrow> c \<le> 57 \<Longrightarrow> ts_ok c" for c :: u8
    by (auto simp: ts_ok_def is_blank_def word_le_nat_alt)
  moreover have "ts_ok 48" by (simp add: ts_ok_def is_blank_def)
  ultimately show ?thesis
    using decimal_digits [of 20 n] by (auto simp: padded_def fmt_d_def list_all_iff simp del: show_digits.simps)
qed

lemma fraction_ok: "list_all ts_ok (fraction n)"
proof -
  have "set (rev (dropWhile (\<lambda>c. c = 48) (rev (padded 9 n)))) \<subseteq> set (padded 9 n)"
    by (auto dest: set_dropWhileD)
  then show ?thesis
    using padded_ok [of 9 n] by (auto simp: fraction_def Let_def list_all_iff ts_ok_def is_blank_def chr_def)
qed

lemma time_plain: "plain_ok (rfc3339_nano t)"
proof -
  have "list_all ts_ok (rfc3339_nano t)"
    by (simp add: rfc3339_nano_def Let_def padded_ok fraction_ok split: prod.split)
      (simp add: str_def chr_def ts_ok_def is_blank_def)
  moreover have "rfc3339_nano t \<noteq> []"
    by (simp add: rfc3339_nano_def Let_def str_def split: prod.split)
  ultimately show ?thesis by (simp add: plain_ok_def list_all_iff ts_ok_def)
qed

lemma sample_dates:
  "civil_date 0 = (1970, 1, 1)" "civil_date 11016 = (2000, 2, 29)" "civil_date 20088 = (2024, 12, 31)"
  "civil_date (- 1) = (1969, 12, 31)"
  by code_simp+

section \<open>The line\<close>

definition syscallConnect :: u8 where "syscallConnect = 1"
definition syscallBind :: u8 where "syscallBind = 2"
definition syscallAccept :: u8 where "syscallAccept = 3"
definition syscallDNS :: u8 where "syscallDNS = 4"
definition selfComm :: bytes where "selfComm = str ''agent''"
definition LogTypeConnect :: bytes where "LogTypeConnect = str ''linux_network_connect''"
definition LogTypeAccept :: bytes where "LogTypeAccept = str ''linux_network_accept''"
definition LogTypeBind :: bytes where "LogTypeBind = str ''linux_network_bind''"
definition LogTypeDNS :: bytes where "LogTypeDNS = str ''linux_dns_query''"

text \<open>Printable ASCII up to the first NUL, trimmed. Bytes from 128 on decode to runes that are dropped.\<close>

definition net_cstring :: "bytes \<Rightarrow> bytes" where
  "net_cstring b = trim_space (filter (\<lambda>c. 32 \<le> c \<and> c \<le> 126) (cstr b))"

definition protoName :: "u8 \<Rightarrow> bytes" where
  "protoName p =
     (if p = 6 then str ''tcp'' else if p = 17 then str ''udp'' else if p = 1 then str ''icmp'' else str ''other'')"

definition render_kind :: "u8 \<Rightarrow> (bytes \<times> bytes) option" where
  "render_kind k =
     (if k = syscallConnect then Some (LogTypeConnect, str ''network_connect'')
      else if k = syscallBind then Some (LogTypeBind, str ''network_bind'')
      else if k = syscallAccept then Some (LogTypeAccept, str ''network_accept'')
      else if k = syscallDNS then Some (LogTypeDNS, str ''dns_query'')
      else None)"

text \<open>\<open>render\<close>; the instant of boot is in nanoseconds, and an unknown kind has no line.\<close>

definition net_render :: "net_event \<Rightarrow> int \<Rightarrow> (bytes \<times> bytes) option" where
  "net_render ev boot_at =
     (let comm = net_cstring (ne_comm ev); host = net_cstring (ne_host ev);
          dst = uint32ToIP (ne_daddr_v4 ev); src = uint32ToIP (ne_saddr_v4 ev)
      in (case render_kind (ne_syscall_kind ev) of None \<Rightarrow> None
          | Some (log_type, action) \<Rightarrow>
              let direction = (if ne_syscall_kind ev = syscallBind \<or> ne_syscall_kind ev = syscallAccept
                               then str ''inbound'' else str ''outbound'')
              in Some (log_type,
                   str ''ts='' @ rfc3339_nano (boot_at + sint (ne_timestamp_ns ev)) @
                   str '' pid='' @ dec (ne_pid ev) @ str '' tgid='' @ dec (ne_tgid ev) @
                   str '' uid='' @ dec (ne_uid ev) @ str '' gid='' @ dec (ne_gid ev) @
                   str '' comm='' @ comm @ str '' action='' @ action @
                   str '' proto='' @ protoName (ne_proto ev) @ str '' direction='' @ direction @
                   str '' src='' @ src @ str '' dport='' @ dec (ne_remote_port ev) @
                   str '' dst='' @ dst @ str '' lport='' @ dec (ne_local_port ev) @
                   str '' host='' @ host @
                   str '' private_dst='' @ (if isPrivate dst then str ''true'' else str ''false''))))"

text \<open>What \<open>readLoop\<close> pushes for a record.\<close>

definition net_entry :: "int \<Rightarrow> bytes \<Rightarrow> bytes option" where
  "net_entry boot_at raw =
     (if length raw < net_recordSize then None
      else
        let ev = decode_net raw
        in if net_cstring (ne_comm ev) = selfComm then None
           else map_option (\<lambda>(log_type, line). tailer_encode log_type [] line) (net_render ev boot_at))"

section \<open>Reading it back\<close>

text \<open>The fields before and after the command name, and the command name as a list of words.\<close>

definition head_tokens :: "net_event \<Rightarrow> int \<Rightarrow> (bytes \<times> bytes) list" where
  "head_tokens ev boot_at =
     [(str ''ts'', rfc3339_nano (boot_at + sint (ne_timestamp_ns ev))), (str ''pid'', dec (ne_pid ev)),
      (str ''tgid'', dec (ne_tgid ev)), (str ''uid'', dec (ne_uid ev)), (str ''gid'', dec (ne_gid ev))]"

definition tail_tokens :: "net_event \<Rightarrow> bytes \<Rightarrow> (bytes \<times> bytes) list" where
  "tail_tokens ev action =
     [(str ''action'', action), (str ''proto'', protoName (ne_proto ev)),
      (str ''direction'', if ne_syscall_kind ev = syscallBind \<or> ne_syscall_kind ev = syscallAccept
         then str ''inbound'' else str ''outbound''),
      (str ''src'', uint32ToIP (ne_saddr_v4 ev)), (str ''dport'', dec (ne_remote_port ev)),
      (str ''dst'', uint32ToIP (ne_daddr_v4 ev)), (str ''lport'', dec (ne_local_port ev)),
      (str ''host'', net_cstring (ne_host ev)),
      (str ''private_dst'', if isPrivate (uint32ToIP (ne_daddr_v4 ev)) then str ''true'' else str ''false'')]"

lemma net_line_tokens:
  assumes "render_kind (ne_syscall_kind ev) = Some (log_type, action)"
    and "str ''comm='' @ net_cstring (ne_comm ev) = token_line ws" and "ws \<noteq> []"
  shows "net_render ev boot_at =
    Some (log_type, token_line (head_tokens ev boot_at @ ws @ tail_tokens ev action))"
proof -
  have app: "token_line (us @ vs) = token_line us @ 32 # token_line vs" if "us \<noteq> []" "vs \<noteq> []" for us vs
    using that(1)
  proof (induction us rule: induct_list012)
    case (2 u)
    then show ?case using that(2) by (cases vs) (auto simp: token_line_def)
  qed (auto simp: token_line_def)
  have "token_line (head_tokens ev boot_at @ ws @ tail_tokens ev action) =
      token_line (head_tokens ev boot_at) @ 32 # (str ''comm='' @ net_cstring (ne_comm ev)) @
      32 # token_line (tail_tokens ev action)"
  proof -
    have "head_tokens ev boot_at \<noteq> []" "tail_tokens ev action \<noteq> []" by (simp_all add: head_tokens_def tail_tokens_def)
    then show ?thesis
      using assms(2,3) app [of "head_tokens ev boot_at" "ws @ tail_tokens ev action"] app [of ws "tail_tokens ev action"]
      by simp
  qed
  then show ?thesis
    by (simp add: net_render_def assms(1) Let_def)
      (simp add: head_tokens_def tail_tokens_def token_line_def str_def chr_def)
qed


text \<open>A word, possibly empty: no blank and no quote.\<close>

definition word_ok :: "bytes \<Rightarrow> bool" where
  "word_ok w \<longleftrightarrow> w = [] \<or> plain_ok w"

lemma word_token: "key_ok k \<Longrightarrow> word_ok v \<Longrightarrow> token_ok (k, v)"
  by (auto simp: token_ok_def word_ok_def kv_match_plain)

lemma plain_str: "plain_ok (str s) \<longleftrightarrow> s \<noteq> [] \<and> list_all (\<lambda>c. \<not> is_blank (chr c) \<and> chr c \<noteq> 34 \<and> chr c \<noteq> 39) s"
  by (auto simp: plain_ok_def str_def list_all_iff)

lemma ip_plain: "plain_ok (uint32ToIP v)"
proof -
  let ?P = "\<lambda>b :: u8. \<not> is_blank b \<and> b \<noteq> 34 \<and> b \<noteq> 39"
  have d: "list_all ?P (fmt_d n)" "fmt_d n \<noteq> []" for n
    using fmt_d_plain [of n] by (simp_all add: plain_ok_def)
  have "str ''.'' = [46]" "?P 46" by (simp_all add: str_def chr_def is_blank_def)
  then show ?thesis
    unfolding plain_ok_def uint32ToIP_def by (simp add: d del: not_less)
qed

lemma head_words: "list_all (\<lambda>(k, v). key_ok k \<and> plain_ok v) (head_tokens ev boot_at)"
  by (simp add: head_tokens_def time_plain fmt_d_plain key_str is_word_def chr_def)

lemma tail_words:
  assumes "render_kind (ne_syscall_kind ev) = Some (log_type, action)" and "word_ok (net_cstring (ne_host ev))"
  shows "list_all (\<lambda>(k, v). key_ok k \<and> word_ok v) (tail_tokens ev action)"
proof -
  have a: "plain_ok action"
    using assms(1) by (auto simp: render_kind_def plain_str is_blank_def chr_def split: if_splits)
  have p: "plain_ok (protoName p)" for p
    by (simp add: protoName_def plain_str is_blank_def chr_def)
  have c: "plain_ok (if b then str ''inbound'' else str ''outbound'')" "plain_ok (if b then str ''true'' else str ''false'')" for b
    by (simp_all add: plain_str is_blank_def chr_def)
  have k: "list_all (\<lambda>k. key_ok (str k))
      [''action'', ''proto'', ''direction'', ''src'', ''dport'', ''dst'', ''lport'', ''host'', ''private_dst'']"
    by (simp add: key_str is_word_def chr_def)
  have w: "plain_ok v \<Longrightarrow> word_ok v" for v by (simp add: word_ok_def)
  show ?thesis
    using k unfolding tail_tokens_def list.pred_inject prod.case
    by (simp only: list.pred_inject w [OF a] w [OF p] w [OF c(1)] w [OF c(2)] w [OF ip_plain] w [OF fmt_d_plain] assms(2) HOL.simp_thms)
qed

lemma parse_words:
  "list_all (\<lambda>(k, v). key_ok k \<and> word_ok v) ts \<Longrightarrow> parse_fields (token_line ts) = filter (\<lambda>(k, v). v \<noteq> []) ts"
proof -
  assume ts: "list_all (\<lambda>(k, v). key_ok k \<and> word_ok v) ts"
  then have "list_all token_ok ts" by (auto simp: list_all_iff word_token)
  moreover have "map (\<lambda>(k, v). (k, parse_value v)) (filter (\<lambda>(k, v). v \<noteq> []) ts) = filter (\<lambda>(k, v). v \<noteq> []) ts"
    using ts by (intro map_idI) (auto simp: list_all_iff word_ok_def parse_value_plain)
  ultimately show ?thesis by (simp add: parse_fields_def findall_tokens)
qed

text \<open>
  With a command name and a host that are words the worker reads every field
  as the agent wrote it; an empty one is left out.
\<close>

lemma net_line_read:
  assumes "render_kind (ne_syscall_kind ev) = Some (log_type, action)"
    and "word_ok (net_cstring (ne_comm ev))" and "word_ok (net_cstring (ne_host ev))"
  shows "\<exists>line. net_render ev boot_at = Some (log_type, line) \<and>
    parse_fields line = filter (\<lambda>(k, v). v \<noteq> [])
      (head_tokens ev boot_at @ [(str ''comm'', net_cstring (ne_comm ev))] @ tail_tokens ev action)"
proof -
  let ?ts = "head_tokens ev boot_at @ [(str ''comm'', net_cstring (ne_comm ev))] @ tail_tokens ev action"
  have "str ''comm='' @ net_cstring (ne_comm ev) = token_line [(str ''comm'', net_cstring (ne_comm ev))]"
    by (simp add: token_line_def str_def chr_def)
  then have line: "net_render ev boot_at = Some (log_type, token_line ?ts)"
    by (intro net_line_tokens assms(1)) simp_all
  have "list_all (\<lambda>(k, v). key_ok k \<and> word_ok v) ?ts"
    using head_words [of ev boot_at] tail_words [OF assms(1,3)] assms(2)
    by (auto simp: list_all_iff word_ok_def key_str is_word_def chr_def)
  then have "parse_fields (token_line ?ts) = filter (\<lambda>(k, v). v \<noteq> []) ?ts" by (rule parse_words)
  with line show ?thesis by blast
qed

text \<open>
  C21: A process writes its own fields. The agent does not quote the command
  name, which any program can set: a name of the form \<open>word key=value\<close> gives
  the worker that value for that key, in place of the one the kernel
  recorded, for every key in front of the name (the process, its user and
  its group). Assumed of the host the record shows:
  it is empty or one word.
\<close>

theorem comm_forges_field:
  assumes "render_kind (ne_syscall_kind ev) = Some (log_type, action)"
    and "net_cstring (ne_comm ev) = w @ [32] @ k @ [61] @ v"
    and "plain_ok w" and "key_ok k" and "plain_ok v" and "word_ok (net_cstring (ne_host ev))"
    and "k \<notin> set (map str [''action'', ''proto'', ''direction'', ''src'', ''dport'', ''dst'', ''lport'', ''host'', ''private_dst''])"
  shows "\<exists>line. net_render ev boot_at = Some (log_type, line) \<and> parse_kv line k = Some v"
proof -
  let ?ws = "[(str ''comm'', w), (k, v)]"
  let ?ts = "head_tokens ev boot_at @ ?ws @ tail_tokens ev action"
  have "str ''comm='' @ net_cstring (ne_comm ev) = token_line ?ws"
    by (simp add: token_line_def assms(2) str_def chr_def)
  then have line: "net_render ev boot_at = Some (log_type, token_line ?ts)"
    by (intro net_line_tokens assms(1)) simp_all
  have "list_all (\<lambda>(k, v). key_ok k \<and> word_ok v) ?ts"
    using head_words [of ev boot_at] tail_words [OF assms(1,6)] assms(3-5)
    by (auto simp: list_all_iff word_ok_def key_str is_word_def chr_def)
  then have fields: "parse_fields (token_line ?ts) = filter (\<lambda>(k, v). v \<noteq> []) ?ts" by (rule parse_words)
  have "k \<notin> fst ` set (filter (\<lambda>(k, v). v \<noteq> []) (tail_tokens ev action))"
    using assms(7) by (auto simp: tail_tokens_def)
  moreover have "v \<noteq> []" "w \<noteq> []" using assms(3,5) by (simp_all add: plain_ok_def)
  ultimately have "parse_kv (token_line ?ts) k = Some v"
    unfolding parse_kv_def fields
    by (simp add: map_add_def map_of_eq_None_iff [THEN iffD2] image_iff split: option.split)
  with line show ?thesis by blast
qed

theorem comm_forges_field_witness:
  "\<exists>line. net_render (sample_net_event\<lparr>ne_syscall_kind := syscallConnect, ne_uid := 1000,
       ne_comm := str ''x uid=0'' @ replicate 9 0\<rparr>) 0 = Some (LogTypeConnect, line) \<and>
     parse_kv line (str ''uid'') = Some (str ''0'')"
proof -
  let ?ev = "sample_net_event\<lparr>ne_syscall_kind := syscallConnect, ne_uid := 1000, ne_comm := str ''x uid=0'' @ replicate 9 0\<rparr>"
  have k: "render_kind (ne_syscall_kind ?ev) = Some (LogTypeConnect, str ''network_connect'')"
    by (simp add: render_kind_def)
  have c: "net_cstring (ne_comm ?ev) = str ''x'' @ [32] @ str ''uid'' @ [61] @ str ''0''"
    by (simp add: net_cstring_def cstr_def str_def chr_def trim_space_def trim_words.simps go_spaces_def)
  have h: "word_ok (net_cstring (ne_host ?ev))"
    by (simp add: word_ok_def net_cstring_def cstr_def sample_net_event_def trim_space_def trim_words.simps go_spaces_def)
  have p: "plain_ok (str ''x'')" "key_ok (str ''uid'')" "plain_ok (str ''0'')"
    by (simp_all add: plain_str key_str is_word_def is_blank_def chr_def)
  have n: "str ''uid'' \<notin> set (map str [''action'', ''proto'', ''direction'', ''src'', ''dport'', ''dst'', ''lport'', ''host'', ''private_dst''])"
    by (simp add: str_def chr_def)
  from comm_forges_field [OF k c p h n] show ?thesis by blast
qed

section \<open>From the system call to the worker\<close>

lemma uint32ToIP_le_word:
  assumes "length addr = 4"
  shows "uint32ToIP (le_word addr) = join_with (str ''.'') (map dec addr)"
proof -
  have b: "(ucast (drop_bit (8 * k) (le_word addr :: u32)) :: u8) = addr ! k" if "k < 4" for k
  proof (rule bit_word_eqI)
    fix n :: nat
    assume "n < LENGTH(8)"
    then have "n < 8" by simp
    then have "(8 * k + n) div 8 = k" "(8 * k + n) mod 8 = n" "8 * k + n < 32" using that by auto
    then show "bit (ucast (drop_bit (8 * k) (le_word addr :: u32)) :: u8) n = bit (addr ! k) n"
      using \<open>n < 8\<close> that assms by (simp add: bit_simps bit_le_word add.commute)
  qed
  obtain a0 a1 a2 a3 where a: "addr = [a0, a1, a2, a3]"
    using assms by (auto simp: numeral_eq_Suc length_Suc_conv)
  show ?thesis
    using b [of 0] b [of 1] b [of 2] b [of 3] by (simp add: uint32ToIP_def a)
qed

lemma last_field:
  assumes "distinct (map fst ts)" and "(k, v) \<in> set ts" and "v \<noteq> []"
  shows "map_of (rev (filter (\<lambda>(k, v). v \<noteq> []) ts)) k = Some v"
  using assms by (intro map_of_is_SomeI) (auto simp: rev_map [symmetric] distinct_map_filter)

lemma net_keys_distinct:
  "distinct (map str [''ts'', ''pid'', ''tgid'', ''uid'', ''gid'', ''comm'', ''action'', ''proto'', ''direction'', ''src'',
     ''dport'', ''dst'', ''lport'', ''host'', ''private_dst''])"
  by (simp add: str_def chr_def)

lemma port_shown: "dec (word_of_nat (256 * unat (hi :: u8) + unat (lo :: u8)) :: u16) = fmt_d (256 * unat hi + unat lo)"
proof -
  have "256 * unat hi + unat lo < 2 ^ LENGTH(16)" using octet_bound [of hi] octet_bound [of lo] by simp
  then show ?thesis by (simp add: unat_of_nat del: of_nat_add of_nat_mult)
qed

text \<open>The record of a \<open>connect\<close> and what the agent and the worker make of it.\<close>

lemma handle_connect_inet:
  assumes "holds_user env (args ! 1) (sockaddr_in hi lo addr rest)" and "args ! 1 \<noteq> 0"
    and "length addr = 4" and "length rest = 8"
  shows "handle_connect env (Some ev) es args = (0, es @ [(fill_identity env ev)\<lparr>ne_syscall_kind := SYSCALL_CONNECT,
     ne_proto := 6, ne_family := 2, ne_remote_port := word_of_nat (256 * unat hi + unat lo), ne_daddr_v4 := le_word addr\<rparr>])"
  by (simp add: handle_connect_def read_sockaddr_in [OF assms] Let_def del: One_nat_def)

lemma net_entry_line:
  assumes "net_event_ok e" and "length mem = csize net_event_ty"
    and "net_cstring (ne_comm e) \<noteq> selfComm"
    and "render_kind (ne_syscall_kind e) = Some (log_type, action)"
    and "word_ok (net_cstring (ne_comm e))" and "word_ok (net_cstring (ne_host e))"
  shows "\<exists>entry line. net_entry boot_at (net_bytes mem e) = Some entry \<and>
    tailer_decode entry = (log_type, [], line) \<and>
    parse_fields line = filter (\<lambda>(k, v). v \<noteq> [])
      (head_tokens e boot_at @ [(str ''comm'', net_cstring (ne_comm e))] @ tail_tokens e action)"
proof -
  obtain line where line: "net_render e boot_at = Some (log_type, line)"
    "parse_fields line = filter (\<lambda>(k, v). v \<noteq> [])
      (head_tokens e boot_at @ [(str ''comm'', net_cstring (ne_comm e))] @ tail_tokens e action)"
    using net_line_read [OF assms(4-6), of boot_at] by blast
  have n: "0 \<notin> set log_type"
    using assms(4) by (auto simp: render_kind_def str_def chr_def LogTypeConnect_def LogTypeBind_def
        LogTypeAccept_def LogTypeDNS_def split: if_splits)
  have "net_entry boot_at (net_bytes mem e) = Some (tailer_encode log_type [] line)"
    using net_record_decoded [OF assms(1,2)] assms(3) line(1) by (simp add: net_entry_def Let_def)
  moreover have "tailer_decode (tailer_encode log_type [] line) = (log_type, [], line)"
    using n by (simp add: tailer_round_trip)
  ultimately show ?thesis using line(2) by blast
qed

text \<open>A record of the agent itself is dropped, whoever carries that name.\<close>

lemma self_comm_dropped:
  assumes "net_event_ok e" and "length mem = csize net_event_ty" and "net_cstring (ne_comm e) = selfComm"
  shows "net_entry boot_at (net_bytes mem e) = None"
  using net_record_decoded [OF assms(1,2)] assms(3) by (simp add: net_entry_def Let_def)

text \<open>
  C10: From \<open>connect\<close> to the analyst: a call with an IPv4 address yields one
  record, for which the agent pushes one entry of the log type of connections,
  and the worker reads from its line the address as the caller's four bytes in
  dotted form, the port from its two bytes with the high one first, and the
  process, the thread, the user and the command name the kernel reports. Two
  things are assumed. The name is one word and not the agent's own. And what
  the reserved ring buffer memory held where the record has its host, which
  \<open>handle_connect\<close> does not write and the agent prints all the same, is empty or
  one word: a stale host of several words adds fields that replace these.
\<close>

theorem connect_line_read:
  assumes "bpf_helpers env" and "net_event_ok ev" and "length mem = csize net_event_ty"
    and "holds_user env (args ! 1) (sockaddr_in hi lo addr rest)" and "args ! 1 \<noteq> 0"
    and "length addr = 4" and "length rest = 8"
    and "net_cstring (snd (current_comm env (ne_comm ev))) = name" and "plain_ok name" and "name \<noteq> selfComm"
    and "word_ok (net_cstring (ne_host ev))"
  shows "\<exists>e entry line. handle_connect env (Some ev) es args = (0, es @ [e]) \<and>
    net_entry boot_at (net_bytes mem e) = Some entry \<and> tailer_decode entry = (LogTypeConnect, [], line) \<and>
    parse_kv line (str ''dst'') = Some (join_with (str ''.'') (map dec addr)) \<and>
    parse_kv line (str ''dport'') = Some (fmt_d (256 * unat hi + unat lo)) \<and>
    parse_kv line (str ''pid'') = Some (dec (ucast (current_pid_tgid env) :: u32)) \<and>
    parse_kv line (str ''tgid'') = Some (dec (ucast (drop_bit 32 (current_pid_tgid env)) :: u32)) \<and>
    parse_kv line (str ''uid'') = Some (dec (ucast (current_uid_gid env) :: u32)) \<and>
    parse_kv line (str ''comm'') = Some name \<and>
    parse_kv line (str ''action'') = Some (str ''network_connect'') \<and>
    parse_kv line (str ''proto'') = Some (str ''tcp'') \<and>
    parse_kv line (str ''direction'') = Some (str ''outbound'')"
proof -
  let ?e = "(fill_identity env ev)\<lparr>ne_syscall_kind := SYSCALL_CONNECT, ne_proto := 6, ne_family := 2,
     ne_remote_port := word_of_nat (256 * unat hi + unat lo), ne_daddr_v4 := le_word addr\<rparr>"
  obtain e where e: "e = ?e" by blast
  have k: "render_kind (ne_syscall_kind e) = Some (LogTypeConnect, str ''network_connect'')"
    by (simp add: e render_kind_def SYSCALL_CONNECT_def syscallConnect_def)
  have ok: "net_event_ok e"
    using bpf_helpers.comm_length [OF assms(1), of "ne_comm ev"] assms(2)
    by (simp add: e fill_identity_def Let_def net_event_ok_def TASK_COMM_LEN_def del: length_greater_0_conv)
  have c: "net_cstring (ne_comm e) = name" "net_cstring (ne_host e) = net_cstring (ne_host ev)"
    using assms(8) by (simp_all add: e fill_identity_def Let_def)
  have w: "word_ok name" using assms(9) by (simp add: word_ok_def)
  obtain entry line where ent: "net_entry boot_at (net_bytes mem e) = Some entry"
    "tailer_decode entry = (LogTypeConnect, [], line)"
    and f: "parse_fields line = filter (\<lambda>(k, v). v \<noteq> [])
      (head_tokens e boot_at @ [(str ''comm'', name)] @ tail_tokens e (str ''network_connect''))"
    using net_entry_line [OF ok assms(3) _ k, unfolded c, OF assms(10) w assms(11), of boot_at] by blast
  have ne: "fmt_d n \<noteq> []" "uint32ToIP v \<noteq> []" "rfc3339_nano t \<noteq> []" "name \<noteq> []" for n v t
    using fmt_d_plain [of n] ip_plain [of v] time_plain [of t] assms(9) by (auto simp: plain_ok_def)
  have s: "str ''tcp'' \<noteq> []" "str ''network_connect'' \<noteq> []" "str ''outbound'' \<noteq> []" "str ''true'' \<noteq> []"
    "str ''false'' \<noteq> []" by (simp_all add: str_def)
  have x: "ne_pid e = ucast (current_pid_tgid env)" "ne_tgid e = ucast (drop_bit 32 (current_pid_tgid env))"
    "ne_uid e = ucast (current_uid_gid env)" "ne_remote_port e = word_of_nat (256 * unat hi + unat lo)"
    "ne_daddr_v4 e = le_word addr" "protoName (ne_proto e) = str ''tcp''"
    "(ne_syscall_kind e = syscallBind \<or> ne_syscall_kind e = syscallAccept) = False"
    by (simp_all add: e fill_identity_def Let_def protoName_def SYSCALL_CONNECT_def syscallBind_def syscallAccept_def)
  obtain priv where priv: "priv = (if isPrivate (uint32ToIP (ne_daddr_v4 e)) then str ''true'' else str ''false'')" "priv \<noteq> []"
    using s by auto
  let ?ts = "[(str ''ts'', rfc3339_nano (boot_at + sint (ne_timestamp_ns e))), (str ''pid'', dec (ne_pid e)),
      (str ''tgid'', dec (ne_tgid e)), (str ''uid'', dec (ne_uid e)), (str ''gid'', dec (ne_gid e)),
      (str ''comm'', name), (str ''action'', str ''network_connect''), (str ''proto'', str ''tcp''),
      (str ''direction'', str ''outbound''), (str ''src'', uint32ToIP (ne_saddr_v4 e)),
      (str ''dport'', fmt_d (256 * unat hi + unat lo)), (str ''dst'', join_with (str ''.'') (map dec addr)),
      (str ''lport'', dec (ne_local_port e)), (str ''host'', net_cstring (ne_host ev)), (str ''private_dst'', priv)]"
  have m: "parse_kv line = map_of (rev (filter (\<lambda>(k, v). v \<noteq> []) ?ts))"
    unfolding parse_kv_def f head_tokens_def tail_tokens_def priv(1) c x uint32ToIP_le_word [OF assms(6)] port_shown
    by (simp only: append.simps if_False)
  have "distinct (map fst ?ts)" using net_keys_distinct by simp
  note get = last_field [OF this, folded m]
  have d: "join_with (str ''.'') (map dec addr) \<noteq> []" using ne(2) [of "le_word addr"] uint32ToIP_le_word [OF assms(6)] by simp
  have "parse_kv line (str ''dst'') = Some (join_with (str ''.'') (map dec addr)) \<and>
    parse_kv line (str ''dport'') = Some (fmt_d (256 * unat hi + unat lo)) \<and>
    parse_kv line (str ''pid'') = Some (dec (ne_pid e)) \<and>
    parse_kv line (str ''tgid'') = Some (dec (ne_tgid e)) \<and>
    parse_kv line (str ''uid'') = Some (dec (ne_uid e)) \<and>
    parse_kv line (str ''comm'') = Some name \<and>
    parse_kv line (str ''action'') = Some (str ''network_connect'') \<and>
    parse_kv line (str ''proto'') = Some (str ''tcp'') \<and>
    parse_kv line (str ''direction'') = Some (str ''outbound'')"
    by (intro conjI get) (simp_all add: ne s d)
  moreover have "handle_connect env (Some ev) es args = (0, es @ [e])"
    unfolding e by (rule handle_connect_inet [OF assms(4-7)])
  ultimately show ?thesis using ent unfolding x by blast
qed

theorem connect_line_read_witness:
  "\<exists>e entry line. handle_connect (sample_env sample_net_user 0 0) (Some sample_net_event) [] [3, 64, 16] = (0, [e]) \<and>
     net_entry 0 (net_bytes (replicate 184 1) e) = Some entry \<and> tailer_decode entry = (LogTypeConnect, [], line) \<and>
     parse_kv line (str ''dst'') = Some (str ''8.8.8.8'') \<and> parse_kv line (str ''comm'') = Some (str ''sh'')"
proof -
  let ?env = "sample_env sample_net_user 0 0"
  have m: "length (replicate 184 (1 :: u8)) = csize net_event_ty" by (simp add: net_offsets(2))
  have u: "holds_user ?env ([3, 64, 16] ! 1) (sockaddr_in 0 53 [8, 8, 8, 8] (replicate 8 0))"
    using sample_sockaddr by simp
  have c: "net_cstring (snd (current_comm ?env (ne_comm sample_net_event))) = str ''sh''"
    by (simp add: net_cstring_def sample_env_def cell_env_def sample_net_event_def str_copy_def
        blit_def cstr_def str_def chr_def trim_space_def trim_words.simps go_spaces_def)
  have p: "plain_ok (str ''sh'')" "str ''sh'' \<noteq> selfComm"
    by (simp_all add: plain_str is_blank_def selfComm_def) (simp_all add: str_def chr_def)
  have h: "word_ok (net_cstring (ne_host sample_net_event))"
    by (simp add: word_ok_def net_cstring_def cstr_def sample_net_event_def trim_space_def trim_words.simps go_spaces_def)
  have d: "join_with (str ''.'') (map dec [8 :: u8, 8, 8, 8]) = str ''8.8.8.8''"
    by (simp add: fmt_d_digit) (simp add: str_def chr_def)
  from connect_line_read [OF sample_helpers sample_net_ok m u _ _ _ c p h, of "[]" 0] show ?thesis
    unfolding d by auto
qed

end
