(* ===== verification/Spec2Isabelle.thy ===== *)
theory Spec2Isabelle
  imports Linsensor_Runs Linsensor_Calls Wire Kernel_Objects Core_Read_Macros Bpf_Helpers Bpf_Iter
    Prevent_Enforce Map_Decls Sensor_Flow Procexec_Lines Netwatch_Lines
begin

text \<open>
  The eBPF programs of the ADSIEM Linux agent, and the agent code around them.

  The agent (\<open>agent/internal\<close>) loads four eBPF objects into the kernel. Each
  is one C file; programs run at a hook, read kernel and user memory through
  helpers, keep state in maps, and send records through a ring buffer that
  the agent's Go code decodes:

    \<^item> \<open>prevent/bpf/prevent.bpf.c\<close> refuses program starts that match a rule;
    \<^item> \<open>procexec/bpf/execve.bpf.c\<close> records \<open>execve\<close> calls with their arguments;
    \<^item> \<open>netwatch/bpf/netwatch.bpf.c\<close> records \<open>connect\<close>, \<open>bind\<close>, \<open>accept4\<close> and DNS queries;
    \<^item> \<open>linsensor/bpf/linsensor.bpf.c\<close> records file changes, module loads, ptrace,
      memory access, privilege gains, memfds, executions and exits. It pairs a
      system call's entry with its exit through a map of stashed arguments.

  All four include the headers under \<open>procexec/bpf/include/bpf\<close>: \<open>vmlinux.h\<close> with
  the kernel's types, and libbpf's \<open>bpf_helpers.h\<close>, \<open>bpf_tracing.h\<close>,
  \<open>bpf_core_read.h\<close> and \<open>bpf_endian.h\<close>.

  \<^bold>\<open>The kernel as a parameter.\<close> The helpers are code outside the repository.
  \<open>Bpf_Env\<close> collects them in a record \<open>bpf_env\<close> that every model takes as an
  argument; the locale \<open>bpf_helpers\<close> states what \<open>bpf_helper_defs.h\<close> documents of
  them (results, lengths, NUL termination), and \<open>bpf_map\<close> the same of a hash
  map. Both are interpreted on executable machines: byte memories and memories of
  cells for the helpers, LRU and plain hash maps over association lists for
  the maps. A ring buffer reservation is an argument \<open>slot\<close>: the memory with
  whatever it held before, or no memory; submitted records are a list, oldest
  first. An address is a 64-bit word; the offsets the loader relocates
  (\<open>core_off\<close>) are part of the environment.

  \<^bold>\<open>Theories.\<close>

    \<^item> \<open>Prelude\<close>: fixed-width words, little-endian bytes, C strings, writes into
      buffers, array maps.
    \<^item> \<open>Bpf_Env\<close>: helpers and maps, as above.
    \<^item> \<open>Bpf_Endian\<close>: \<open>bpf_endian.h\<close>; conversion and its inverse for both byte orders.
    \<^item> \<open>Bpf_Core_Read\<close>: \<open>bpf_core_read.h\<close>; relocated reads, chains of reads,
      \<open>container_of\<close>, and bitfields, whose writes and reads are inverse.
    \<^item> \<open>Core_Read_Macros\<close>: the macro ladders behind \<open>BPF_CORE_READ\<close> and the other
      readers of \<open>bpf_core_read.h\<close>; they chase pointers from left to right.
    \<^item> \<open>Bpf_Tracing\<close>: \<open>bpf_tracing.h\<close>; the register tables of all architectures
      and the wrapper macros, with the argument order of \<open>BPF_PROG2\<close>.
    \<^item> \<open>Path_Walk\<close>: the two loops of \<open>build_path\<close>, shared by prevent and
      linsensor, against \<open>vfs_path\<close>: how a path is made of directory entries
      and mounts (\<open>vfs_climb\<close>), and that of a disconnected entry, such as a memfd,
      of its name.
    \<^item> \<open>Sample\<close>: a small machine on which the witnesses run.
    \<^item> \<open>Prevent\<close>: maps, rule look-ups, \<open>check_exec\<close> and \<open>enter_prctl\<close>; the
      verdict is that of an abstract policy, and runs keep the maps' shape.
    \<^item> \<open>Execve\<close>: \<open>handle_execve\<close> with its argument loop, and the agent's
      \<open>splitArgs\<close>, which reads back what the loop stored.
    \<^item> \<open>Netwatch\<close>: the four handlers; what they report and what they let through.
    \<^item> \<open>Linsensor_State\<close>: maps, counters, \<open>stash\<close> and \<open>take\<close>, \<open>reserve\<close>,
      \<open>build_path\<close>, \<open>fd_file\<close>, \<open>dir_of\<close>.
    \<^item> \<open>Linsensor\<close>: every entry and exit handler, the scheduler tracepoints, and
      the dispatch from \<open>raw_sys_enter\<close> on both architectures.
    \<^item> \<open>Linsensor_Runs\<close>: runs of all programs in any interleaving as a step
      relation; its invariant, the accounting of records, drops and pairings over
      any run, that exactly the successful stashed calls are reported or
      counted as dropped, and that the agent itself never is.
    \<^item> \<open>Linsensor_Calls\<close>: a call from entry to exit: what is reported of an open
      (with the directory its name starts at, for any descriptor), a \<open>set*id\<close> and
      an execution, memfds included, and when a stale entry is reported.
    \<^item> \<open>C_Layout\<close>: sizes, alignments and field positions of C types, bitfields
      included; every field lies inside its structure, aligned.
    \<^item> \<open>Vmlinux_Task\<close>, \<open>Vmlinux\<close>: the structures of \<open>vmlinux.h\<close> the programs
      read, and every type these contain, with their sizes.
    \<^item> \<open>Kernel_Objects\<close>: the programs' reads over objects with these layouts.
    \<^item> \<open>Wire\<close>: the records as bytes, and the agent's decoders: \<open>decodeRaw\<close>,
      \<open>lsmEngine.read\<close>, \<open>decodeExec\<close> and netwatch's \<open>decode\<close>.

    \<^item> \<open>Go_Strings\<close>: the functions of Go's \<open>strings\<close>, \<open>filepath\<close> and \<open>hex\<close> packages
      the agent uses; a cleaned path is clean.
    \<^item> \<open>Prevent_Rules\<close>: \<open>prevent/rules.go\<close>: validation and compilation of the
      server's rules, the guard, the decision in user space; every compiled
      policy is well formed.
    \<^item> \<open>Prevent_Apply\<close>: \<open>apply\<close> of \<open>prevent/lsm_linux.go\<close>, with every update that
      can fail; a failure leaves enforcement off.
    \<^item> \<open>Prevent_Enforce\<close>: the composition of both with \<open>check_exec\<close>: after a load
      the maps hold exactly the policy (\<open>holds_policy\<close>), the kernel enforces it,
      finds the rule the decision in user space finds, and path and directory
      rules spare the protected executables. What is assumed of names, values
      and the file system (\<open>names_clash_free\<close>, \<open>values_plain\<close>, \<open>dirs_agree\<close>, \<open>one_dir\<close>)
      is said at each theorem, with examples of what happens without.
    \<^item> \<open>Map_Decls\<close>: the map declarations of the four programs; loading a policy
      stays within them.
    \<^item> \<open>Bpf_Helpers\<close>, \<open>Bpf_Iter\<close>: the printing macros and the iterator loops of
      \<open>bpf_helpers.h\<close>. The loops end under the locale \<open>num_iter\<close>, which is
      interpreted on the state \<open>vmlinux.h\<close> gives the number iterator.
    \<^item> \<open>Kv_Lines\<close>: the quoting of the agent's log lines and the worker's
      \<open>_parse_kv\<close>, which reads them back.
    \<^item> \<open>Linsensor_Lines\<close>: \<open>linsensor/event.go\<close>, the line of every kind of record.
    \<^item> \<open>Processor\<close>: \<open>linsensor/processor.go\<close>: images, file windows, repeated
      reports; over any run the tables stay bounded, and while a process keeps
      one window its records ship at most the window's budget of changes.
    \<^item> \<open>Sensor_Flow\<close>: a fileless execution from the kernel hook to the fields the
      worker reads.
    \<^item> \<open>Procexec_Lines\<close>: the line and the buffer entry of a program start,
      and \<open>Encode\<close> and \<open>Decode\<close> of \<open>tailer.go\<close>; an \<open>execve\<close> from the system call to
      the fields the worker reads.
    \<^item> \<open>Netwatch_Lines\<close>: the same for network records, with the forms of addresses,
      times and names; a command name of several words forges fields.

  \<^bold>\<open>State and correspondence.\<close> A map is a field of the state record of its
  program (\<open>prevent_st\<close>, \<open>exec_st\<close>, \<open>lin_st\<close>) under its C name: a list for an array,
  a list per processor for a per-CPU array, a function or a parameter with
  operations for a hash map. A definition has the name of its C function;
  \<open>build_path\<close> and \<open>enter_prctl\<close> of prevent carry the suffix \<open>_prevent\<close>, \<open>take\<close> is
  \<open>take_args\<close>. A C struct is a record whose fields carry a prefix. Programs return
  their result and the new state; in linsensor, where every program returns
  0, only the state. Handlers run one at a time: a program is not preempted
  by another on its processor, and the per-CPU scratch areas are the only
  memory two programs could share.

  \<^bold>\<open>Bounds.\<close> No model uses fuel that could run out: every C loop has a constant
  bound (\<open>MAX_DEPTH\<close> 16, \<open>MAX_PARENT\<close> 64, \<open>MAXARG\<close> 8, 64 bytes of a DNS name), and
  its model recurses over the rounds left. Theorems about paths
  cover every chain (\<open>covered\<close>): one that ends within 16 steps, counting entries
  and mount crossings, is named whole, of a longer one the lowest 16 steps. A
  disconnected entry has the single component that is its name.

  The worker's patterns and the cleaning of paths recurse on the text, with
  termination proofs. \<open>bpf_for\<close> and its relatives are partial functions, where a
  loop that does not end is \<open>None\<close>; that it ends is proved. Numbers are printed
  with at most 20 decimal or 16 hexadecimal digits, enough for 64 bits.

  \<^bold>\<open>The agent's Go code.\<close> Texts are byte lists. A Go map is a function where only
  look-ups matter and an association list with distinct keys where its size
  or the walk over it matters; the order of a walk is a parameter
  (\<open>range_map\<close>) or the order of the list. File system, \<open>/proc\<close>, clock and
  configuration are arguments (\<open>go_os\<close>, \<open>proc_env\<close>). Early returns with an error
  are \<open>Some\<close> in \<open>lsm_apply\<close> and \<open>Inl\<close> in \<open>check_rule\<close>.

  \<^bold>\<open>Not modelled.\<close> The rest of \<open>vmlinux.h\<close>, generated from the kernel's type
  information and used by no program. \<open>bpf_helper_defs.h\<close>, which only declares
  kernel functions: what it documents of those the programs call is the
  hypotheses \<open>bpf_helpers\<close> and \<open>bpf_map\<close>. Of \<open>bpf_helpers.h\<close>, the attributes for
  sections and tags, the barriers and the inline assembly of
  \<open>bpf_tail_call_static\<close>. The relocation queries of \<open>bpf_core_read.h\<close> for types
  and enumerators, which the loader answers. Of the Go code: attaching and
  closing programs, the fanotify engine, the known-malware set and
  exclusions in \<open>match\<close>, health checks, the loops around the ring buffers, the
  reading of \<open>/proc\<close> and of the time of boot, the Windows side and the packages
  that do not touch the records. Of the worker everything but \<open>_parse_kv\<close>, whose
  patterns are modelled on ASCII keys and blanks. Server and dashboard.
\<close>

end
